(* ===== verification/Prelude.thy ===== *)
theory Prelude
  imports Main "HOL-Library.Word" "HOL-Library.Multiset"
begin

text \<open>
  What every component of the feeder shares: the machine integer types, the error type of
  \<^verbatim>\<open>src/src/errors.rs\<close> and its \<open>Result\<close>, the slice operation \<^verbatim>\<open>chunks\<close>, and the loop
  combinator that stands for a Rust \<^verbatim>\<open>for\<close> loop whose body ends in the \<^verbatim>\<open>?\<close> operator.
\<close>

unbundle bit_operations_syntax

named_theorems wire_simps \<open>widths and round trips of the byte codecs\<close>
named_theorems build_simps \<open>characteristic equations of the packet building steps\<close>

section \<open>Machine integers\<close>

type_synonym u8 = "8 word"
type_synonym u16 = "16 word"
type_synonym u32 = "32 word"
type_synonym u64 = "64 word"
type_synonym i64 = "64 word" \<comment> \<open>read with \<^term>\<open>sint\<close>\<close>

section \<open>Errors\<close>

text \<open>
  The standard library's \<^verbatim>\<open>io::ErrorKind\<close>, as far as the feeder tells kinds apart: it only
  asks for \<^verbatim>\<open>WouldBlock\<close> (and \<^verbatim>\<open>TimedOut\<close> in the counter tool); \<^verbatim>\<open>NotConnected\<close> is what
  sending on an unconnected socket gives.
\<close>

datatype io_error = WouldBlock | TimedOut | NotConnected | OtherIo nat

text \<open>
  \<^verbatim>\<open>CryptoFeederError\<close>. The payloads that come from other crates are numbered kinds; the
  message strings are written as short English glosses of the Korean texts.
\<close>

datatype crypto_feeder_error =
    WebSocketError nat
  | JsonParseError string
  | UdpError io_error
  | ConfigError nat
  | UrlParseError nat
  | SerializationError string
  | Other string

type_synonym 'a result = "crypto_feeder_error + 'a"

abbreviation Ok :: "'a \<Rightarrow> 'a result" where
  "Ok x \<equiv> Inr x"

abbreviation Err :: "crypto_feeder_error \<Rightarrow> 'a result" where
  "Err e \<equiv> Inl e"

text \<open>The \<^verbatim>\<open>?\<close> operator on a pure result, and \<^verbatim>\<open>ok_or_else\<close> on an option.\<close>

definition and_then :: "'a result \<Rightarrow> ('a \<Rightarrow> 'b result) \<Rightarrow> 'b result" where
  "and_then r f = (case r of Inl e \<Rightarrow> Inl e | Inr x \<Rightarrow> f x)"

definition ok_or :: "'a option \<Rightarrow> crypto_feeder_error \<Rightarrow> 'a result" where
  "ok_or x e = (case x of None \<Rightarrow> Inl e | Some y \<Rightarrow> Inr y)"

lemma and_then_simps [simp]:
  "and_then (Inl e) f = Inl e"
  "and_then (Inr x) f = f x"
  by (simp_all add: and_then_def)

lemma ok_or_simps [simp]:
  "ok_or None e = Inl e"
  "ok_or (Some y) e = Inr y"
  by (simp_all add: ok_or_def)

lemma and_then_Inr_iff [simp]:
  "and_then r f = Inr y \<longleftrightarrow> (\<exists>x. r = Inr x \<and> f x = Inr y)"
  by (cases r) simp_all

lemma ok_or_Inr_iff [simp]: "ok_or x e = Inr y \<longleftrightarrow> x = Some y"
  by (cases x) simp_all

section \<open>Slices\<close>

text \<open>\<^verbatim>\<open>slice::chunks\<close>, for a positive chunk size (the sources use 50 and 80).\<close>

fun chunks :: "nat \<Rightarrow> 'a list \<Rightarrow> 'a list list" where
  "chunks n xs = (if xs = [] \<or> n = 0 then [] else take n xs # chunks n (drop n xs))"

declare chunks.simps [simp del]

lemma chunks_Nil [simp]: "chunks n [] = []"
  by (simp add: chunks.simps)

lemma chunks_unfold: "xs \<noteq> [] \<Longrightarrow> 0 < n \<Longrightarrow> chunks n xs = take n xs # chunks n (drop n xs)"
  by (subst chunks.simps) simp

lemma chunks_eq_Nil_iff [simp]: "0 < n \<Longrightarrow> chunks n xs = [] \<longleftrightarrow> xs = []"
  by (subst chunks.simps) simp

lemma concat_chunks [simp]: "0 < n \<Longrightarrow> concat (chunks n xs) = xs"
proof (induction n xs rule: chunks.induct)
  case (1 n xs)
  then show ?case by (cases "xs = []") (simp_all add: chunks_unfold)
qed

lemma chunks_bounds: "0 < n \<Longrightarrow> c \<in> set (chunks n xs) \<Longrightarrow> 0 < length c \<and> length c \<le> n"
proof (induction n xs rule: chunks.induct)
  case (1 n xs)
  then show ?case by (cases "xs = []") (auto simp: chunks_unfold)
qed

lemma length_chunks_single: "xs \<noteq> [] \<Longrightarrow> length xs \<le> n \<Longrightarrow> chunks n xs = [xs]"
  using chunks_unfold [of xs n] by (cases "n = 0") simp_all

text \<open>Only the last chunk may be short.\<close>

lemma chunks_full: "0 < n \<Longrightarrow> Suc i < length (chunks n xs) \<Longrightarrow> length (chunks n xs ! i) = n"
proof (induction n xs arbitrary: i rule: chunks.induct)
  case (1 n xs)
  have ne: "xs \<noteq> []" using "1.prems" by auto
  have eq: "chunks n xs = take n xs # chunks n (drop n xs)"
    using ne "1.prems" by (simp add: chunks_unfold)
  have rest: "chunks n (drop n xs) \<noteq> []" using "1.prems" eq by auto
  then have "n < length xs" using "1.prems"(1) by simp
  then show ?case
    using "1.IH" "1.prems" ne eq by (cases i) auto
qed

lemma length_chunks: "0 < n \<Longrightarrow> length (chunks n xs) = (length xs + n - 1) div n"
proof (induction n xs rule: chunks.induct)
  case (1 n xs)
  consider "xs = []" | "xs \<noteq> []" "length xs \<le> n" | "n < length xs" by fastforce
  then show ?case
  proof cases
    case 1
    with "1.prems" show ?thesis by simp
  next
    case 2
    then have "(length xs + n - 1) div n = 1"
      using "1.prems" by (cases xs) (auto intro: div_nat_eqI)
    moreover have "chunks n xs = [xs]" using 2 by (rule length_chunks_single)
    ultimately show ?thesis by simp
  next
    case 3
    then have ne: "xs \<noteq> []" by auto
    have step: "(a + n) div n = Suc (a div n)" for a
      using "1.prems" div_add_self2 [of n a] by simp
    have split: "length xs + n - 1 = (length (drop n xs) + n - 1) + n" using 3 by simp
    have "(length xs + n - 1) div n = Suc ((length (drop n xs) + n - 1) div n)"
      by (simp only: split step)
    moreover have "length (chunks n xs) = Suc (length (chunks n (drop n xs)))"
      using chunks_unfold [OF ne "1.prems"] by simp
    moreover have "length (chunks n (drop n xs)) = (length (drop n xs) + n - 1) div n"
      using "1.IH" ne "1.prems" by simp
    ultimately show ?thesis by simp
  qed
qed

section \<open>Loops with early return\<close>

text \<open>
  \<open>try_collect f xs s\<close> is \<^verbatim>\<open>for x in xs { out.push(f(x)?); }\<close>: the state is threaded through
  the bodies, the first error ends the loop and keeps the state reached so far.
\<close>

fun try_collect :: "('a \<Rightarrow> 's \<Rightarrow> 'b result \<times> 's) \<Rightarrow> 'a list \<Rightarrow> 's \<Rightarrow> 'b list result \<times> 's" where
  "try_collect f [] s = (Inr [], s)"
| "try_collect f (x # xs) s =
     (case f x s of
        (Inl e, s') \<Rightarrow> (Inl e, s')
      | (Inr y, s') \<Rightarrow>
          (case try_collect f xs s' of
             (Inl e, s'') \<Rightarrow> (Inl e, s'')
           | (Inr ys, s'') \<Rightarrow> (Inr (y # ys), s'')))"

text \<open>The same loop when the body gives several elements (\<^verbatim>\<open>out.extend(f(x)?)\<close>).\<close>

definition try_extend :: "('a \<Rightarrow> 's \<Rightarrow> 'b list result \<times> 's) \<Rightarrow> 'a list \<Rightarrow> 's \<Rightarrow> 'b list result \<times> 's" where
  "try_extend f xs s =
     (case try_collect f xs s of (Inl e, s') \<Rightarrow> (Inl e, s') | (Inr ys, s') \<Rightarrow> (Inr (concat ys), s'))"

lemma try_collect_cong [fundef_cong]:
  assumes "xs = ys" "s = t" "\<And>x s. x \<in> set ys \<Longrightarrow> f x s = g x s"
  shows "try_collect f xs s = try_collect g ys t"
  using assms
proof (induction xs arbitrary: ys s t)
  case Nil
  then show ?case by simp
next
  case (Cons x xs)
  have "try_collect f xs u = try_collect g xs u" for u
    using Cons.prems by (intro Cons.IH) auto
  then show ?case using Cons.prems by (auto split: prod.splits sum.splits)
qed

lemma try_extend_cong [fundef_cong]:
  assumes "xs = ys" "s = t" "\<And>x s. x \<in> set ys \<Longrightarrow> f x s = g x s"
  shows "try_extend f xs s = try_extend g ys t"
  using try_collect_cong [OF assms] by (simp add: try_extend_def)

text \<open>
  A loop body that keeps an invariant, never fails and relates input, output and states by
  \<open>R\<close> gives a loop that never fails, with the relation at every index: \<open>st i\<close> is the state
  before iteration \<open>i\<close>.
\<close>

lemma try_collect_total:
  assumes "\<And>x s. x \<in> set xs \<Longrightarrow> I s \<Longrightarrow> \<exists>y s'. f x s = (Inr y, s') \<and> I s'"
    and "I s"
  shows "\<exists>ys s'. try_collect f xs s = (Inr ys, s') \<and> I s' \<and> length ys = length xs"
  using assms
proof (induction xs arbitrary: s)
  case Nil
  then show ?case by simp
next
  case (Cons x xs)
  then obtain y s' where s': "f x s = (Inr y, s')" "I s'" by (metis list.set_intros(1))
  with Cons obtain ys s'' where "try_collect f xs s' = (Inr ys, s'')" "I s''" "length ys = length xs"
    by (metis list.set_intros(2))
  with s' show ?case by simp
qed

lemma try_collect_length: "try_collect f xs s = (Inr ys, s') \<Longrightarrow> length ys = length xs"
  by (induction xs arbitrary: s ys) (auto split: prod.splits sum.splits)

lemma try_collect_append:
  "try_collect f (xs @ ys) s =
     (case try_collect f xs s of
        (Inl e, s') \<Rightarrow> (Inl e, s')
      | (Inr us, s') \<Rightarrow>
          (case try_collect f ys s' of
             (Inl e, s'') \<Rightarrow> (Inl e, s'')
           | (Inr vs, s'') \<Rightarrow> (Inr (us @ vs), s'')))"
  by (induction xs arbitrary: s) (auto split: prod.splits sum.splits)

section \<open>Lists and words\<close>

lemma concat_map_take_drop:
  assumes "\<And>x. x \<in> set xs \<Longrightarrow> length (f x) = n" "i < length xs"
  shows "take n (drop (i * n) (concat (map f xs) @ r)) = f (xs ! i)"
  using assms
proof (induction xs arbitrary: i)
  case Nil
  then show ?case by simp
next
  case (Cons x xs)
  then show ?case by (cases i) auto
qed

lemma length_concat_map:
  "(\<And>x. x \<in> set xs \<Longrightarrow> length (f x) = n) \<Longrightarrow> length (concat (map f xs)) = length xs * n"
  by (induction xs) auto

lemma unat_of_nat_small: "n < 2 ^ LENGTH('a) \<Longrightarrow> unat (of_nat n :: 'a::len word) = n"
  by (simp add: unat_of_nat take_bit_nat_eq_self)

end
