(* ===== verification/Wire.thy ===== *)
theory Wire
  imports Prelude
begin

text \<open>
  Bytes on the wire. The sources serialise \<^verbatim>\<open>#[repr(C, packed)]\<close> structs by copying their
  memory; on the little-endian targets of the feeder a field of \<open>n\<close> bytes is its \<open>n\<close> bytes from
  the least significant one on. The locale \<open>codec\<close> is the contract between a struct and the
  code that walks arrays of it; every wire struct of the model interprets it.
\<close>

section \<open>Little-endian integers\<close>

definition le_bytes :: "nat \<Rightarrow> 'a::len word \<Rightarrow> u8 list" where
  "le_bytes n w = map (\<lambda>i. ucast (drop_bit (8 * i) w)) [0..<n]"

fun of_le_bytes :: "u8 list \<Rightarrow> 'a::len word" where
  "of_le_bytes [] = 0"
| "of_le_bytes (b # bs) = ucast b OR push_bit 8 (of_le_bytes bs)"

lemma length_le_bytes [simp]: "length (le_bytes n w) = n"
  by (simp add: le_bytes_def)

lemma bit_le_bytes:
  "i < n \<Longrightarrow> bit (le_bytes n w ! i) k \<longleftrightarrow> k < 8 \<and> bit w (8 * i + k)"
  by (auto simp: le_bytes_def bit_ucast_iff bit_drop_bit_eq add.commute)

lemma bit_of_le_bytes:
  "bit (of_le_bytes bs :: 'a::len word) k \<longleftrightarrow>
     k < LENGTH('a) \<and> k div 8 < length bs \<and> bit (bs ! (k div 8)) (k mod 8)"
proof (induction bs arbitrary: k)
  case Nil
  then show ?case by simp
next
  case (Cons b bs)
  show ?case
  proof (cases "k < 8")
    case True
    then show ?thesis
      by (auto simp: bit_or_iff bit_ucast_iff bit_push_bit_iff)
  next
    case False
    then have "\<not> bit b k" by (simp add: bit_word.rep_eq)
    moreover from False obtain j where k: "k = j + 8" by (metis add.commute le_Suc_ex not_le)
    moreover from k have "k div 8 = Suc (j div 8)" "k mod 8 = j mod 8" by simp_all
    ultimately show ?thesis
      using Cons.IH [of j] by (auto simp: bit_or_iff bit_ucast_iff bit_push_bit_iff)
  qed
qed

theorem of_le_bytes_le_bytes [simp]:
  assumes "LENGTH('a::len) = 8 * n"
  shows "of_le_bytes (le_bytes n w) = (w :: 'a word)"
proof (rule bit_word_eqI)
  fix k assume "k < LENGTH('a)"
  moreover from this assms have "k div 8 < n" by linarith
  ultimately show "bit (of_le_bytes (le_bytes n w) :: 'a word) k \<longleftrightarrow> bit w k"
    by (simp add: bit_of_le_bytes bit_le_bytes)
qed

theorem le_bytes_of_le_bytes:
  assumes "LENGTH('a::len) = 8 * n" "length bs = n"
  shows "le_bytes n (of_le_bytes bs :: 'a word) = bs"
proof (rule nth_equalityI)
  show "length (le_bytes n (of_le_bytes bs :: 'a word)) = length bs"
    using assms by simp
  fix i assume "i < length (le_bytes n (of_le_bytes bs :: 'a word))"
  then have i: "i < n" by simp
  show "le_bytes n (of_le_bytes bs :: 'a word) ! i = bs ! i"
  proof (rule bit_word_eqI)
    fix k assume "k < LENGTH(8)"
    then show "bit (le_bytes n (of_le_bytes bs :: 'a word) ! i) k \<longleftrightarrow> bit (bs ! i) k"
      using i assms by (auto simp: bit_le_bytes bit_of_le_bytes)
  qed
qed

lemmas le_roundtrips =
  of_le_bytes_le_bytes [where 'a = 8 and n = 1, simplified]
  of_le_bytes_le_bytes [where 'a = 16 and n = 2, simplified]
  of_le_bytes_le_bytes [where 'a = 32 and n = 4, simplified]
  of_le_bytes_le_bytes [where 'a = 64 and n = 8, simplified]

declare le_roundtrips [wire_simps]

lemmas le_roundtrips_rev =
  le_bytes_of_le_bytes [where 'a = 8 and n = 1, simplified]
  le_bytes_of_le_bytes [where 'a = 16 and n = 2, simplified]
  le_bytes_of_le_bytes [where 'a = 32 and n = 4, simplified]
  le_bytes_of_le_bytes [where 'a = 64 and n = 8, simplified]

section \<open>Field access\<close>

text \<open>\<open>field off n bs\<close> is the \<open>n\<close> bytes at offset \<open>off\<close>; it is used on long enough slices only.\<close>

definition field :: "nat \<Rightarrow> nat \<Rightarrow> u8 list \<Rightarrow> u8 list" where
  "field off n bs = take n (drop off bs)"

lemma field_0: "length xs = n \<Longrightarrow> field 0 n (xs @ ys) = xs"
  by (simp add: field_def)

lemma field_skip: "length xs \<le> off \<Longrightarrow> field off n (xs @ ys) = field (off - length xs) n ys"
  by (simp add: field_def)

lemma field_full: "length xs = n \<Longrightarrow> field 0 n xs = xs"
  by (simp add: field_def)

lemma length_field [simp]: "length (field off n bs) = min n (length bs - off)"
  by (simp add: field_def)

lemma field_append_field: "field off n bs @ field (off + n) m bs = field off (n + m) bs"
  by (simp add: field_def take_add drop_drop [symmetric] del: drop_drop) (simp add: add.commute)

declare field_0 [wire_simps] field_skip [wire_simps] field_full [wire_simps]

section \<open>A flag above a masked number\<close>

lemma flag_above_mask:
  fixes w :: "'a::len word"
  assumes "n < LENGTH('a)"
  shows "((w AND mask n) OR push_bit n 1) AND push_bit n 1 = push_bit n 1"
    and "(w AND mask n) AND push_bit n 1 = 0"
    and "((w AND mask n) OR push_bit n 1) AND mask n = w AND mask n"
  using assms by (auto intro!: bit_word_eqI simp: bit_simps)

lemma or_above_mask: "(w OR push_bit n 1) AND mask n = w AND mask n" for w :: "'a::len word"
  by (auto intro!: bit_word_eqI simp: bit_simps)

lemma flag_above_mask_rev:
  fixes w :: "'a::len word"
  assumes "LENGTH('a) = Suc n"
  shows "(if w AND push_bit n 1 \<noteq> 0 then (w AND mask n) OR push_bit n 1 else w AND mask n) = w"
proof -
  have "w AND push_bit n 1 \<noteq> 0 \<longleftrightarrow> bit w n"
    using and_exp_eq_0_iff_not_bit [of w n] by (simp add: push_bit_eq_mult)
  then show ?thesis using assms by (auto intro!: bit_word_eqI simp: bit_simps less_Suc_eq)
qed

lemma push_bit_one_nonzero: "n < LENGTH('a) \<Longrightarrow> push_bit n 1 \<noteq> (0 :: 'a::len word)"
  by (auto simp: bit_eq_iff bit_simps)

lemma and_mask_small: "unat w < 2 ^ n \<Longrightarrow> w AND mask n = (w :: 'a::len word)"
  by (rule word_unat_eq_iff [THEN iffD2])
    (simp add: take_bit_eq_mask [symmetric] unsigned_take_bit_eq take_bit_nat_eq_self)

section \<open>The codec contract\<close>

text \<open>
  A wire struct is encoded by \<open>enc\<close> into exactly \<open>sz\<close> bytes (what \<^verbatim>\<open>size_of\<close> says), and \<open>dec\<close>
  reads it back; \<open>valid\<close> is the representation invariant of the struct (the length of its byte
  arrays).
\<close>

locale codec =
  fixes enc :: "'a \<Rightarrow> u8 list"
    and dec :: "u8 list \<Rightarrow> 'a"
    and sz :: nat
    and valid :: "'a \<Rightarrow> bool"
  assumes enc_length: "valid x \<Longrightarrow> length (enc x) = sz"
    and dec_enc: "valid x \<Longrightarrow> dec (enc x @ r) = x"
begin

lemma enc_inj: "valid x \<Longrightarrow> valid y \<Longrightarrow> enc x = enc y \<Longrightarrow> x = y"
  using dec_enc [of x "[]"] dec_enc [of y "[]"] by simp

lemma length_flat: "(\<And>x. x \<in> set xs \<Longrightarrow> valid x) \<Longrightarrow> length (concat (map enc xs)) = length xs * sz"
  by (rule length_concat_map) (simp add: enc_length)

text \<open>Reading item \<open>i\<close> of a flat payload, as the receivers do with \<^verbatim>\<open>read_unaligned\<close>.\<close>

lemma dec_at:
  assumes "\<And>x. x \<in> set xs \<Longrightarrow> valid x" "i < length xs"
  shows "dec (drop (i * sz) (concat (map enc xs) @ r)) = xs ! i"
  using assms
proof (induction xs arbitrary: i)
  case Nil
  then show ?case by simp
next
  case (Cons x xs)
  then show ?case by (cases i) (auto simp: enc_length dec_enc)
qed

lemma dec_flat:
  assumes "\<And>x. x \<in> set xs \<Longrightarrow> valid x"
  shows "map (\<lambda>i. dec (drop (i * sz) (concat (map enc xs) @ r))) [0..<length xs] = xs"
  using assms by (intro nth_equalityI) (simp_all add: dec_at del: drop_append)

lemma flat_inj:
  assumes "\<And>x. x \<in> set xs \<union> set ys \<Longrightarrow> valid x" "length xs = length ys"
    and "concat (map enc xs) = concat (map enc ys)"
  shows "xs = ys"
  using dec_flat [of xs "[]"] dec_flat [of ys "[]"] assms by simp

end

text \<open>A codec onto all byte strings of its size: every received slice is the encoding of a struct.\<close>

locale codec_onto = codec +
  assumes dec_valid: "sz \<le> length bs \<Longrightarrow> valid (dec bs)"
    and enc_dec: "sz \<le> length bs \<Longrightarrow> enc (dec bs) = take sz bs"
begin

lemma dec_inj:
  assumes "length bs = sz" "length cs = sz" "dec bs = dec cs"
  shows "bs = cs"
  using assms by (metis enc_dec order_refl take_all)

end

lemma word_codec_onto:
  assumes "LENGTH('a::len) = 8 * n"
  shows "codec_onto (le_bytes n :: 'a word \<Rightarrow> _) (\<lambda>bs. of_le_bytes (take n bs)) n (\<lambda>_. True)"
proof
  fix w :: "'a word" and r :: "u8 list"
  show "length (le_bytes n w) = n" by simp
  show "of_le_bytes (take n (le_bytes n w @ r)) = w"
    using of_le_bytes_le_bytes [OF assms] by simp
next
  fix bs :: "u8 list"
  assume "n \<le> length bs"
  then show "le_bytes n (of_le_bytes (take n bs) :: 'a word) = take n bs"
    by (intro le_bytes_of_le_bytes assms) simp
qed simp_all

interpretation u16_codec: codec_onto "le_bytes 2 :: u16 \<Rightarrow> _" "\<lambda>bs. of_le_bytes (take 2 bs)" 2 "\<lambda>_. True"
  by (rule word_codec_onto) simp

interpretation u32_codec: codec_onto "le_bytes 4 :: u32 \<Rightarrow> _" "\<lambda>bs. of_le_bytes (take 4 bs)" 4 "\<lambda>_. True"
  by (rule word_codec_onto) simp

interpretation u64_codec: codec_onto "le_bytes 8 :: u64 \<Rightarrow> _" "\<lambda>bs. of_le_bytes (take 8 bs)" 8 "\<lambda>_. True"
  by (rule word_codec_onto) simp

end
