(* ===== verification/Rust_F64.thy ===== *)
theory Rust_F64
  imports Prelude Complex_Main "HOL-Library.Log_Nat"
begin

text \<open>
  Rust's \<^verbatim>\<open>f64\<close>: IEEE 754 binary64 values with the operations the feeder uses, multiplication,
  addition and division rounded to nearest with ties to even, the comparisons of \<^verbatim>\<open>PartialOrd\<close>, the
  conversions from integers, the saturating conversion \<^verbatim>\<open>as i64\<close> and the correctly rounded decimal
  parser \<^verbatim>\<open>str::parse::<f64>\<close>. A finite value \<open>Finite s m e\<close> is \<open>(-1)^s * m * 2^e\<close>. Every
  operation computes, so that concrete prices evaluate.
\<close>

section \<open>Values\<close>

datatype f64 = NaN | Infinity bool | Finite bool nat int

text \<open>The representation invariant of binary64, with the canonical choice of the exponent.\<close>

fun f64_wf :: "f64 \<Rightarrow> bool" where
  "f64_wf (Finite s m e) \<longleftrightarrow> m < 2 ^ 53 \<and> -1074 \<le> e \<and> e \<le> 971 \<and> (2 ^ 52 \<le> m \<or> e = -1074)"
| "f64_wf _ \<longleftrightarrow> True"

fun is_nan :: "f64 \<Rightarrow> bool" where
  "is_nan NaN = True"
| "is_nan _ = False"

definition sgn_of :: "bool \<Rightarrow> real" where
  "sgn_of s = (if s then -1 else 1)"

fun fval :: "f64 \<Rightarrow> real" where
  "fval (Finite s m e) = sgn_of s * real m * 2 powi e"
| "fval _ = 0"

section \<open>Rounding a non-negative rational to nearest, ties to even\<close>

definition round_half_even :: "nat \<Rightarrow> nat \<Rightarrow> nat" where
  "round_half_even n d =
     (let q = n div d; r = n mod d in
      if 2 * r < d \<or> (2 * r = d \<and> even q) then q else q + 1)"

text \<open>\<open>2^k \<le> n/d\<close>\<close>

definition ge_pow2 :: "nat \<Rightarrow> nat \<Rightarrow> int \<Rightarrow> bool" where
  "ge_pow2 n d k = (if 0 \<le> k then d * 2 ^ nat k \<le> n else d \<le> n * 2 ^ nat (- k))"

text \<open>The integer part of \<open>log 2 (n/d)\<close>, from the bit lengths of \<open>n\<close> and \<open>d\<close>.\<close>

definition floor_log2 :: "nat \<Rightarrow> nat \<Rightarrow> int" where
  "floor_log2 n d =
     (let l = int (floorlog 2 n) - int (floorlog 2 d) in if ge_pow2 n d l then l else l - 1)"

definition round_exp :: "nat \<Rightarrow> nat \<Rightarrow> int" where
  "round_exp n d = max (floor_log2 n d - 52) (-1074)"

text \<open>The significand of \<open>n/d\<close> at the exponent \<open>e\<close>.\<close>

definition round_at :: "nat \<Rightarrow> nat \<Rightarrow> int \<Rightarrow> nat" where
  "round_at n d e =
     (if 0 \<le> e then round_half_even n (d * 2 ^ nat e) else round_half_even (n * 2 ^ nat (- e)) d)"

definition pack :: "bool \<Rightarrow> nat \<Rightarrow> int \<Rightarrow> f64" where
  "pack s q e =
     (let (q', e') = (if q = 2 ^ 53 then (2 ^ 52, e + 1) else (q, e)) in
      if 971 < e' then Infinity s else Finite s q' e')"

definition round_f64 :: "bool \<Rightarrow> nat \<Rightarrow> nat \<Rightarrow> f64" where
  "round_f64 s n d =
     (if n = 0 then Finite s 0 (-1074)
      else let e = round_exp n d in pack s (round_at n d e) e)"

section \<open>Arithmetic\<close>

fun f64_mul :: "f64 \<Rightarrow> f64 \<Rightarrow> f64" where
  "f64_mul NaN _ = NaN"
| "f64_mul _ NaN = NaN"
| "f64_mul (Infinity s) (Infinity t) = Infinity (s \<noteq> t)"
| "f64_mul (Infinity s) (Finite t m _) = (if m = 0 then NaN else Infinity (s \<noteq> t))"
| "f64_mul (Finite s m _) (Infinity t) = (if m = 0 then NaN else Infinity (s \<noteq> t))"
| "f64_mul (Finite s m e) (Finite t n f) =
     (if 0 \<le> e + f then round_f64 (s \<noteq> t) (m * n * 2 ^ nat (e + f)) 1
      else round_f64 (s \<noteq> t) (m * n) (2 ^ nat (- (e + f))))"

fun f64_div :: "f64 \<Rightarrow> f64 \<Rightarrow> f64" where
  "f64_div NaN _ = NaN"
| "f64_div _ NaN = NaN"
| "f64_div (Infinity s) (Infinity t) = NaN"
| "f64_div (Infinity s) (Finite t _ _) = Infinity (s \<noteq> t)"
| "f64_div (Finite s _ _) (Infinity t) = Finite (s \<noteq> t) 0 (-1074)"
| "f64_div (Finite s m e) (Finite t n f) =
     (if n = 0 then (if m = 0 then NaN else Infinity (s \<noteq> t))
      else if 0 \<le> e - f then round_f64 (s \<noteq> t) (m * 2 ^ nat (e - f)) n
      else round_f64 (s \<noteq> t) m (n * 2 ^ nat (f - e)))"

text \<open>The value of a finite number in units of \<open>2^e0\<close>, for \<open>e0\<close> at most its exponent.\<close>

definition units :: "int \<Rightarrow> bool \<Rightarrow> nat \<Rightarrow> int \<Rightarrow> int" where
  "units e0 s m e = (if s then - 1 else 1) * int (m * 2 ^ nat (e - e0))"

fun f64_add :: "f64 \<Rightarrow> f64 \<Rightarrow> f64" where
  "f64_add NaN _ = NaN"
| "f64_add _ NaN = NaN"
| "f64_add (Infinity s) (Infinity t) = (if s = t then Infinity s else NaN)"
| "f64_add (Infinity s) (Finite _ _ _) = Infinity s"
| "f64_add (Finite _ _ _) (Infinity t) = Infinity t"
| "f64_add (Finite s m e) (Finite t n f) =
     (let e0 = min e f; v = units e0 s m e + units e0 t n f in
      if v = 0 then Finite (s \<and> t) 0 (-1074)
      else if 0 \<le> e0 then round_f64 (v < 0) (nat \<bar>v\<bar> * 2 ^ nat e0) 1
      else round_f64 (v < 0) (nat \<bar>v\<bar>) (2 ^ nat (- e0)))"

section \<open>Comparison\<close>

datatype ordering = Less | Equal | Greater

definition cmp_int :: "int \<Rightarrow> int \<Rightarrow> ordering" where
  "cmp_int a b = (if a < b then Less else if a = b then Equal else Greater)"

fun partial_cmp :: "f64 \<Rightarrow> f64 \<Rightarrow> ordering option" where
  "partial_cmp NaN _ = None"
| "partial_cmp _ NaN = None"
| "partial_cmp (Infinity s) (Infinity t) =
     Some (if s = t then Equal else if s then Less else Greater)"
| "partial_cmp (Infinity s) (Finite _ _ _) = Some (if s then Less else Greater)"
| "partial_cmp (Finite _ _ _) (Infinity t) = Some (if t then Greater else Less)"
| "partial_cmp (Finite s m e) (Finite t n f) =
     (let e0 = min e f in Some (cmp_int (units e0 s m e) (units e0 t n f)))"

text \<open>\<^verbatim>\<open>PartialOrd\<close>'s operators, with the false comparisons of NaN.\<close>

instantiation f64 :: ord
begin

definition less_eq_f64 :: "f64 \<Rightarrow> f64 \<Rightarrow> bool" where
  "less_eq_f64 a b \<longleftrightarrow> partial_cmp a b = Some Less \<or> partial_cmp a b = Some Equal"

definition less_f64 :: "f64 \<Rightarrow> f64 \<Rightarrow> bool" where
  "less_f64 a b \<longleftrightarrow> partial_cmp a b = Some Less"

instance ..

end

abbreviation f64_zero :: f64 where
  "f64_zero \<equiv> Finite False 0 (-1074)"

section \<open>Conversions\<close>

definition f64_of_int :: "int \<Rightarrow> f64" where
  "f64_of_int i = round_f64 (i < 0) (nat \<bar>i\<bar>) 1"

definition f64_of_i64 :: "i64 \<Rightarrow> f64" where
  "f64_of_i64 w = f64_of_int (sint w)"

definition f64_of_u64 :: "u64 \<Rightarrow> f64" where
  "f64_of_u64 w = f64_of_int (uint w)"

text \<open>\<^verbatim>\<open>as i64\<close>: towards zero, saturating, NaN to 0.\<close>

fun f64_trunc :: "f64 \<Rightarrow> int" where
  "f64_trunc NaN = 0"
| "f64_trunc (Infinity s) = (if s then - (2 ^ 63) else 2 ^ 63 - 1)"
| "f64_trunc (Finite s m e) =
     (let t = (if 0 \<le> e then int m * 2 ^ nat e else int m div 2 ^ nat (- e)) in
      if s then max (- t) (- (2 ^ 63)) else min t (2 ^ 63 - 1))"

definition f64_to_i64 :: "f64 \<Rightarrow> i64" where
  "f64_to_i64 x = word_of_int (f64_trunc x)"

section \<open>Decimal parsing\<close>

text \<open>
  \<^verbatim>\<open>f64::from_str\<close>: an optional sign, then \<open>inf\<close>, \<open>infinity\<close> or \<open>nan\<close> in any case, or digits with
  an optional point (at least one digit around it) and an optional exponent; the value is the
  decimal, correctly rounded.
\<close>

definition is_digit :: "char \<Rightarrow> bool" where
  "is_digit c \<longleftrightarrow> 48 \<le> (of_char c :: nat) \<and> (of_char c :: nat) \<le> 57"

definition digit_val :: "char \<Rightarrow> nat" where
  "digit_val c = of_char c - 48"

fun digits_val :: "nat \<Rightarrow> string \<Rightarrow> nat" where
  "digits_val acc [] = acc"
| "digits_val acc (c # cs) = digits_val (10 * acc + digit_val c) cs"

definition ascii_lower :: "char \<Rightarrow> char" where
  "ascii_lower c = (let n = of_char c :: nat in if 65 \<le> n \<and> n \<le> 90 then char_of (n + 32) else c)"

definition decimal_f64 :: "bool \<Rightarrow> nat \<Rightarrow> int \<Rightarrow> f64" where
  "decimal_f64 s n k =
     (if 0 \<le> k then round_f64 s (n * 10 ^ nat k) 1 else round_f64 s n (10 ^ nat (- k)))"

fun take_sign :: "string \<Rightarrow> bool \<times> string" where
  "take_sign [] = (False, [])"
| "take_sign (c # cs) = (if c = CHR ''-'' then (True, cs) else if c = CHR ''+'' then (False, cs) else (False, c # cs))"

definition parse_exponent :: "string \<Rightarrow> int option" where
  "parse_exponent cs =
     (case cs of
        [] \<Rightarrow> Some 0
      | c # rest \<Rightarrow>
          if ascii_lower c = CHR ''e'' then
            (case take_sign rest of (neg, ds) \<Rightarrow>
               if ds \<noteq> [] \<and> list_all is_digit ds
               then Some (if neg then - int (digits_val 0 ds) else int (digits_val 0 ds))
               else None)
          else None)"

definition parse_number :: "bool \<Rightarrow> string \<Rightarrow> f64 option" where
  "parse_number s cs =
     (let ip = takeWhile is_digit cs; r1 = dropWhile is_digit cs;
          (fp, r2) = (case r1 of
                        c # r \<Rightarrow> if c = CHR ''.'' then (takeWhile is_digit r, dropWhile is_digit r) else ([], r1)
                      | [] \<Rightarrow> ([], [])) in
      if ip @ fp = [] then None
      else case parse_exponent r2 of
             None \<Rightarrow> None
           | Some k \<Rightarrow> Some (decimal_f64 s (digits_val 0 (ip @ fp)) (k - int (length fp))))"

definition parse_f64 :: "string \<Rightarrow> f64 option" where
  "parse_f64 cs =
     (case take_sign cs of (s, body) \<Rightarrow>
        let low = map ascii_lower body in
        if low = ''inf'' \<or> low = ''infinity'' then Some (Infinity s)
        else if low = ''nan'' then Some NaN
        else parse_number s body)"

end
