(* ===== verification/F64_Laws.thy ===== *)
theory F64_Laws
  imports Rust_F64
begin

text \<open>
  The laws of the binary64 model that the feeder's serialisation rests on: rounding is monotone, is
  exact on numbers with 53 significant bits and has a relative error of half an ulp; the saturating
  conversion of a rounded product is monotone; a decimal price with at most eight fractional digits
  is scaled by \<open>10^8\<close> to its exact value or to one less; comparisons follow the represented numbers.
\<close>

section \<open>Rounding as a function of the rational\<close>

lemma powi_nonneg: "0 \<le> e \<Longrightarrow> (2::real) powi e = 2 ^ nat e"
  by (simp add: power_int_def)

lemma powi_neg: "e < 0 \<Longrightarrow> (2::real) powi e = 1 / 2 ^ nat (- e)"
  by (simp add: power_int_def power_inverse inverse_eq_divide power_divide)

lemma powi_diff2: "(2::real) powi a / 2 powi b = 2 powi (a - b)"
  by (simp add: power_int_diff)

lemma powi_add2: "(2::real) powi a * 2 powi b = 2 powi (a + b)"
  by (simp add: power_int_add)

lemma ge_pow2_iff:
  assumes "0 < d"
  shows "ge_pow2 n d k \<longleftrightarrow> 2 powi k \<le> real n / real d"
proof (cases "0 \<le> k")
  case True
  have "(d * 2 ^ nat k \<le> n) \<longleftrightarrow> real (d * 2 ^ nat k) \<le> real n"
    by (simp only: of_nat_le_iff)
  with True assms show ?thesis
    by (simp add: ge_pow2_def powi_nonneg field_simps)
next
  case False
  have "(d \<le> n * 2 ^ nat (- k)) \<longleftrightarrow> real d \<le> real (n * 2 ^ nat (- k))"
    by (simp only: of_nat_le_iff)
  with False assms show ?thesis
    by (simp add: ge_pow2_def powi_neg field_simps)
qed

lemma floorlog_real_bounds:
  assumes "0 < n"
  shows "2 powi (int (floorlog 2 n) - 1) \<le> real n" "real n < 2 powi int (floorlog 2 n)"
proof -
  obtain k where k: "floorlog 2 n = Suc k"
    using assms by (metis floorlog_eq_zero_iff not0_implies_Suc not_less one_less_numeral_iff semiring_norm(76))
  have b: "2 ^ k \<le> n" "n < 2 ^ Suc k"
    using floorlog_bounds [of n 2] assms k by auto
  from b(1) have "real (2 ^ k) \<le> real n" by (rule of_nat_mono)
  then show "2 powi (int (floorlog 2 n) - 1) \<le> real n" by (simp add: k)
  from b(2) have "real n < real (2 ^ Suc k)" by (simp only: of_nat_less_iff)
  then show "real n < 2 powi int (floorlog 2 n)"
    unfolding k power_int_of_nat by simp
qed

lemma floor_log2_bounds:
  assumes "0 < n" "0 < d"
  shows "2 powi floor_log2 n d \<le> real n / real d" "real n / real d < 2 powi (floor_log2 n d + 1)"
proof -
  let ?bn = "int (floorlog 2 n)" and ?bd = "int (floorlog 2 d)"
  define l where "l = ?bn - ?bd"
  note n = floorlog_real_bounds [OF assms(1)] and d = floorlog_real_bounds [OF assms(2)]
  have upper: "real n / real d < 2 powi (l + 1)"
  proof -
    have "real n / real d < 2 powi ?bn / 2 powi (?bd - 1)"
      using n d assms by (intro frac_less) auto
    also have "\<dots> = 2 powi (l + 1)"
      by (simp only: powi_diff2) (simp add: l_def algebra_simps)
    finally show ?thesis .
  qed
  have lower: "2 powi (l - 1) \<le> real n / real d"
  proof -
    have "2 powi (l - 1) = 2 powi (?bn - 1) / (2 powi ?bd :: real)"
      by (simp only: powi_diff2) (simp add: l_def algebra_simps)
    also have "\<dots> \<le> real n / real d"
      using n d assms by (intro frac_le) auto
    finally show ?thesis .
  qed
  show "2 powi floor_log2 n d \<le> real n / real d" "real n / real d < 2 powi (floor_log2 n d + 1)"
    using upper lower assms by (auto simp: floor_log2_def ge_pow2_iff l_def [symmetric] Let_def not_le)
qed

definition nearest_even :: "real \<Rightarrow> nat \<Rightarrow> bool" where
  "nearest_even r k \<longleftrightarrow> \<bar>real k - r\<bar> \<le> 1 / 2 \<and> (\<bar>real k - r\<bar> = 1 / 2 \<longrightarrow> even k)"

lemma round_half_even_nearest:
  assumes "0 < d"
  shows "nearest_even (real n / real d) (round_half_even n d)"
proof -
  define q r where "q = n div d" and "r = n mod d"
  have n: "real n = real q * real d + real r"
    by (simp add: q_def r_def flip: of_nat_mult of_nat_add)
  have r: "r < d" using assms by (simp add: r_def)
  have eq: "real n / real d = real q + real r / real d"
    using n assms by (simp add: field_simps)
  consider "2 * r < d" | "2 * r = d" | "d < 2 * r" by linarith
  then show ?thesis
  proof cases
    case 1
    then have "real r / real d < 1 / 2" using assms by (simp add: field_simps)
    moreover have "0 \<le> real r / real d" by simp
    ultimately show ?thesis using 1
      unfolding nearest_even_def round_half_even_def eq q_def [symmetric] r_def [symmetric] Let_def by auto
  next
    case 2
    then have "real d = 2 * real r" by simp
    then have "real r / real d = 1 / 2" using assms by (simp add: field_simps)
    then show ?thesis using 2
      unfolding nearest_even_def round_half_even_def eq q_def [symmetric] r_def [symmetric] Let_def by auto
  next
    case 3
    then have "1 / 2 < real r / real d" using assms by (simp add: field_simps)
    moreover have "real r / real d < 1" using r by simp
    ultimately show ?thesis using 3
      unfolding nearest_even_def round_half_even_def eq q_def [symmetric] r_def [symmetric] Let_def by auto
  qed
qed

lemma nearest_even_mono:
  assumes "nearest_even r k" "nearest_even r' k'" "r \<le> r'"
  shows "k \<le> k'"
proof (rule ccontr)
  assume "\<not> k \<le> k'"
  then have kk: "real k' + 1 \<le> real k" by linarith
  have near: "\<bar>real k - r\<bar> \<le> 1 / 2" "\<bar>real k' - r'\<bar> \<le> 1 / 2"
    using assms by (simp_all add: nearest_even_def)
  then have ties: "real k - r = 1 / 2" "real k' - r' = - (1 / 2)"
    using assms(3) kk by linarith+
  then have "even k" "even k'" using assms by (simp_all add: nearest_even_def)
  moreover have "real k = real k' + 1" using ties kk assms(3) by linarith
  then have "k = Suc k'" by linarith
  ultimately show False by simp
qed

lemma round_at_nearest:
  assumes "0 < d"
  shows "nearest_even (real n / real d / 2 powi e) (round_at n d e)"
proof (cases "0 \<le> e")
  case True
  have "real n / real d / 2 powi e = real n / real (d * 2 ^ nat e)"
    unfolding powi_nonneg [OF True] by simp
  moreover have "nearest_even (real n / real (d * 2 ^ nat e)) (round_at n d e)"
    using True assms round_half_even_nearest [of "d * 2 ^ nat e" n] by (simp add: round_at_def)
  ultimately show ?thesis by (simp only:)
next
  case False
  have "real n / real d / 2 powi e = real (n * 2 ^ nat (- e)) / real d"
    using False by (simp add: powi_neg field_simps)
  then show ?thesis
    using False assms round_half_even_nearest [of d "n * 2 ^ nat (- e)"] by (simp add: round_at_def)
qed

text \<open>The real number that rounding gives, before the overflow test of \<open>pack\<close>.\<close>

definition rounded :: "nat \<Rightarrow> nat \<Rightarrow> real" where
  "rounded n d = (if n = 0 then 0 else real (round_at n d (round_exp n d)) * 2 powi round_exp n d)"

lemma nearest_even_exact: "nearest_even (real k) j \<longleftrightarrow> j = k"
proof
  assume "nearest_even (real k) j"
  then have "\<bar>real j - real k\<bar> \<le> 1 / 2" by (simp add: nearest_even_def)
  then show "j = k" by linarith
qed (simp add: nearest_even_def)

lemma rounded_nonneg: "0 \<le> rounded n d"
  by (simp add: rounded_def)

lemma round_exp_ge: "- 1074 \<le> round_exp n d"
  by (simp add: round_exp_def)

lemma powi_mono2: "a \<le> b \<Longrightarrow> (2::real) powi a \<le> 2 powi b"
  by (simp add: power_int_increasing)

lemma le_div_powi: "a * 2 powi e \<le> x \<Longrightarrow> a \<le> x / 2 powi e" for x :: real
  by (simp add: pos_le_divide_eq)

lemma div_powi_le: "x \<le> a * 2 powi e \<Longrightarrow> x / 2 powi e \<le> a" for x :: real
  by (simp add: pos_divide_le_eq)

lemma abs_scaled: "\<bar>a - x / 2 powi e\<bar> \<le> 1 / 2 \<Longrightarrow> \<bar>a * 2 powi e - x\<bar> \<le> 2 powi e / 2" for x :: real
proof -
  assume "\<bar>a - x / 2 powi e\<bar> \<le> 1 / 2"
  then have "\<bar>a - x / 2 powi e\<bar> * 2 powi e \<le> 1 / 2 * 2 powi e"
    by (intro mult_right_mono) simp_all
  moreover have "\<bar>a - x / 2 powi e\<bar> * 2 powi e = \<bar>(a - x / 2 powi e) * 2 powi e\<bar>"
    by (simp add: abs_mult)
  moreover have "(a - x / 2 powi e) * 2 powi e = a * 2 powi e - x"
    by (simp add: left_diff_distrib)
  ultimately show ?thesis by simp
qed

lemma powi_shift: "2 ^ k * (2::real) powi e = 2 powi (int k + e)"
  by (simp add: power_int_add)

lemma real_le_pow: "q \<le> 2 ^ k \<Longrightarrow> real q \<le> 2 ^ k"
  by (metis of_nat_le_iff of_nat_numeral of_nat_power)

lemma pow_le_real: "2 ^ k \<le> q \<Longrightarrow> 2 ^ k \<le> real q"
  by (metis of_nat_le_iff of_nat_numeral of_nat_power)

lemma real_less_pow: "q < 2 ^ k \<Longrightarrow> real q < 2 ^ k"
  by (metis of_nat_less_iff of_nat_numeral of_nat_power)

lemma round_at_le:
  assumes "0 < n" "0 < d"
  shows "round_at n d (round_exp n d) \<le> 2 ^ 53"
proof (rule nearest_even_mono)
  let ?e = "round_exp n d"
  show "nearest_even (real n / real d / 2 powi ?e) (round_at n d ?e)"
    using assms by (intro round_at_nearest)
  show "nearest_even (real (2 ^ 53)) (2 ^ 53)" by (simp only: nearest_even_exact)
  have "real n / real d \<le> 2 powi (floor_log2 n d + 1)"
    using floor_log2_bounds(2) [OF assms] by simp
  also have "\<dots> \<le> 2 powi (53 + ?e)"
    by (intro powi_mono2) (simp add: round_exp_def)
  also have "\<dots> = real (2 ^ 53) * 2 powi ?e" using powi_shift [of 53 ?e] by simp
  finally show "real n / real d / 2 powi ?e \<le> real (2 ^ 53)" by (rule div_powi_le)
qed

lemma round_at_ge:
  assumes "0 < n" "0 < d" "- 1074 < round_exp n d"
  shows "2 ^ 52 \<le> round_at n d (round_exp n d)"
proof (rule nearest_even_mono)
  let ?e = "round_exp n d"
  show "nearest_even (real n / real d / 2 powi ?e) (round_at n d ?e)"
    using assms by (intro round_at_nearest)
  show "nearest_even (real (2 ^ 52)) (2 ^ 52)" by (simp only: nearest_even_exact)
  have e: "52 + ?e = floor_log2 n d" using assms(3) by (simp add: round_exp_def split: if_splits)
  have "real (2 ^ 52) * 2 powi ?e = (2::real) powi (52 + ?e)" using powi_shift [of 52 ?e] by simp
  also have "\<dots> \<le> real n / real d" unfolding e using floor_log2_bounds(1) [OF assms(1,2)] .
  finally show "real (2 ^ 52) \<le> real n / real d / 2 powi ?e"
    by (rule le_div_powi)
qed

lemma floor_log2_mono:
  assumes "0 < n" "0 < d" "0 < n'" "0 < d'" "real n / real d \<le> real n' / real d'"
  shows "floor_log2 n d \<le> floor_log2 n' d'"
proof (rule ccontr)
  assume "\<not> ?thesis"
  then have "(2::real) powi (floor_log2 n' d' + 1) \<le> 2 powi floor_log2 n d"
    by (intro powi_mono2) simp
  with floor_log2_bounds [OF assms(1,2)] floor_log2_bounds [OF assms(3,4)] assms(5)
  show False by linarith
qed

theorem rounded_mono:
  assumes "0 < d" "0 < d'" "real n / real d \<le> real n' / real d'"
  shows "rounded n d \<le> rounded n' d'"
proof (cases "n = 0 \<or> n' = 0")
  case True
  have "n = 0" if "n' = 0"
    using assms that by (simp add: divide_le_0_iff)
  with True show ?thesis by (auto simp: rounded_def rounded_nonneg)
next
  case False
  then have pos: "0 < n" "0 < n'" by simp_all
  let ?e = "round_exp n d" and ?e' = "round_exp n' d'"
  let ?q = "round_at n d ?e" and ?q' = "round_at n' d' ?e'"
  have le: "?e \<le> ?e'"
    using floor_log2_mono [OF pos(1) assms(1) pos(2) assms(2,3)] by (simp add: round_exp_def)
  show ?thesis
  proof (cases "?e = ?e'")
    case True
    have "?q \<le> ?q'"
    proof (rule nearest_even_mono [OF round_at_nearest [OF assms(1)] round_at_nearest [OF assms(2)]])
      show "real n / real d / 2 powi ?e \<le> real n' / real d' / 2 powi ?e'"
        unfolding True using assms(3) by (intro divide_right_mono) simp_all
    qed
    then have "real ?q * 2 powi ?e \<le> real ?q' * 2 powi ?e'"
      unfolding True by (intro mult_right_mono) simp_all
    then show ?thesis using pos by (simp add: rounded_def)
  next
    case False
    then have lt: "?e + 1 \<le> ?e'" using le by simp
    have "- 1074 < ?e'" using lt round_exp_ge [of n d] by simp
    then have q': "2 ^ 52 \<le> ?q'" using pos assms(2) by (intro round_at_ge)
    have "real ?q * 2 powi ?e \<le> 2 ^ 53 * 2 powi ?e"
      using real_le_pow [OF round_at_le [OF pos(1) assms(1)]] by (intro mult_right_mono) simp_all
    also have "\<dots> = 2 powi (52 + (?e + 1))" using powi_shift [of 53 ?e] by (simp add: add.commute)
    also have "\<dots> \<le> 2 powi (52 + ?e')" using lt by (intro powi_mono2) simp
    also have "\<dots> = 2 ^ 52 * 2 powi ?e'" using powi_shift [of 52 ?e'] by simp
    also have "\<dots> \<le> real ?q' * 2 powi ?e'"
      using pow_le_real [OF q'] by (intro mult_right_mono) simp_all
    finally show ?thesis using pos by (simp add: rounded_def)
  qed
qed

lemma rounded_cong:
  assumes "0 < d" "0 < d'" "real n / real d = real n' / real d'"
  shows "rounded n d = rounded n' d'"
  using rounded_mono [of d d' n n'] rounded_mono [of d' d n' n] assms by force

lemma rounded_error_exp:
  assumes "0 < n" "0 < d"
  shows "\<bar>rounded n d - real n / real d\<bar> \<le> 2 powi round_exp n d / 2"
  using abs_scaled [of "real (round_at n d (round_exp n d))" "real n / real d" "round_exp n d"]
    round_at_nearest [OF assms(2), of n "round_exp n d"] assms(1)
  unfolding nearest_even_def rounded_def by simp

text \<open>The relative error of a normal result is at most half an ulp.\<close>

theorem rounded_error:
  assumes "0 < d" "2 powi (- 1022) \<le> real n / real d"
  shows "\<bar>rounded n d - real n / real d\<bar> \<le> real n / real d / 2 ^ 53"
proof -
  have n: "0 < n"
  proof (rule ccontr)
    assume "\<not> 0 < n"
    with assms(2) have "2 powi (- 1022) \<le> (0::real)" by simp
    moreover have "(0::real) < 2 powi (- 1022)" by simp
    ultimately show False by linarith
  qed
  have fl: "- 1022 \<le> floor_log2 n d"
  proof (rule ccontr)
    assume "\<not> ?thesis"
    then have "(2::real) powi (floor_log2 n d + 1) \<le> 2 powi (- 1022)" by (intro powi_mono2) simp
    with floor_log2_bounds(2) [OF n assms(1)] assms(2) show False by linarith
  qed
  then have e: "round_exp n d = floor_log2 n d - 52" by (simp add: round_exp_def)
  have "2 powi round_exp n d / 2 = (2::real) powi floor_log2 n d / 2 ^ 53"
    unfolding e by (simp add: power_int_diff)
  also have "\<dots> \<le> real n / real d / 2 ^ 53"
    using floor_log2_bounds(1) [OF n assms(1)] by (intro divide_right_mono) simp_all
  finally show ?thesis using rounded_error_exp [OF n assms(1)] by linarith
qed

text \<open>A number with 53 significant bits in range is not changed.\<close>

theorem rounded_exact:
  assumes "0 < d" "real n / real d = real k * 2 powi e0" "k < 2 ^ 53" "- 1074 \<le> e0"
  shows "rounded n d = real n / real d"
proof (cases "n = 0")
  case True
  then show ?thesis by (simp add: rounded_def)
next
  case False
  then have n: "0 < n" by simp
  have "real k * 2 powi e0 < 2 ^ 53 * 2 powi e0"
    using real_less_pow [OF assms(3)] by (intro mult_strict_right_mono) simp_all
  then have "real k * 2 powi e0 < 2 powi (int 53 + e0)" by (simp only: powi_shift)
  then have "real n / real d < 2 powi (53 + e0)" unfolding assms(2) by simp
  moreover have "2 powi floor_log2 n d \<le> real n / real d" using floor_log2_bounds(1) [OF n assms(1)] .
  ultimately have "(2::real) powi floor_log2 n d < 2 powi (53 + e0)" by linarith
  then have fl: "floor_log2 n d < 53 + e0"
    using powi_mono2 [of "53 + e0" "floor_log2 n d"] by linarith
  let ?e = "round_exp n d"
  have le: "?e \<le> e0" using fl assms(4) by (simp add: round_exp_def)
  have "real n / real d / 2 powi ?e = real k * 2 powi (e0 - ?e)"
    unfolding assms(2) by (simp add: power_int_diff)
  also have "\<dots> = real (k * 2 ^ nat (e0 - ?e))"
    using le by (simp add: powi_nonneg)
  finally have eq: "real n / real d / 2 powi ?e = real (k * 2 ^ nat (e0 - ?e))" .
  then have "round_at n d ?e = k * 2 ^ nat (e0 - ?e)"
    using round_at_nearest [OF assms(1), of n ?e] by (simp only: nearest_even_exact)
  then have "rounded n d = real n / real d / 2 powi ?e * 2 powi ?e"
    unfolding eq using False by (simp add: rounded_def)
  then show ?thesis by simp
qed

text \<open>The least power of two beyond the finite values.\<close>

definition f64_limit :: real where
  "f64_limit = 2 powi 1024"

lemma limit_le: "1024 \<le> k \<Longrightarrow> f64_limit \<le> 2 powi k"
  unfolding f64_limit_def by (rule powi_mono2)

lemma limit_less: "k < 1024 \<Longrightarrow> 2 powi k < f64_limit"
  unfolding f64_limit_def by (rule power_int_strict_increasing) simp_all

lemma i64_below_limit: "real_of_int (2 ^ 63) \<le> f64_limit"
proof -
  have "real_of_int (2 ^ 63) = 2 powi (int 63)" by (simp only: power_int_of_nat) simp
  also have "\<dots> < f64_limit" by (rule limit_less) simp
  finally show ?thesis by simp
qed

text \<open>What \<open>round_f64\<close> packs: a well-formed finite value below \<open>2^1024\<close>, infinity from there on.\<close>

lemma pack_cases:
  assumes "q \<le> 2 ^ 53" "- 1074 \<le> e" "- 1074 < e \<Longrightarrow> 2 ^ 52 \<le> q"
  shows "real q * 2 powi e < f64_limit \<and>
      (\<exists>m f. pack s q e = Finite s m f \<and> real m * 2 powi f = real q * 2 powi e \<and> f64_wf (Finite s m f))
    \<or> f64_limit \<le> real q * 2 powi e \<and> pack s q e = Infinity s"
proof (cases "q = 2 ^ 53")
  case True
  have eq: "real q * 2 powi e = 2 powi (53 + e)"
    using powi_shift [of 53 e] True by simp
  have eq': "real (2 ^ 52) * 2 powi (e + 1) = (2::real) powi (53 + e)"
    using powi_shift [of 52 "e + 1"] by (simp add: algebra_simps)
  show ?thesis
  proof (cases "971 < e + 1")
    case True
    then have "f64_limit \<le> 2 powi (53 + e)" by (intro limit_le) simp
    then have "f64_limit \<le> real q * 2 powi e" by (simp only: eq)
    moreover have "pack s q e = Infinity s" using True \<open>q = 2 ^ 53\<close> by (simp add: pack_def)
    ultimately show ?thesis by blast
  next
    case False
    then have "2 powi (53 + e) < f64_limit" by (intro limit_less) simp
    moreover have "pack s q e = Finite s (2 ^ 52) (e + 1)" "f64_wf (Finite s (2 ^ 52) (e + 1))"
      using False \<open>q = 2 ^ 53\<close> assms(2) by (simp_all add: pack_def)
    ultimately show ?thesis using eq eq' by metis
  qed
next
  case False
  then have q: "q < 2 ^ 53" using assms(1) by simp
  show ?thesis
  proof (cases "971 < e")
    case True
    then have "2 ^ 52 \<le> q" using assms(3) by simp
    then have "2 ^ 52 * 2 powi e \<le> real q * 2 powi e"
      using pow_le_real by (intro mult_right_mono) simp_all
    moreover have "f64_limit \<le> 2 powi (int 52 + e)" using True by (intro limit_le) simp
    ultimately have "f64_limit \<le> real q * 2 powi e" unfolding powi_shift by linarith
    with True False show ?thesis by (simp add: pack_def)
  next
    case e: False
    have "real q * 2 powi e < 2 ^ 53 * 2 powi e"
      using real_less_pow [OF q] by (intro mult_strict_right_mono) simp_all
    moreover have "2 powi (int 53 + e) \<le> f64_limit" 
    proof (cases "e = 971")
      case True
      then show ?thesis by (simp add: f64_limit_def)
    next
      case False
      with e show ?thesis by (intro less_imp_le limit_less) simp
    qed
    ultimately have "real q * 2 powi e < f64_limit" unfolding powi_shift by linarith
    with e False q assms show ?thesis
      by (intro disjI1 conjI exI [of _ q] exI [of _ e]) (auto simp: pack_def)
  qed
qed

lemma round_f64_cases:
  assumes "0 < d"
  shows "rounded n d < f64_limit \<and>
      (\<exists>m f. round_f64 s n d = Finite s m f \<and> real m * 2 powi f = rounded n d \<and> f64_wf (Finite s m f))
    \<or> f64_limit \<le> rounded n d \<and> round_f64 s n d = Infinity s"
proof (cases "n = 0")
  case True
  moreover have "0 < f64_limit" by (simp add: f64_limit_def)
  ultimately show ?thesis by (simp add: rounded_def round_f64_def)
next
  case False
  then have n: "0 < n" by simp
  show ?thesis
    using pack_cases [OF round_at_le [OF n assms] round_exp_ge round_at_ge [OF n assms], where s = s] False
    by (simp add: rounded_def round_f64_def Let_def)
qed

lemma round_f64_wf: "0 < d \<Longrightarrow> f64_wf (round_f64 s n d)"
  using round_f64_cases [of d n s] by auto

lemma round_f64_not_nan [simp]: "round_f64 s n d \<noteq> NaN"
  by (auto simp: round_f64_def pack_def Let_def split: if_splits)

lemma trunc_floor: "(if 0 \<le> e then int m * 2 ^ nat e else int m div 2 ^ nat (- e)) = \<lfloor>real m * 2 powi e\<rfloor>"
proof (cases "0 \<le> e")
  case True
  have "real m * 2 powi e = real_of_int (int m * 2 ^ nat e)"
    unfolding powi_nonneg [OF True] by simp
  then show ?thesis using True by (simp only: floor_of_int if_True)
next
  case False
  have "real m * 2 powi e = real_of_int (int m) / real_of_int (2 ^ nat (- e))"
    using False powi_neg [of e] by simp
  then show ?thesis using False floor_divide_of_int_eq [where ?'a = real, of "int m" "2 ^ nat (- e)"]
    by (simp only: if_False)
qed

definition clamp_i64 :: "bool \<Rightarrow> int \<Rightarrow> int" where
  "clamp_i64 s t = (if s then max (- t) (- (2 ^ 63)) else min t (2 ^ 63 - 1))"

lemma f64_trunc_Finite: "f64_trunc (Finite s m e) = clamp_i64 s \<lfloor>real m * 2 powi e\<rfloor>"
  unfolding trunc_floor [symmetric] by (simp add: clamp_i64_def Let_def)

text \<open>Rounding and then converting saturates the integer part of the rounded value.\<close>

theorem f64_trunc_round:
  assumes "0 < d"
  shows "f64_trunc (round_f64 s n d) = clamp_i64 s \<lfloor>rounded n d\<rfloor>"
  using round_f64_cases [OF assms, of n s]
proof
  assume "rounded n d < f64_limit \<and>
      (\<exists>m f. round_f64 s n d = Finite s m f \<and> real m * 2 powi f = rounded n d \<and> f64_wf (Finite s m f))"
  then obtain m f where "round_f64 s n d = Finite s m f" "real m * 2 powi f = rounded n d" by blast
  then show ?thesis by (simp only: f64_trunc_Finite)
next
  assume *: "f64_limit \<le> rounded n d \<and> round_f64 s n d = Infinity s"
  then have "real_of_int (2 ^ 63) \<le> rounded n d" using i64_below_limit by linarith
  then have "2 ^ 63 \<le> \<lfloor>rounded n d\<rfloor>" by (simp only: le_floor_iff)
  then have "f64_trunc (Infinity s) = clamp_i64 s \<lfloor>rounded n d\<rfloor>" by (simp add: clamp_i64_def)
  with * show ?thesis by simp
qed

lemma f64_trunc_range: "- (2 ^ 63) \<le> f64_trunc x \<and> f64_trunc x < 2 ^ 63"
proof (cases x)
  case (Finite s m e)
  have "- (2 ^ 63) \<le> clamp_i64 s t \<and> clamp_i64 s t < 2 ^ 63" if "0 \<le> t" for t
    using that by (auto simp: clamp_i64_def)
  then show ?thesis unfolding Finite f64_trunc_Finite by simp
qed simp_all

lemma sint_f64_to_i64 [simp]: "sint (f64_to_i64 x) = f64_trunc x"
  using f64_trunc_range [of x]
  by (simp add: f64_to_i64_def sint_sbintrunc' signed_take_bit_int_eq_self)

lemma clamp_mono: "a \<le> b \<Longrightarrow> clamp_i64 False a \<le> clamp_i64 False b"
  "a \<le> b \<Longrightarrow> clamp_i64 True b \<le> clamp_i64 True a"
  by (auto simp: clamp_i64_def)

section \<open>Comparison and the order of the represented numbers\<close>

lemma units_real:
  assumes "e0 \<le> e"
  shows "real_of_int (units e0 s m e) * 2 powi e0 = sgn_of s * real m * 2 powi e"
proof -
  have "(2::real) ^ nat (e - e0) * 2 powi e0 = 2 powi e"
    using assms by (simp add: powi_nonneg [symmetric] powi_add2)
  then show ?thesis by (simp add: units_def sgn_of_def)
qed

lemma units_le_iff:
  assumes "e0 \<le> e" "e0 \<le> f"
  shows "units e0 s m e \<le> units e0 t n f \<longleftrightarrow> fval (Finite s m e) \<le> fval (Finite t n f)"
proof -
  have "units e0 s m e \<le> units e0 t n f \<longleftrightarrow>
      real_of_int (units e0 s m e) * 2 powi e0 \<le> real_of_int (units e0 t n f) * 2 powi e0"
    by simp
  then show ?thesis by (simp only: units_real [OF assms(1)] units_real [OF assms(2)] fval.simps)
qed

lemma partial_cmp_Finite:
  "partial_cmp (Finite s m e) (Finite t n f) =
     Some (if fval (Finite s m e) < fval (Finite t n f) then Less
           else if fval (Finite s m e) = fval (Finite t n f) then Equal else Greater)"
proof -
  let ?e0 = "min e f"
  have le: "units ?e0 s m e \<le> units ?e0 t n f \<longleftrightarrow> fval (Finite s m e) \<le> fval (Finite t n f)"
    and ge: "units ?e0 t n f \<le> units ?e0 s m e \<longleftrightarrow> fval (Finite t n f) \<le> fval (Finite s m e)"
    by (rule units_le_iff; simp)+
  then show ?thesis
    by (simp only: partial_cmp.simps cmp_int_def Let_def option.inject) (smt (verit))
qed

text \<open>A key of the non-NaN values in a linear order: the class first, then the number.\<close>

fun f64_class :: "f64 \<Rightarrow> int" where
  "f64_class (Infinity s) = (if s then - 1 else 1)"
| "f64_class _ = 0"

definition f64_le :: "f64 \<Rightarrow> f64 \<Rightarrow> bool" where
  "f64_le a b \<longleftrightarrow> f64_class a < f64_class b \<or> f64_class a = f64_class b \<and> fval a \<le> fval b"

lemma f64_le_refl [simp]: "f64_le a a"
  and f64_le_total: "f64_le a b \<or> f64_le b a"
  and f64_le_trans: "f64_le a b \<Longrightarrow> f64_le b c \<Longrightarrow> f64_le a c"
  by (auto simp: f64_le_def)

lemma partial_cmp_eq:
  assumes "\<not> is_nan a" "\<not> is_nan b"
  shows "partial_cmp a b = Some (if f64_le a b then (if f64_le b a then Equal else Less) else Greater)"
proof (cases a)
  case a: (Finite s m e)
  show ?thesis
  proof (cases b)
    case (Finite t n f)
    then show ?thesis unfolding a Finite partial_cmp_Finite by (auto simp: f64_le_def)
  qed (use a assms in \<open>auto simp: f64_le_def\<close>)
qed (use assms in \<open>cases b; auto simp: f64_le_def\<close>)+

lemma partial_cmp_None_iff: "partial_cmp a b = None \<longleftrightarrow> is_nan a \<or> is_nan b"
  by (cases a; cases b) (auto simp: Let_def)

lemma f64_less_eq_iff: "\<not> is_nan a \<Longrightarrow> \<not> is_nan b \<Longrightarrow> a \<le> b \<longleftrightarrow> f64_le a b"
  by (simp add: less_eq_f64_def partial_cmp_eq)

lemma f64_less_iff: "\<not> is_nan a \<Longrightarrow> \<not> is_nan b \<Longrightarrow> a < b \<longleftrightarrow> \<not> f64_le b a"
  using f64_le_total [of a b] by (auto simp: less_f64_def partial_cmp_eq)

section \<open>Results determined by the rational\<close>

lemma round_f64_cong:
  assumes "0 < d" "0 < d'" "real n / real d = real n' / real d'"
  shows "round_f64 s n d = round_f64 s n' d'"
proof (cases "n = 0")
  case True
  then have "n' = 0" using assms by simp
  with True show ?thesis by (simp add: round_f64_def)
next
  case False
  have "n' \<noteq> 0"
  proof
    assume "n' = 0"
    then have "real n / real d = 0" using assms(3) by simp
    then show False using False assms(1) by simp
  qed
  with False have pos: "0 < n" "0 < n'" by simp_all
  have "floor_log2 n d = floor_log2 n' d'"
    using floor_log2_mono [OF pos(1) assms(1) pos(2) assms(2)]
      floor_log2_mono [OF pos(2) assms(2) pos(1) assms(1)] assms(3) by simp
  then have e: "round_exp n d = round_exp n' d'" by (simp add: round_exp_def)
  have "round_at n d (round_exp n d) = round_at n' d' (round_exp n' d')"
    using nearest_even_mono [OF round_at_nearest [OF assms(1)] round_at_nearest [OF assms(2)]]
      nearest_even_mono [OF round_at_nearest [OF assms(2)] round_at_nearest [OF assms(1)]] assms(3) e
    by (metis order_antisym order_refl)
  with e False \<open>n' \<noteq> 0\<close> show ?thesis by (simp add: round_f64_def)
qed

lemma f64_mul_Finite:
  "\<exists>p d. 0 < d \<and> f64_mul (Finite s m e) (Finite t n f) = round_f64 (s \<noteq> t) p d \<and>
     real p / real d = real m * 2 powi e * (real n * 2 powi f)"
proof (cases "0 \<le> e + f")
  case True
  have "real (m * n * 2 ^ nat (e + f)) / real 1 = real m * 2 powi e * (real n * 2 powi f)"
    using powi_add2 [of e f] powi_nonneg [OF True] by (simp add: algebra_simps)
  then show ?thesis using True
    by (intro exI [of _ "m * n * 2 ^ nat (e + f)"] exI [of _ 1]) simp
next
  case False
  then have neg: "e + f < 0" by simp
  have "real (m * n) / real (2 ^ nat (- (e + f))) = real m * 2 powi e * (real n * 2 powi f)"
    using powi_add2 [of e f] powi_neg [OF neg] by (simp add: algebra_simps)
  then show ?thesis using False
    by (intro exI [of _ "m * n"] exI [of _ "2 ^ nat (- (e + f))"]) simp
qed

lemma clamp_False_nonneg: "0 \<le> t \<Longrightarrow> 0 \<le> clamp_i64 False t"
  and clamp_True_nonpos: "0 \<le> t \<Longrightarrow> clamp_i64 True t \<le> 0"
  and clamp_0 [simp]: "clamp_i64 s 0 = 0"
  by (simp_all add: clamp_i64_def)

lemma floor_rounded_nonneg: "0 \<le> \<lfloor>rounded n d\<rfloor>"
  using rounded_nonneg by simp

text \<open>
  Multiplying by a positive constant, rounding and truncating keeps the order of prices: this is
  what makes the order of the scaled integers on the wire agree with the order of the sort.
\<close>

theorem trunc_mul_mono:
  assumes nan: "\<not> is_nan a" "\<not> is_nan b" and le: "f64_le a b" and n: "0 < n"
  shows "f64_trunc (f64_mul a (Finite False n f)) \<le> f64_trunc (f64_mul b (Finite False n f))"
proof (cases a)
  case a: (Finite s m e)
  show ?thesis
  proof (cases b)
    case b: (Finite s' m' e')
    from f64_mul_Finite [of s m e False n f] obtain p d where
      pd: "0 < d" "f64_mul a (Finite False n f) = round_f64 s p d"
        "real p / real d = real m * 2 powi e * (real n * 2 powi f)" using a by auto
    from f64_mul_Finite [of s' m' e' False n f] obtain p' d' where
      pd': "0 < d'" "f64_mul b (Finite False n f) = round_f64 s' p' d'"
        "real p' / real d' = real m' * 2 powi e' * (real n * 2 powi f)" using b by auto
    have c: "0 \<le> real n * 2 powi f" by simp
    have le': "sgn_of s * (real m * 2 powi e) \<le> sgn_of s' * (real m' * 2 powi e')"
      using le a b by (simp add: f64_le_def mult.assoc)
    consider "\<not> s" "\<not> s'" | "s" "s'" | "s" "\<not> s'" | "\<not> s" "s'" by blast
    then have "clamp_i64 s \<lfloor>rounded p d\<rfloor> \<le> clamp_i64 s' \<lfloor>rounded p' d'\<rfloor>"
    proof cases
      case 1
      then have "real p / real d \<le> real p' / real d'"
        unfolding pd pd' using le' c by (intro mult_right_mono) (simp_all add: sgn_of_def)
      then show ?thesis using 1 pd(1) pd'(1) by (auto intro!: clamp_mono floor_mono rounded_mono)
    next
      case 2
      then have "real p' / real d' \<le> real p / real d"
        unfolding pd pd' using le' c by (intro mult_right_mono) (simp_all add: sgn_of_def)
      then show ?thesis using 2 pd(1) pd'(1) by (auto intro!: clamp_mono floor_mono rounded_mono)
    next
      case 3
      then show ?thesis
        using clamp_True_nonpos [OF floor_rounded_nonneg, of p d]
          clamp_False_nonneg [OF floor_rounded_nonneg, of p' d'] by simp
    next
      case 4
      have nn: "0 \<le> real m * 2 powi e" "0 \<le> real m' * 2 powi e'" by simp_all
      have "real m * 2 powi e \<le> - (real m' * 2 powi e')" using le' 4 by (simp add: sgn_of_def)
      then have "real m * 2 powi e = 0" "real m' * 2 powi e' = 0" using nn by linarith+
      then have "p = 0" "p' = 0" using pd pd' by auto
      then show ?thesis by (simp add: rounded_def)
    qed
    then show ?thesis by (simp only: pd pd' f64_trunc_round)
  next
    case (Infinity t)
    then have "\<not> t" using le a by (auto simp: f64_le_def)
    then have "f64_mul b (Finite False n f) = Infinity False" using Infinity n by simp
    then show ?thesis using f64_trunc_range [of "f64_mul a (Finite False n f)"] by simp
  qed (use nan in simp)
next
  case (Infinity t)
  show ?thesis
  proof (cases t)
    case True
    then have "f64_mul a (Finite False n f) = Infinity True" using Infinity n by simp
    then show ?thesis using f64_trunc_range [of "f64_mul b (Finite False n f)"] by simp
  next
    case False
    then have "b = Infinity False" using le Infinity nan by (cases b) (auto simp: f64_le_def split: if_splits)
    then show ?thesis using Infinity False by simp
  qed
qed (use nan in simp)

section \<open>Scaling a decimal by 10^8\<close>

lemmas f64_eval =
  round_f64_def f64_of_int_def round_exp_def floor_log2_def ge_pow2_def pack_def round_at_def
  round_half_even_def compute_floorlog

lemmas parse_eval =
  parse_f64_def parse_number_def ascii_lower_def is_digit_def decimal_f64_def parse_exponent_def
  digit_val_def

lemma f64_1e8: "f64_of_int 100000000 = Finite False 6710886400000000 (- 26)"
  by (simp add: f64_eval)

lemma scale_value: "real 6710886400000000 * 2 powi (- 26) = 10 ^ 8"
  using powi_neg [of "- 26"] by simp

lemma two_roundings:
  fixes n r1 r2 :: real
  assumes n: "0 \<le> n" "n < 2 ^ 52" and "n = of_int k"
    and r1: "\<bar>r1 - n\<bar> \<le> n / 2 ^ 53" and r2: "\<bar>r2 - r1\<bar> \<le> r1 / 2 ^ 53"
  shows "\<lfloor>r2\<rfloor> = k - 1 \<or> \<lfloor>r2\<rfloor> = k"
proof -
  have "real_of_int k < real_of_int (2 ^ 52)" using n(2) \<open>n = of_int k\<close> by simp
  then have "k \<le> 2 ^ 52 - 1" by (simp only: of_int_less_iff)
  then have "real_of_int k \<le> real_of_int (2 ^ 52 - 1)" by (simp only: of_int_le_iff)
  then have nb: "n \<le> 2 ^ 52 - 1" using \<open>n = of_int k\<close> by simp
  have "r1 \<le> n + n / 2 ^ 53" using r1 by linarith
  then have "r1 / 2 ^ 53 \<le> (n + n / 2 ^ 53) / 2 ^ 53" by (rule divide_right_mono) simp
  moreover have "\<bar>r2 - n\<bar> \<le> \<bar>r1 - n\<bar> + \<bar>r2 - r1\<bar>" by linarith
  ultimately have "\<bar>r2 - n\<bar> \<le> n / 2 ^ 53 + (n + n / 2 ^ 53) / 2 ^ 53"
    using r1 r2 by (meson add_mono order_trans)
  also have "\<dots> < 1"
    using nb by (simp add: field_simps)
  finally have "n - 1 < r2" "r2 < n + 1" by linarith+
  then show ?thesis unfolding \<open>n = of_int k\<close> by linarith
qed

theorem scaled_decimal:
  assumes "n < 2 ^ 52"
  shows "\<exists>t \<in> {int n - 1, int n}.
    f64_trunc (f64_mul (round_f64 s n (10 ^ 8)) (f64_of_int 100000000)) = (if s then - t else t)"
proof (cases "n = 0")
  case True
  then show ?thesis by (simp add: f64_1e8 round_f64_def)
next
  case False
  then have n: "1 \<le> real n" by simp
  have n52: "real n < 2 ^ 52" using real_less_pow [OF assms] .
  let ?x = "real n / real (10 ^ 8)" and ?r1 = "rounded n (10 ^ 8)"
  have "2 powi (- 1022) \<le> (2::real) powi (- 27)" by (rule powi_mono2) simp
  also have "\<dots> \<le> ?x" using n by (simp add: power_int_def field_simps)
  finally have "\<bar>?r1 - ?x\<bar> \<le> ?x / 2 ^ 53" by (intro rounded_error) simp_all
  then have "\<bar>?r1 - ?x\<bar> * 10 ^ 8 \<le> ?x / 2 ^ 53 * 10 ^ 8" by simp
  moreover have "\<bar>?r1 * 10 ^ 8 - real n\<bar> = \<bar>(?r1 - ?x) * 10 ^ 8\<bar>" by (simp add: left_diff_distrib)
  ultimately have R1: "\<bar>?r1 * 10 ^ 8 - real n\<bar> \<le> real n / 2 ^ 53" unfolding abs_mult by simp
  have "real n / 2 ^ 53 \<le> real n" "real n + real n \<le> 2 ^ 53" using n52 by simp_all
  then have "?r1 * 10 ^ 8 \<le> 2 ^ 53" using R1 n52 by linarith
  then have "?r1 \<le> 2 ^ 53" using rounded_nonneg [of n "10 ^ 8"] by simp
  then have "?r1 \<le> 2 powi (int 53)" unfolding power_int_of_nat .
  then have "?r1 < f64_limit" using limit_less [of "int 53"] by linarith
  then obtain m f where mf: "round_f64 s n (10 ^ 8) = Finite s m f" "real m * 2 powi f = ?r1"
    using round_f64_cases [of "10 ^ 8" n s] by auto
  obtain p d where pd: "0 < d" "f64_mul (Finite s m f) (Finite False 6710886400000000 (- 26)) = round_f64 s p d"
      "real p / real d = real m * 2 powi f * (real 6710886400000000 * 2 powi (- 26))"
    using f64_mul_Finite [of s m f False 6710886400000000 "- 26"] by auto
  have ratio: "real p / real d = ?r1 * 10 ^ 8" unfolding pd(3) mf(2) scale_value by simp
  have "real n / 2 ^ 53 \<le> real n / 2" by (rule divide_left_mono) simp_all
  then have half: "1 / 2 \<le> ?r1 * 10 ^ 8" using R1 n by linarith
  have "2 powi (- 1022) \<le> (2::real) powi (- 1)" by (rule powi_mono2) simp
  also have "\<dots> \<le> ?r1 * 10 ^ 8" using half by (simp add: power_int_minus)
  finally have "2 powi (- 1022) \<le> real p / real d" unfolding ratio .
  from rounded_error [OF pd(1) this]
  have R2: "\<bar>rounded p d - ?r1 * 10 ^ 8\<bar> \<le> ?r1 * 10 ^ 8 / 2 ^ 53" unfolding ratio .
  have t: "\<lfloor>rounded p d\<rfloor> = int n - 1 \<or> \<lfloor>rounded p d\<rfloor> = int n"
    by (rule two_roundings [OF _ n52 _ R1 R2]) simp_all
  have "f64_trunc (f64_mul (round_f64 s n (10 ^ 8)) (f64_of_int 100000000)) = clamp_i64 s \<lfloor>rounded p d\<rfloor>"
    unfolding f64_1e8 mf(1) pd(2) using pd(1) by (rule f64_trunc_round)
  moreover have "clamp_i64 s \<lfloor>rounded p d\<rfloor> = (if s then - \<lfloor>rounded p d\<rfloor> else \<lfloor>rounded p d\<rfloor>)"
    using t assms by (auto simp: clamp_i64_def)
  ultimately show ?thesis using t by auto
qed

text \<open>The same for a decimal with at most eight fractional digits.\<close>

lemma decimal_f64_8:
  assumes "k \<le> 8"
  shows "decimal_f64 s n (- int k) = round_f64 s (n * 10 ^ (8 - k)) (10 ^ 8)"
proof -
  have e: "real (10 ^ 8) = 10 ^ (8 - k) * 10 ^ k" using assms by (simp flip: power_add)
  have "real n / real (10 ^ k) = real (n * 10 ^ (8 - k)) / real (10 ^ 8)" unfolding e by simp
  then have "round_f64 s n (10 ^ k) = round_f64 s (n * 10 ^ (8 - k)) (10 ^ 8)"
    by (intro round_f64_cong) simp_all
  then show ?thesis by (cases "k = 0") (simp_all add: decimal_f64_def)
qed

text \<open>A whole number of units up to \<open>2^34\<close> is scaled exactly.\<close>

theorem scaled_integer:
  assumes "n \<le> 2 ^ 34"
  shows "f64_trunc (f64_mul (round_f64 s n 1) (f64_of_int 100000000)) = (if s then - 1 else 1) * (int n * 10 ^ 8)"
proof -
  have "rounded n 1 = real n / real 1"
    using assms by (intro rounded_exact [of 1 n n 0]) simp_all
  then have r1: "rounded n 1 = real n" by simp
  have "real n \<le> 2 powi (int 34)" using real_le_pow [OF assms] by (simp add: power_int_of_nat)
  then have "rounded n 1 < f64_limit" unfolding r1 using limit_less [of "int 34"] by linarith
  then obtain m f where mf: "round_f64 s n 1 = Finite s m f" "real m * 2 powi f = real n"
    using round_f64_cases [of 1 n s] r1 by auto
  obtain p d where pd: "0 < d" "f64_mul (Finite s m f) (Finite False 6710886400000000 (- 26)) = round_f64 s p d"
      "real p / real d = real m * 2 powi f * (real 6710886400000000 * 2 powi (- 26))"
    using f64_mul_Finite [of s m f False 6710886400000000 "- 26"] by auto
  have ratio: "real p / real d = real (n * 390625) * 2 powi 8" unfolding pd(3) mf(2) scale_value by simp
  have "rounded p d = real p / real d"
    using assms by (intro rounded_exact [OF pd(1) ratio]) simp_all
  then have "rounded p d = real_of_int (int n * 10 ^ 8)" unfolding ratio by simp
  then have "f64_trunc (f64_mul (round_f64 s n 1) (f64_of_int 100000000)) = clamp_i64 s (int n * 10 ^ 8)"
    unfolding f64_1e8 mf(1) pd(2) f64_trunc_round [OF pd(1)] by (simp only: floor_of_int)
  then show ?thesis using assms by (simp add: clamp_i64_def)
qed

section \<open>Parsing plain decimals\<close>

text \<open>The strings of the exchange: digits, a point, digits.\<close>

lemma is_digit_point [simp]: "\<not> is_digit CHR ''.''"
  by (simp add: is_digit_def)

lemma is_digit_lower:
  assumes "is_digit c"
  shows "ascii_lower c = c"
  using assms by (simp add: is_digit_def ascii_lower_def Let_def)

lemma is_digit_not [simp]:
  "is_digit c \<Longrightarrow> c \<noteq> CHR ''-''" "is_digit c \<Longrightarrow> c \<noteq> CHR ''+''"
  "is_digit c \<Longrightarrow> c \<noteq> CHR ''i''" "is_digit c \<Longrightarrow> c \<noteq> CHR ''n''" "is_digit c \<Longrightarrow> c \<noteq> CHR ''.''"
  by (auto simp: is_digit_def)

lemma takeWhile_digits: "list_all is_digit cs \<Longrightarrow> takeWhile is_digit cs = cs"
  and dropWhile_digits: "list_all is_digit cs \<Longrightarrow> dropWhile is_digit cs = []"
  by (simp_all add: list_all_iff)

lemma parse_number_decimal:
  assumes "list_all is_digit ip" "list_all is_digit fp" "ip \<noteq> []"
  shows "parse_number s (ip @ CHR ''.'' # fp) =
    Some (decimal_f64 s (digits_val 0 (ip @ fp)) (- int (length fp)))"
proof -
  have "takeWhile is_digit (ip @ CHR ''.'' # fp) = ip" "dropWhile is_digit (ip @ CHR ''.'' # fp) = CHR ''.'' # fp"
    using assms by (simp_all add: list_all_iff takeWhile_append dropWhile_append)
  then show ?thesis
    using assms(2,3) by (simp add: parse_number_def parse_exponent_def takeWhile_digits dropWhile_digits)
qed

lemma parse_f64_decimal:
  assumes "list_all is_digit ip" "list_all is_digit fp" "ip \<noteq> []"
  shows "parse_f64 (ip @ CHR ''.'' # fp) = Some (decimal_f64 False (digits_val 0 (ip @ fp)) (- int (length fp)))"
    and "parse_f64 (CHR ''-'' # ip @ CHR ''.'' # fp) =
      Some (decimal_f64 True (digits_val 0 (ip @ fp)) (- int (length fp)))"
proof -
  obtain c cs where ip: "ip = c # cs" "is_digit c" using assms by (cases ip) auto
  then show "parse_f64 (ip @ CHR ''.'' # fp) = Some (decimal_f64 False (digits_val 0 (ip @ fp)) (- int (length fp)))"
    and "parse_f64 (CHR ''-'' # ip @ CHR ''.'' # fp) =
      Some (decimal_f64 True (digits_val 0 (ip @ fp)) (- int (length fp)))"
    using parse_number_decimal [OF assms] is_digit_lower [OF ip(2)] by (simp_all add: parse_f64_def)
qed

end
