(* ===== verification/Rust_Sort.thy ===== *)
theory Rust_Sort
  imports F64_Laws
begin

text \<open>
  \<^verbatim>\<open>slice::sort_by\<close>. Rust documents a stable sort for comparison functions that are total
  preorders and leaves the order unspecified otherwise. The model is a stable insertion sort; the
  locale \<open>stable_order\<close> is the contract a comparison function has to meet on the elements that occur,
  and under it the result is the only stable sorted permutation, so it is Rust's result whatever
  algorithm the library uses. The comparisons of the feeder meet it on elements without NaN prices.
\<close>

section \<open>The sort\<close>

fun insert_by :: "('a \<Rightarrow> 'a \<Rightarrow> ordering) \<Rightarrow> 'a \<Rightarrow> 'a list \<Rightarrow> 'a list" where
  "insert_by cmp x [] = [x]"
| "insert_by cmp x (y # ys) = (if cmp x y = Greater then y # insert_by cmp x ys else x # y # ys)"

fun sort_by :: "('a \<Rightarrow> 'a \<Rightarrow> ordering) \<Rightarrow> 'a list \<Rightarrow> 'a list" where
  "sort_by cmp [] = []"
| "sort_by cmp (x # xs) = insert_by cmp x (sort_by cmp xs)"

lemma mset_insert_by [simp]: "mset (insert_by cmp x ys) = add_mset x (mset ys)"
  by (induction ys) auto

lemma mset_sort_by [simp]: "mset (sort_by cmp xs) = mset xs"
  by (induction xs) auto

lemma set_sort_by [simp]: "set (sort_by cmp xs) = set xs"
  by (metis mset_sort_by set_mset_mset)

lemma length_sort_by [simp]: "length (sort_by cmp xs) = length xs"
  by (metis mset_sort_by size_mset)

lemma sort_by_eq_Nil_iff [simp]: "sort_by cmp xs = [] \<longleftrightarrow> xs = []"
  by (metis length_0_conv length_sort_by)

lemma sort_by_single [simp]: "sort_by cmp [x] = [x]"
  by simp

section \<open>The contract of a comparison function\<close>

locale stable_order =
  fixes cmp :: "'a \<Rightarrow> 'a \<Rightarrow> ordering"
    and carrier :: "'a \<Rightarrow> bool"
  assumes cmp_refl: "carrier x \<Longrightarrow> cmp x x = Equal"
    and cmp_swap: "carrier x \<Longrightarrow> carrier y \<Longrightarrow> cmp x y = Greater \<longleftrightarrow> cmp y x = Less"
    and cmp_trans: "carrier x \<Longrightarrow> carrier y \<Longrightarrow> carrier z \<Longrightarrow>
      cmp x y \<noteq> Greater \<Longrightarrow> cmp y z \<noteq> Greater \<Longrightarrow> cmp x z \<noteq> Greater"
begin

definition le :: "'a \<Rightarrow> 'a \<Rightarrow> bool" where
  "le x y \<longleftrightarrow> cmp x y \<noteq> Greater"

definition eqv :: "'a \<Rightarrow> 'a \<Rightarrow> bool" where
  "eqv x y \<longleftrightarrow> cmp x y = Equal"

lemma le_refl: "carrier x \<Longrightarrow> le x x"
  by (simp add: le_def cmp_refl)

lemma le_trans: "carrier x \<Longrightarrow> carrier y \<Longrightarrow> carrier z \<Longrightarrow> le x y \<Longrightarrow> le y z \<Longrightarrow> le x z"
  unfolding le_def by (rule cmp_trans)

lemma le_total:
  assumes "carrier x" "carrier y"
  shows "le x y \<or> le y x"
  using cmp_swap [OF assms] unfolding le_def by (cases "cmp y x") simp_all

lemma eqv_iff:
  assumes "carrier x" "carrier y"
  shows "eqv x y \<longleftrightarrow> le x y \<and> le y x"
  using cmp_swap [OF assms] cmp_swap [OF assms(2,1)] unfolding le_def eqv_def
  by (cases "cmp x y"; cases "cmp y x") simp_all

lemma sorted_insert_by:
  assumes "carrier x" "\<forall>y \<in> set ys. carrier y" "sorted_wrt le ys"
  shows "sorted_wrt le (insert_by cmp x ys)"
  using assms(2,3)
proof (induction ys)
  case Nil
  then show ?case by simp
next
  case (Cons y ys)
  have set: "set (insert_by cmp x ys) = insert x (set ys)"
    by (metis mset_insert_by set_mset_add_mset_insert set_mset_mset)
  show ?case
  proof (cases "cmp x y = Greater")
    case True
    then have "le y x" using le_total [of x y] assms(1) Cons.prems by (simp add: le_def)
    with True Cons set show ?thesis by auto
  next
    case False
    then have xy: "le x y" by (simp add: le_def)
    have "le x z" if "z \<in> set ys" for z
      using le_trans [OF assms(1) _ _ xy, of z] Cons.prems that by auto
    with False xy Cons.prems show ?thesis by auto
  qed
qed

lemma sorted_sort_by: "(\<forall>y \<in> set xs. carrier y) \<Longrightarrow> sorted_wrt le (sort_by cmp xs)"
  by (induction xs) (auto intro!: sorted_insert_by)

text \<open>Equivalent elements keep their order.\<close>

lemma filter_insert_by:
  assumes "carrier x" "carrier a" "\<forall>y \<in> set ys. carrier y" "sorted_wrt le ys"
  shows "filter (eqv a) (insert_by cmp x ys) = filter (eqv a) (x # ys)"
  using assms(3,4)
proof (induction ys)
  case Nil
  then show ?case by simp
next
  case (Cons y ys)
  show ?case
  proof (cases "cmp x y = Greater")
    case True
    have "\<not> (eqv a x \<and> eqv a y)"
    proof
      assume "eqv a x \<and> eqv a y"
      then have "le x a" "le a y"
        using eqv_iff [OF assms(2,1)] eqv_iff [OF assms(2), of y] Cons.prems by simp_all
      then have "le x y" using le_trans [OF assms(1,2), of y] Cons.prems by simp
      with True show False by (simp add: le_def)
    qed
    moreover have "filter (eqv a) (insert_by cmp x ys) = filter (eqv a) (x # ys)"
      using Cons by simp
    ultimately show ?thesis using True by auto
  next
    case False
    then show ?thesis by simp
  qed
qed

lemma sort_by_stable:
  assumes "\<forall>y \<in> set xs. carrier y" "carrier a"
  shows "filter (eqv a) (sort_by cmp xs) = filter (eqv a) xs"
  using assms(1)
proof (induction xs)
  case Nil
  then show ?case by simp
next
  case (Cons x xs)
  then have xs: "carrier x" "\<forall>y \<in> set xs. carrier y" by simp_all
  have "filter (eqv a) (insert_by cmp x (sort_by cmp xs)) = filter (eqv a) (x # sort_by cmp xs)"
    using xs assms(2) sorted_sort_by [OF xs(2)] by (intro filter_insert_by) simp_all
  with Cons.IH [OF xs(2)] show ?case by simp
qed

text \<open>A stable sorted arrangement is determined by its stable segments.\<close>

lemma stable_sorted_unique:
  assumes "\<forall>y \<in> set xs \<union> set ys. carrier y" "sorted_wrt le xs" "sorted_wrt le ys"
    and "\<And>a. carrier a \<Longrightarrow> filter (eqv a) xs = filter (eqv a) ys"
  shows "xs = ys"
  using assms
proof (induction xs arbitrary: ys)
  case Nil
  have "ys = []"
  proof (rule ccontr)
    assume "ys \<noteq> []"
    then obtain y ys' where "ys = y # ys'" by (cases ys) auto
    with Nil.prems(1) Nil.prems(4) [of y] show False by (simp add: eqv_def cmp_refl)
  qed
  then show ?case by simp
next
  case (Cons x xs)
  have xx: "eqv x x" using Cons.prems(1) by (simp add: eqv_def cmp_refl)
  obtain y ys' where ys: "ys = y # ys'"
    using Cons.prems(1) Cons.prems(4) [of x] xx by (cases ys) auto
  have yy: "eqv y y" using Cons.prems(1) ys by (simp add: eqv_def cmp_refl)
  have "x \<in> set (filter (eqv x) ys)" using Cons.prems(1) Cons.prems(4) [of x, symmetric] xx by simp
  then have "x \<in> set ys" by simp
  then have yx: "le y x" using Cons.prems ys by (auto simp: le_refl)
  have "y \<in> set (filter (eqv y) (x # xs))" using Cons.prems(1) Cons.prems(4) [of y] yy ys by (simp del: filter.simps)
  then have "y \<in> set (x # xs)" by (simp only: set_filter mem_Collect_eq)
  then have xy: "le x y" using Cons.prems by (auto simp: le_refl)
  have e: "eqv x y" using xy yx Cons.prems(1) ys by (simp add: eqv_iff)
  have eq: "x = y" using Cons.prems(4) [of x] xx e Cons.prems(1) unfolding ys by simp
  have "xs = ys'"
  proof (rule Cons.IH)
    show "\<forall>y\<in>set xs \<union> set ys'. carrier y" using Cons.prems(1) ys by auto
    show "sorted_wrt le xs" "sorted_wrt le ys'" using Cons.prems ys by auto
    show "filter (eqv a) xs = filter (eqv a) ys'" if "carrier a" for a
      using Cons.prems(4) [OF that] unfolding ys eq by (auto split: if_splits)
  qed
  with eq ys show ?case by simp
qed

theorem sort_by_unique:
  assumes "\<forall>y \<in> set xs. carrier y" "mset ys = mset xs" "sorted_wrt le ys"
    and "\<And>a. carrier a \<Longrightarrow> filter (eqv a) ys = filter (eqv a) xs"
  shows "ys = sort_by cmp xs"
proof (rule stable_sorted_unique)
  have "set ys = set xs" using assms(2) by (metis set_mset_mset)
  then show "\<forall>y\<in>set ys \<union> set (sort_by cmp xs). carrier y" using assms(1) by auto
qed (use assms sorted_sort_by sort_by_stable in auto)

corollary sort_by_idem: "(\<forall>y \<in> set xs. carrier y) \<Longrightarrow> sort_by cmp (sort_by cmp xs) = sort_by cmp xs"
  by (rule sym, rule sort_by_unique) (auto simp: sorted_sort_by)

end

section \<open>Comparing prices\<close>

text \<open>\<^verbatim>\<open>a.partial_cmp(&b).unwrap_or(Ordering::Equal)\<close>\<close>

definition cmp_f64 :: "f64 \<Rightarrow> f64 \<Rightarrow> ordering" where
  "cmp_f64 a b = (case partial_cmp a b of None \<Rightarrow> Equal | Some c \<Rightarrow> c)"

lemma cmp_f64_eq:
  "\<not> is_nan a \<Longrightarrow> \<not> is_nan b \<Longrightarrow>
     cmp_f64 a b = (if f64_le a b then (if f64_le b a then Equal else Less) else Greater)"
  by (simp add: cmp_f64_def partial_cmp_eq)

lemma cmp_f64_Greater_iff: "\<not> is_nan a \<Longrightarrow> \<not> is_nan b \<Longrightarrow> cmp_f64 a b = Greater \<longleftrightarrow> \<not> f64_le a b"
  by (simp add: cmp_f64_eq)

interpretation price_order: stable_order cmp_f64 "\<lambda>x. \<not> is_nan x"
proof
  fix x y :: f64
  assume "\<not> is_nan x" "\<not> is_nan y"
  then show "cmp_f64 x y = Greater \<longleftrightarrow> cmp_f64 y x = Less"
    using f64_le_total [of x y] by (auto simp: cmp_f64_eq)
qed (auto simp: cmp_f64_eq dest: f64_le_trans split: if_splits)

end
