(* ===== verification/Rust_Str.thy ===== *)
theory Rust_Str
  imports Rust_F64 "HOL-Library.Sublist"
begin

text \<open>
  Rust's \<^verbatim>\<open>String\<close> and \<^verbatim>\<open>str\<close> as the list of their UTF-8 bytes, one \<open>char\<close> a byte, with the methods
  the feeder calls. \<open>length\<close> is therefore \<^verbatim>\<open>len()\<close>, and slicing at ASCII positions is list slicing.
  White space is Unicode's, in its UTF-8 encodings. The case mappings act on the ASCII letters and
  leave every other byte as it is, which is what they do for symbols and exchange names; the mappings
  of cased letters beyond ASCII are not modelled.
\<close>

section \<open>Characters\<close>

definition code_of :: "char \<Rightarrow> nat" where
  "code_of c = of_char c"

definition is_ascii_alphanumeric :: "char \<Rightarrow> bool" where
  "is_ascii_alphanumeric c \<longleftrightarrow>
     48 \<le> code_of c \<and> code_of c \<le> 57 \<or> 65 \<le> code_of c \<and> code_of c \<le> 90 \<or> 97 \<le> code_of c \<and> code_of c \<le> 122"

definition ascii_upper :: "char \<Rightarrow> char" where
  "ascii_upper c = (if 97 \<le> code_of c \<and> code_of c \<le> 122 then char_of (code_of c - 32) else c)"

definition to_lowercase :: "string \<Rightarrow> string" where
  "to_lowercase s = map ascii_lower s"

definition to_uppercase :: "string \<Rightarrow> string" where
  "to_uppercase s = map ascii_upper s"

definition eq_ignore_ascii_case :: "string \<Rightarrow> string \<Rightarrow> bool" where
  "eq_ignore_ascii_case s t \<longleftrightarrow> map ascii_lower s = map ascii_lower t"

lemma code_of_less: "code_of c < 256"
  by (simp add: code_of_def)

lemma code_of_inj: "code_of c = code_of d \<longleftrightarrow> c = d"
  by (simp add: code_of_def)

section \<open>Trimming\<close>

text \<open>The characters of \<^verbatim>\<open>char::is_whitespace\<close>, UTF-8 encoded.\<close>

definition ws_codes :: "nat list list" where
  "ws_codes = map (\<lambda>b. [b]) [9, 10, 11, 12, 13, 32] @ [[0xC2, 0x85], [0xC2, 0xA0], [0xE1, 0x9A, 0x80]]
     @ map (\<lambda>b. [0xE2, 0x80, b]) [0x80..<0x8B] @ [[0xE2, 0x80, 0xA8], [0xE2, 0x80, 0xA9], [0xE2, 0x80, 0xAF],
       [0xE2, 0x81, 0x9F], [0xE3, 0x80, 0x80]]"

definition ws_strings :: "string list" where
  "ws_strings = map (map char_of) ws_codes"

lemma ws_strings_nonempty: "[] \<notin> set ws_strings"
  by (simp add: ws_strings_def ws_codes_def)

text \<open>Drop leading members of a list of non-empty separators.\<close>

function drop_seps :: "string list \<Rightarrow> string \<Rightarrow> string" where
  "drop_seps ws s =
     (case find (\<lambda>w. w \<noteq> [] \<and> prefix w s) ws of None \<Rightarrow> s | Some w \<Rightarrow> drop_seps ws (drop (length w) s))"
  by pat_completeness auto
termination
proof (relation "measure (\<lambda>(ws, s). length s)")
  fix ws s w
  assume "find (\<lambda>w. w \<noteq> [] \<and> prefix w s) ws = Some w"
  then have "w \<noteq> []" "prefix w s" by (auto simp: find_Some_iff)
  then show "((ws, drop (length w) s), ws, s) \<in> measure (\<lambda>(ws, s). length s)"
    using prefix_length_le [of w s] by (cases w) auto
qed simp

declare drop_seps.simps [simp del]

definition trim_start :: "string \<Rightarrow> string" where
  "trim_start s = drop_seps ws_strings s"

definition trim_end :: "string \<Rightarrow> string" where
  "trim_end s = rev (drop_seps (map rev ws_strings) (rev s))"

definition trim :: "string \<Rightarrow> string" where
  "trim s = trim_end (trim_start s)"

text \<open>A plain character is an ASCII character that is not white space.\<close>

definition plain_char :: "char \<Rightarrow> bool" where
  "plain_char c \<longleftrightarrow> code_of c < 128 \<and> code_of c \<notin> {9, 10, 11, 12, 13, 32}"

lemma ws_first:
  assumes "w \<in> set ws_strings"
  shows "\<not> plain_char (hd w)" "\<not> plain_char (last w)"
  using assms by (auto simp: ws_strings_def ws_codes_def plain_char_def code_of_def upt_rec)

lemma drop_seps_stop:
  "(\<And>w. w \<in> set ws \<Longrightarrow> \<not> plain_char (hd w)) \<Longrightarrow> s = [] \<or> plain_char (hd s) \<Longrightarrow> drop_seps ws s = s"
proof -
  assume a: "\<And>w. w \<in> set ws \<Longrightarrow> \<not> plain_char (hd w)" and s: "s = [] \<or> plain_char (hd s)"
  have "find (\<lambda>w. w \<noteq> [] \<and> prefix w s) ws = None"
  proof (rule ccontr)
    assume "find (\<lambda>w. w \<noteq> [] \<and> prefix w s) ws \<noteq> None"
    then obtain w where "w \<in> set ws" "w \<noteq> []" "prefix w s" by (auto simp: find_None_iff)
    then have "s \<noteq> []" "hd w = hd s" by (auto simp: prefix_def)
    then show False using a [OF \<open>w \<in> set ws\<close>] s by simp
  qed
  then show ?thesis by (simp add: drop_seps.simps [of ws s])
qed

lemma trim_plain:
  assumes "s = [] \<or> plain_char (hd s) \<and> plain_char (last s)"
  shows "trim s = s"
proof -
  have "trim_start s = s" unfolding trim_start_def
    using assms ws_first by (intro drop_seps_stop) auto
  moreover have "drop_seps (map rev ws_strings) (rev s) = rev s"
  proof (rule drop_seps_stop)
    fix w assume "w \<in> set (map rev ws_strings)"
    then obtain v where "v \<in> set ws_strings" "w = rev v" by auto
    then show "\<not> plain_char (hd w)" using ws_first(2) [of v] ws_strings_nonempty
      by (metis hd_rev)
  next
    show "rev s = [] \<or> plain_char (hd (rev s))" using assms by (cases s rule: rev_cases) auto
  qed
  ultimately show ?thesis by (simp add: trim_def trim_end_def)
qed

text \<open>A filter that no separator passes does not see the trimming.\<close>

lemma filter_drop_seps:
  "(\<And>w c. w \<in> set ws \<Longrightarrow> c \<in> set w \<Longrightarrow> \<not> P c) \<Longrightarrow> filter P (drop_seps ws s) = filter P s"
proof (induction ws s rule: drop_seps.induct)
  case (1 ws s)
  show ?case
  proof (cases "find (\<lambda>w. w \<noteq> [] \<and> prefix w s) ws")
    case None
    then show ?thesis by (simp add: drop_seps.simps [of ws s])
  next
    case (Some w)
    then have w: "w \<in> set ws" "prefix w s" using nth_mem by (auto simp: find_Some_iff)
    have "filter P (drop_seps ws (drop (length w) s)) = filter P (drop (length w) s)"
      using 1(1) [OF Some] 1(2) by blast
    moreover have "filter P s = filter P (drop (length w) s)"
      using w 1(2) by (auto simp: prefix_def filter_empty_conv)
    ultimately show ?thesis using Some by (simp add: drop_seps.simps [of ws s])
  qed
qed

lemma filter_trim:
  assumes "\<And>w c. w \<in> set ws_strings \<Longrightarrow> c \<in> set w \<Longrightarrow> \<not> P c"
  shows "filter P (trim s) = filter P s"
proof -
  have "filter P (trim_start s) = filter P s"
    unfolding trim_start_def using assms by (rule filter_drop_seps)
  moreover have "filter P (drop_seps (map rev ws_strings) (rev t)) = filter P (rev t)" for t
    by (rule filter_drop_seps) (use assms in auto)
  ultimately show ?thesis by (simp add: trim_def trim_end_def rev_filter [symmetric])
qed

section \<open>Splitting and searching\<close>

fun split_on :: "char \<Rightarrow> string \<Rightarrow> string list" where
  "split_on d [] = [[]]"
| "split_on d (c # cs) =
     (if c = d then [] # split_on d cs
      else (case split_on d cs of [] \<Rightarrow> [[c]] | p # ps \<Rightarrow> (c # p) # ps))"

definition strip_cr :: "string \<Rightarrow> string" where
  "strip_cr s = (if s \<noteq> [] \<and> code_of (last s) = 13 then butlast s else s)"

definition newline :: char where
  "newline = char_of (10::nat)"

text \<open>\<^verbatim>\<open>str::lines\<close>: a carriage return is dropped before a line feed only.\<close>

definition lines :: "string \<Rightarrow> string list" where
  "lines s = (let ps = split_on newline s in
     map strip_cr (butlast ps) @ (if last ps = [] then [] else [last ps]))"

fun split_once :: "char \<Rightarrow> string \<Rightarrow> (string \<times> string) option" where
  "split_once d [] = None"
| "split_once d (c # cs) =
     (if c = d then Some ([], cs)
      else (case split_once d cs of None \<Rightarrow> None | Some (a, b) \<Rightarrow> Some (c # a, b)))"

definition starts_with :: "string \<Rightarrow> string \<Rightarrow> bool" where
  "starts_with s p \<longleftrightarrow> prefix p s"

definition ends_with :: "string \<Rightarrow> string \<Rightarrow> bool" where
  "ends_with s p \<longleftrightarrow> suffix p s"

fun contains :: "string \<Rightarrow> string \<Rightarrow> bool" where
  "contains [] p \<longleftrightarrow> p = []"
| "contains (c # cs) p \<longleftrightarrow> prefix p (c # cs) \<or> contains cs p"

text \<open>\<^verbatim>\<open>str::replace\<close> for a non-empty pattern: the matches from the left, without overlap.\<close>

function replace :: "string \<Rightarrow> string \<Rightarrow> string \<Rightarrow> string" where
  "replace s p r =
     (if s = [] \<or> p = [] then s
      else if prefix p s then r @ replace (drop (length p) s) p r
      else hd s # replace (tl s) p r)"
  by pat_completeness auto
termination by (relation "measure (\<lambda>(s, p, r). length s)") auto

declare replace.simps [simp del]

fun join :: "string \<Rightarrow> string list \<Rightarrow> string" where
  "join sep [] = []"
| "join sep [x] = x"
| "join sep (x # y # xs) = x @ sep @ join sep (y # xs)"

lemma split_on_nonempty [simp]: "split_on d s \<noteq> []"
  by (cases s) (auto split: list.splits)

lemma split_on_no_sep: "d \<notin> set s \<Longrightarrow> split_on d s = [s]"
  by (induction s) auto

lemma split_on_append: "d \<notin> set a \<Longrightarrow> split_on d (a @ d # b) = a # split_on d b"
  by (induction a) auto

lemma split_once_append: "d \<notin> set a \<Longrightarrow> split_once d (a @ d # b) = Some (a, b)"
  by (induction a) auto

lemma split_once_None: "split_once d s = None \<longleftrightarrow> d \<notin> set s"
  by (induction s) (auto split: option.splits)

lemma replace_none: "p \<noteq> [] \<Longrightarrow> \<not> contains s p \<Longrightarrow> replace s p r = s"
proof (induction s)
  case Nil
  then show ?case by (simp add: replace.simps)
next
  case (Cons c s)
  then show ?case by (simp add: replace.simps [of "c # s"])
qed

lemma replace_char: "replace s [c] r = concat (map (\<lambda>x. if x = c then r else [x]) s)"
proof (induction s)
  case Nil
  then show ?case by (simp add: replace.simps)
next
  case (Cons x s)
  then show ?case by (subst replace.simps) auto
qed

section \<open>Numbers and booleans\<close>

text \<open>\<^verbatim>\<open>uN::from_str\<close>: an optional plus sign and at least one digit; overflow is an error.\<close>

definition parse_uint :: "nat \<Rightarrow> string \<Rightarrow> nat option" where
  "parse_uint bits s =
     (let ds = (case s of c # cs \<Rightarrow> if c = CHR ''+'' then cs else s | [] \<Rightarrow> []) in
      if ds \<noteq> [] \<and> list_all is_digit ds \<and> digits_val 0 ds < 2 ^ bits then Some (digits_val 0 ds) else None)"

definition parse_bool :: "string \<Rightarrow> bool option" where
  "parse_bool s = (if s = ''true'' then Some True else if s = ''false'' then Some False else None)"

text \<open>Decimal printing (\<^verbatim>\<open>Display\<close> of unsigned integers), used to state round trips.\<close>

fun show_nat :: "nat \<Rightarrow> string" where
  "show_nat n = (if n < 10 then [char_of (48 + n)] else show_nat (n div 10) @ [char_of (48 + n mod 10)])"

declare show_nat.simps [simp del]

lemma is_digit_char_of: "n < 10 \<Longrightarrow> is_digit (char_of (48 + n))"
  and digit_val_char_of: "n < 10 \<Longrightarrow> digit_val (char_of (48 + n)) = n"
  by (simp_all add: is_digit_def digit_val_def)

lemma digits_val_append: "digits_val a (xs @ [c]) = 10 * digits_val a xs + digit_val c"
  by (induction xs arbitrary: a) auto

lemma show_nat_digits: "list_all is_digit (show_nat n)" "show_nat n \<noteq> []"
proof (induction n rule: show_nat.induct)
  case (1 n)
  { case 1 show ?case using "1.IH"(1) by (subst show_nat.simps) (auto intro: is_digit_char_of) }
  { case 2 show ?case by (subst show_nat.simps) simp }
qed

lemma digits_val_show_nat [simp]: "digits_val 0 (show_nat n) = n"
proof (induction n rule: show_nat.induct)
  case (1 n)
  show ?case
  proof (cases "n < 10")
    case True
    then show ?thesis by (simp add: show_nat.simps [of n] digit_val_char_of)
  next
    case False
    then show ?thesis
      using 1 by (simp add: show_nat.simps [of n] digits_val_append digit_val_char_of)
  qed
qed

theorem parse_uint_show_nat: "n < 2 ^ bits \<Longrightarrow> parse_uint bits (show_nat n) = Some n"
proof -
  assume "n < 2 ^ bits"
  moreover obtain c cs where "show_nat n = c # cs" "is_digit c"
    using show_nat_digits [of n] by (cases "show_nat n") auto
  moreover from this have "c \<noteq> CHR ''+''" by (auto simp: is_digit_def)
  ultimately show ?thesis using show_nat_digits [of n] digits_val_show_nat [of n]
    by (simp add: parse_uint_def)
qed

lemma parse_uint_bound: "parse_uint bits s = Some n \<Longrightarrow> n < 2 ^ bits"
  by (auto simp: parse_uint_def Let_def split: if_splits)

section \<open>Bytes of strings\<close>

definition as_bytes :: "string \<Rightarrow> u8 list" where
  "as_bytes s = map (\<lambda>c. of_nat (code_of c)) s"

definition char_of_byte :: "u8 \<Rightarrow> char" where
  "char_of_byte b = char_of (unat b)"

lemma char_of_byte_of_char [simp]: "char_of_byte (of_nat (code_of c)) = c"
  using code_of_less [of c] by (simp add: char_of_byte_def unat_of_nat_small) (simp add: code_of_def)

lemma length_as_bytes [simp]: "length (as_bytes s) = length s"
  by (simp add: as_bytes_def)

lemma as_bytes_inverse [simp]: "map char_of_byte (as_bytes s) = s"
  by (simp add: as_bytes_def comp_def)

section \<open>UTF-8\<close>

text \<open>
  \<^verbatim>\<open>String::from_utf8_lossy\<close>: every maximal ill-formed prefix becomes one replacement character.
  \<open>utf8_chunk\<close> gives whether a sequence starts with a well-formed character, and the length of it or of
  the ill-formed prefix.
\<close>

definition utf8_width :: "nat \<Rightarrow> nat" where
  "utf8_width b = (if b < 0x80 then 1 else if 0xC2 \<le> b \<and> b \<le> 0xDF then 2
     else if 0xE0 \<le> b \<and> b \<le> 0xEF then 3 else if 0xF0 \<le> b \<and> b \<le> 0xF4 then 4 else 0)"

definition utf8_cont :: "nat \<Rightarrow> bool" where
  "utf8_cont b \<longleftrightarrow> 0x80 \<le> b \<and> b \<le> 0xBF"

definition utf8_second :: "nat \<Rightarrow> nat \<Rightarrow> bool" where
  "utf8_second b c \<longleftrightarrow> utf8_cont c \<and> (b = 0xE0 \<longrightarrow> 0xA0 \<le> c) \<and> (b = 0xED \<longrightarrow> c \<le> 0x9F) \<and>
     (b = 0xF0 \<longrightarrow> 0x90 \<le> c) \<and> (b = 0xF4 \<longrightarrow> c \<le> 0x8F)"

fun utf8_chunk :: "nat list \<Rightarrow> bool \<times> nat" where
  "utf8_chunk [] = (True, 1)"
| "utf8_chunk (b # cs) =
     (let w = utf8_width b in
      if w \<le> 1 then (w = 1, 1)
      else if cs = [] \<or> \<not> utf8_second b (hd cs) then (False, 1)
      else let n = 2 + length (takeWhile utf8_cont (take (w - 2) (tl cs))) in (n = w, n))"

lemma utf8_chunk_pos: "0 < snd (utf8_chunk bs)"
  by (cases bs) (auto simp: Let_def)

definition replacement_character :: string where
  "replacement_character = map char_of [0xEF, 0xBF, 0xBD :: nat]"

function from_utf8_lossy :: "u8 list \<Rightarrow> string" where
  "from_utf8_lossy bs =
     (if bs = [] then []
      else let r = utf8_chunk (map unat bs) in
        (if fst r then map char_of_byte (take (snd r) bs) else replacement_character)
          @ from_utf8_lossy (drop (snd r) bs))"
  by pat_completeness auto
termination
  by (relation "measure length") (use utf8_chunk_pos in auto)

declare from_utf8_lossy.simps [simp del]

lemma from_utf8_lossy_ascii: "(\<And>b. b \<in> set bs \<Longrightarrow> unat b < 128) \<Longrightarrow> from_utf8_lossy bs = map char_of_byte bs"
  by (induction bs) (simp_all add: from_utf8_lossy.simps [of "_ # _"] from_utf8_lossy.simps [of "[]"] utf8_width_def)

section \<open>IPv4 addresses\<close>

text \<open>\<^verbatim>\<open>Ipv4Addr::from_str\<close>: four octets without leading zeros.\<close>

definition parse_octet :: "string \<Rightarrow> nat option" where
  "parse_octet s =
     (if s \<noteq> [] \<and> length s \<le> 3 \<and> list_all is_digit s \<and> (hd s = CHR ''0'' \<longrightarrow> length s = 1) \<and> digits_val 0 s \<le> 255
      then Some (digits_val 0 s) else None)"

definition parse_ipv4 :: "string \<Rightarrow> nat list option" where
  "parse_ipv4 s =
     (let parts = map parse_octet (split_on CHR ''.'' s) in
      if length parts = 4 \<and> None \<notin> set parts then Some (map the parts) else None)"

end
