(* ===== verification/Protocol.thy ===== *)
theory Protocol
  imports Wire Rust_Sort Rust_Str
begin

text \<open>
  \<^verbatim>\<open>src/src/protocol.rs\<close>: the packet header of 67 bytes, the item structs, their constructors with the
  fixed-point scaling, the flag bits and the raw byte copies. Every struct interprets the codec
  contract of the theory Wire.
\<close>

section \<open>Data\<close>

record packet_header =
  h_protocol_version :: u8
  h_sequence_number :: u64
  h_exchange_timestamp :: u64
  h_local_timestamp :: u64
  h_message_type :: u8
  h_flags_and_count :: u8
  h_symbol :: "u8 list"
  h_exchange :: "u8 list"

record order_book_item =
  ob_price :: i64
  ob_quantity_with_flags :: i64

record trade_tick_item =
  tt_price :: i64
  tt_quantity_with_flags :: i64

record price_value_item =
  pv_value :: i64

record funding_rate_item =
  fr_value :: i64

record liquidation_item =
  lq_price :: i64
  lq_quantity_with_flags :: i64

definition MESSAGE_TYPE_ORDER_BOOK :: u8 where "MESSAGE_TYPE_ORDER_BOOK = 0"
definition MESSAGE_TYPE_TRADE_TICK :: u8 where "MESSAGE_TYPE_TRADE_TICK = 1"
definition MESSAGE_TYPE_INDEX_PRICE :: u8 where "MESSAGE_TYPE_INDEX_PRICE = 2"
definition MESSAGE_TYPE_MARK_PRICE :: u8 where "MESSAGE_TYPE_MARK_PRICE = 3"
definition MESSAGE_TYPE_FUNDING_RATE :: u8 where "MESSAGE_TYPE_FUNDING_RATE = 4"
definition MESSAGE_TYPE_LIQUIDATION :: u8 where "MESSAGE_TYPE_LIQUIDATION = 5"

lemmas message_types = MESSAGE_TYPE_ORDER_BOOK_def MESSAGE_TYPE_TRADE_TICK_def
  MESSAGE_TYPE_INDEX_PRICE_def MESSAGE_TYPE_MARK_PRICE_def MESSAGE_TYPE_FUNDING_RATE_def
  MESSAGE_TYPE_LIQUIDATION_def

definition PRICE_SCALE :: i64 where "PRICE_SCALE = 100000000"
definition QUANTITY_SCALE :: i64 where "QUANTITY_SCALE = 100000000"
definition FUNDING_RATE_SCALE :: i64 where "FUNDING_RATE_SCALE = 100000000"

section \<open>Header\<close>

definition header_new :: packet_header where
  "header_new = \<lparr> h_protocol_version = 1, h_sequence_number = 0, h_exchange_timestamp = 0,
     h_local_timestamp = 0, h_message_type = 0, h_flags_and_count = 0,
     h_symbol = replicate 20 0, h_exchange = replicate 20 0 \<rparr>"

definition is_last :: "packet_header \<Rightarrow> bool" where
  "is_last h \<longleftrightarrow> (h_flags_and_count h AND 0x80) \<noteq> 0"

definition item_count :: "packet_header \<Rightarrow> u8" where
  "item_count h = h_flags_and_count h AND 0x7F"

definition is_trade_tick :: "packet_header \<Rightarrow> bool" where
  "is_trade_tick h \<longleftrightarrow> h_message_type h = MESSAGE_TYPE_TRADE_TICK"

definition is_order_book :: "packet_header \<Rightarrow> bool" where
  "is_order_book h \<longleftrightarrow> h_message_type h = MESSAGE_TYPE_ORDER_BOOK"

definition set_flags_and_count :: "bool \<Rightarrow> u8 \<Rightarrow> packet_header \<Rightarrow> packet_header" where
  "set_flags_and_count final cnt h =
     (let c = min cnt 80 AND 0x7F in
      h\<lparr>h_flags_and_count := if final then c OR 0x80 else c\<rparr>)"

definition set_packet_info :: "u8 \<Rightarrow> u8 \<Rightarrow> bool \<Rightarrow> packet_header \<Rightarrow> packet_header" where
  "set_packet_info message_type cnt final h =
     set_flags_and_count final cnt (h\<lparr>h_message_type := message_type\<rparr>)"

text \<open>The filter and the 20-byte null-terminated buffer of \<^verbatim>\<open>set_symbol\<close> and \<^verbatim>\<open>set_exchange\<close>.\<close>

definition name_char :: "char \<Rightarrow> bool" where
  "name_char c \<longleftrightarrow> is_ascii_alphanumeric c \<or> c = CHR ''^'' \<or> c = CHR ''-'' \<or> c = CHR ''_''"

definition sanitized :: "string \<Rightarrow> string" where
  "sanitized s = filter name_char (trim s)"

definition name_bytes :: "string \<Rightarrow> u8 list" where
  "name_bytes s =
     (let bytes = as_bytes (sanitized s); len = min (length bytes) 19 in
      take len bytes @ drop len (replicate 20 0))"

definition set_symbol :: "string \<Rightarrow> packet_header \<Rightarrow> packet_header" where
  "set_symbol s h = h\<lparr>h_symbol := name_bytes s\<rparr>"

definition set_exchange :: "string \<Rightarrow> packet_header \<Rightarrow> packet_header" where
  "set_exchange s h = h\<lparr>h_exchange := name_bytes s\<rparr>"

definition header_to_bytes :: "packet_header \<Rightarrow> u8 list" where
  "header_to_bytes h =
     le_bytes 1 (h_protocol_version h) @ le_bytes 8 (h_sequence_number h) @
     le_bytes 8 (h_exchange_timestamp h) @ le_bytes 8 (h_local_timestamp h) @
     le_bytes 1 (h_message_type h) @ le_bytes 1 (h_flags_and_count h) @ h_symbol h @ h_exchange h"

text \<open>The raw copy of the first 67 bytes; \<^verbatim>\<open>from_bytes\<close> asserts that there are as many.\<close>

definition header_read :: "u8 list \<Rightarrow> packet_header" where
  "header_read bs = \<lparr> h_protocol_version = of_le_bytes (field 0 1 bs),
     h_sequence_number = of_le_bytes (field 1 8 bs), h_exchange_timestamp = of_le_bytes (field 9 8 bs),
     h_local_timestamp = of_le_bytes (field 17 8 bs), h_message_type = of_le_bytes (field 25 1 bs),
     h_flags_and_count = of_le_bytes (field 26 1 bs), h_symbol = field 27 20 bs,
     h_exchange = field 47 20 bs \<rparr>"

definition header_from_bytes :: "u8 list \<Rightarrow> packet_header option" where
  "header_from_bytes bs = (if 67 \<le> length bs then Some (header_read bs) else None)"

definition header_valid :: "packet_header \<Rightarrow> bool" where
  "header_valid h \<longleftrightarrow> length (h_symbol h) = 20 \<and> length (h_exchange h) = 20"

interpretation header_codec: codec_onto header_to_bytes header_read 67 header_valid
proof
  fix h :: packet_header and r :: "u8 list"
  assume v: "header_valid h"
  then show "length (header_to_bytes h) = 67"
    by (simp add: header_to_bytes_def header_valid_def)
  show "header_read (header_to_bytes h @ r) = h"
    using v by (simp add: header_read_def header_to_bytes_def header_valid_def wire_simps)
next
  fix bs :: "u8 list"
  assume len: "67 \<le> length bs"
  then show "header_valid (header_read bs)"
    by (simp add: header_valid_def header_read_def)
  show "header_to_bytes (header_read bs) = take 67 bs"
    using len field_append_field [of 0 1 bs 66] field_append_field [of 1 8 bs 58]
      field_append_field [of 9 8 bs 50] field_append_field [of 17 8 bs 42]
      field_append_field [of 25 1 bs 41] field_append_field [of 26 1 bs 40]
      field_append_field [of 27 20 bs 20]
    by (simp add: header_to_bytes_def header_read_def le_roundtrips_rev) (simp add: field_def)
qed

section \<open>Fixed point and flags\<close>

text \<open>
  \<^verbatim>\<open>(x * SCALE as f64) as i64\<close>, and the flag in bit 63 over a quantity of 63 bits, as the item structs
  of trades, order books and liquidations share them.
\<close>

definition scaled_by :: "i64 \<Rightarrow> f64 \<Rightarrow> i64" where
  "scaled_by scale x = f64_to_i64 (f64_mul x (f64_of_i64 scale))"

definition with_flag :: "i64 \<Rightarrow> bool \<Rightarrow> i64" where
  "with_flag quantity flag =
     (let masked = quantity AND 0x7FFFFFFFFFFFFFFF in if flag then masked OR push_bit 63 1 else masked)"

definition flag_of :: "i64 \<Rightarrow> bool" where
  "flag_of w \<longleftrightarrow> (w AND push_bit 63 1) \<noteq> 0"

definition quantity_of :: "i64 \<Rightarrow> i64" where
  "quantity_of w = w AND 0x7FFFFFFFFFFFFFFF"

subsection \<open>Trade ticks\<close>

definition trade_set_quantity_and_flag :: "i64 \<Rightarrow> bool \<Rightarrow> trade_tick_item \<Rightarrow> trade_tick_item" where
  "trade_set_quantity_and_flag quantity is_buyer_taker t =
     t\<lparr>tt_quantity_with_flags := with_flag quantity is_buyer_taker\<rparr>"

definition trade_tick_item_new :: "f64 \<Rightarrow> f64 \<Rightarrow> bool \<Rightarrow> trade_tick_item" where
  "trade_tick_item_new price quantity is_buyer_taker =
     (let scaled_price = scaled_by PRICE_SCALE price;
          scaled_quantity = scaled_by QUANTITY_SCALE quantity;
          item = \<lparr> tt_price = scaled_price, tt_quantity_with_flags = 0 \<rparr>
      in trade_set_quantity_and_flag scaled_quantity is_buyer_taker item)"

definition trade_is_buyer_taker :: "trade_tick_item \<Rightarrow> bool" where
  "trade_is_buyer_taker t = flag_of (tt_quantity_with_flags t)"

definition trade_quantity :: "trade_tick_item \<Rightarrow> i64" where
  "trade_quantity t = quantity_of (tt_quantity_with_flags t)"

definition trade_to_bytes :: "trade_tick_item \<Rightarrow> u8 list" where
  "trade_to_bytes t = le_bytes 8 (tt_price t) @ le_bytes 8 (tt_quantity_with_flags t)"

definition trade_append_to_vec :: "trade_tick_item \<Rightarrow> u8 list \<Rightarrow> u8 list" where
  "trade_append_to_vec t dst = dst @ trade_to_bytes t"

definition trade_read :: "u8 list \<Rightarrow> trade_tick_item" where
  "trade_read bs = \<lparr> tt_price = of_le_bytes (field 0 8 bs), tt_quantity_with_flags = of_le_bytes (field 8 8 bs) \<rparr>"

definition trade_get_real_price :: "trade_tick_item \<Rightarrow> f64" where
  "trade_get_real_price t = f64_div (f64_of_i64 (tt_price t)) (f64_of_i64 PRICE_SCALE)"

definition trade_get_real_quantity :: "trade_tick_item \<Rightarrow> f64" where
  "trade_get_real_quantity t = f64_div (f64_of_i64 (trade_quantity t)) (f64_of_i64 QUANTITY_SCALE)"

subsection \<open>Order book levels\<close>

definition book_set_quantity_and_flag :: "i64 \<Rightarrow> bool \<Rightarrow> order_book_item \<Rightarrow> order_book_item" where
  "book_set_quantity_and_flag quantity is_ask t = t\<lparr>ob_quantity_with_flags := with_flag quantity is_ask\<rparr>"

definition order_book_item_new :: "f64 \<Rightarrow> f64 \<Rightarrow> bool \<Rightarrow> order_book_item" where
  "order_book_item_new price quantity is_ask =
     (let scaled_price = scaled_by PRICE_SCALE price;
          scaled_quantity = scaled_by QUANTITY_SCALE quantity;
          item = \<lparr> ob_price = scaled_price, ob_quantity_with_flags = 0 \<rparr>
      in book_set_quantity_and_flag scaled_quantity is_ask item)"

definition book_is_ask :: "order_book_item \<Rightarrow> bool" where
  "book_is_ask t = flag_of (ob_quantity_with_flags t)"

definition book_quantity :: "order_book_item \<Rightarrow> i64" where
  "book_quantity t = quantity_of (ob_quantity_with_flags t)"

definition book_to_bytes :: "order_book_item \<Rightarrow> u8 list" where
  "book_to_bytes t = le_bytes 8 (ob_price t) @ le_bytes 8 (ob_quantity_with_flags t)"

definition book_append_to_vec :: "order_book_item \<Rightarrow> u8 list \<Rightarrow> u8 list" where
  "book_append_to_vec t dst = dst @ book_to_bytes t"

definition book_read :: "u8 list \<Rightarrow> order_book_item" where
  "book_read bs = \<lparr> ob_price = of_le_bytes (field 0 8 bs), ob_quantity_with_flags = of_le_bytes (field 8 8 bs) \<rparr>"

definition book_get_real_price :: "order_book_item \<Rightarrow> f64" where
  "book_get_real_price t = f64_div (f64_of_i64 (ob_price t)) (f64_of_i64 PRICE_SCALE)"

definition book_get_real_quantity :: "order_book_item \<Rightarrow> f64" where
  "book_get_real_quantity t = f64_div (f64_of_i64 (book_quantity t)) (f64_of_i64 QUANTITY_SCALE)"

subsection \<open>Codecs\<close>

interpretation trade_codec: codec_onto trade_to_bytes trade_read 16 "\<lambda>_. True"
proof
  fix bs :: "u8 list"
  assume "16 \<le> length bs"
  then show "trade_to_bytes (trade_read bs) = take 16 bs"
    using field_append_field [of 0 8 bs 8]
    by (simp add: trade_to_bytes_def trade_read_def le_roundtrips_rev) (simp add: field_def)
qed (simp_all add: trade_to_bytes_def trade_read_def wire_simps)

interpretation book_codec: codec_onto book_to_bytes book_read 16 "\<lambda>_. True"
proof
  fix bs :: "u8 list"
  assume "16 \<le> length bs"
  then show "book_to_bytes (book_read bs) = take 16 bs"
    using field_append_field [of 0 8 bs 8]
    by (simp add: book_to_bytes_def book_read_def le_roundtrips_rev) (simp add: field_def)
qed (simp_all add: book_to_bytes_def book_read_def wire_simps)

text \<open>The event structs are copied to the wire by the packet builder, field by field.\<close>

definition price_value_to_bytes :: "price_value_item \<Rightarrow> u8 list" where
  "price_value_to_bytes t = le_bytes 8 (pv_value t)"

definition funding_rate_to_bytes :: "funding_rate_item \<Rightarrow> u8 list" where
  "funding_rate_to_bytes t = le_bytes 8 (fr_value t)"

definition liquidation_to_bytes :: "liquidation_item \<Rightarrow> u8 list" where
  "liquidation_to_bytes t = le_bytes 8 (lq_price t) @ le_bytes 8 (lq_quantity_with_flags t)"

section \<open>Flags, counts and names\<close>

lemma mask_consts:
  "(0x7F :: u8) = mask 7" "(0x80 :: u8) = push_bit 7 1" "(0x7FFFFFFFFFFFFFFF :: u64) = mask 63"
  by (simp_all add: mask_eq_exp_minus_1)

lemma flag_bits: "7 < LENGTH(8)" "63 < LENGTH(64)" "LENGTH(64) = Suc 63"
  by simp_all

lemmas flag8 = flag_above_mask [where 'a = 8 and n = 7, OF flag_bits(1)] push_bit_one_nonzero [where 'a = 8 and n = 7, OF flag_bits(1)]
lemmas flag64 = flag_above_mask [where 'a = 64 and n = 63, OF flag_bits(2)] push_bit_one_nonzero [where 'a = 64 and n = 63, OF flag_bits(2)]

lemma h_flags_set_flags:
  "h_flags_and_count (set_flags_and_count final n h) =
     (if final then (min n 80 AND 0x7F) OR 0x80 else min n 80 AND 0x7F)"
  by (simp add: set_flags_and_count_def)

lemma is_last_set_flags [simp]: "is_last (set_flags_and_count final n h) = final"
  unfolding is_last_def h_flags_set_flags mask_consts
  by (cases final) (simp_all only: flag8 if_True if_False simp_thms)

lemma item_count_set_flags: "item_count (set_flags_and_count final n h) = min n 80"
proof -
  have "unat (min n 80 :: u8) < 2 ^ 7"
    by (cases "n \<le> 80") (auto simp: min_def word_le_nat_alt)
  moreover have "item_count (set_flags_and_count final n h) = min n 80 AND mask 7"
    unfolding item_count_def h_flags_set_flags mask_consts
    by (cases final) (simp_all only: flag8 if_True if_False and.assoc and.idem)
  ultimately show ?thesis using and_mask_small by metis
qed

lemma unat_item_count_set_flags:
  "k \<le> 80 \<Longrightarrow> unat (item_count (set_flags_and_count final (of_nat k) h)) = k"
  by (simp add: item_count_set_flags min_def word_le_nat_alt unat_of_nat_small)

lemma set_flags_simps [simp]:
  "h_symbol (set_flags_and_count final n h) = h_symbol h"
  "h_exchange (set_flags_and_count final n h) = h_exchange h"
  "h_message_type (set_flags_and_count final n h) = h_message_type h"
  "h_sequence_number (set_flags_and_count final n h) = h_sequence_number h"
  "h_exchange_timestamp (set_flags_and_count final n h) = h_exchange_timestamp h"
  "h_local_timestamp (set_flags_and_count final n h) = h_local_timestamp h"
  "h_protocol_version (set_flags_and_count final n h) = h_protocol_version h"
  by (simp_all add: set_flags_and_count_def Let_def)

lemma name_char_codes:
  "name_char c \<longleftrightarrow> is_ascii_alphanumeric c \<or> code_of c = 94 \<or> code_of c = 45 \<or> code_of c = 95"
  unfolding name_char_def by (simp add: code_of_inj [symmetric]) (simp add: code_of_def)

lemma name_char_plain: "name_char c \<Longrightarrow> plain_char c \<and> code_of c \<noteq> 0"
  by (auto simp: name_char_def is_ascii_alphanumeric_def plain_char_def) (auto simp: code_of_def)

lemma length_name_bytes [simp]: "length (name_bytes s) = 20"
  by (simp add: name_bytes_def Let_def)

lemma header_valid_new [simp]: "header_valid header_new"
  by (simp add: header_valid_def header_new_def)

lemma header_valid_set_symbol [simp]: "header_valid h \<Longrightarrow> header_valid (set_symbol s h)"
  and header_valid_set_exchange [simp]: "header_valid h \<Longrightarrow> header_valid (set_exchange s h)"
  and header_valid_set_flags [simp]: "header_valid (set_flags_and_count final n h) \<longleftrightarrow> header_valid h"
  by (simp_all add: header_valid_def set_symbol_def set_exchange_def)

lemma sanitized_chars: "c \<in> set (sanitized s) \<Longrightarrow> name_char c"
  by (simp add: sanitized_def)

text \<open>Trimming before the filter changes nothing, because no white space passes the filter.\<close>

lemma ws_not_name: "w \<in> set ws_strings \<Longrightarrow> c \<in> set w \<Longrightarrow> \<not> name_char c"
proof -
  let ?P = "\<lambda>b. b < 256 \<and> (b < 45 \<or> 122 < b)"
  have "list_all (list_all ?P) ws_codes" by (simp add: ws_codes_def upt_rec)
  moreover assume "w \<in> set ws_strings" "c \<in> set w"
  ultimately obtain b :: nat where "c = char_of b" "?P b"
    by (auto simp: ws_strings_def list_all_iff)
  moreover from this have "code_of c = b" by (simp add: code_of_def)
  ultimately show "\<not> name_char c"
    by (simp only: name_char_codes is_ascii_alphanumeric_def) linarith
qed

lemma sanitized_filter: "sanitized s = filter name_char s"
  unfolding sanitized_def by (rule filter_trim) (rule ws_not_name)

lemma name_bytes_split:
  "name_bytes s = as_bytes (take 19 (sanitized s)) @ replicate (20 - min (length (sanitized s)) 19) 0"
  by (simp add: name_bytes_def Let_def as_bytes_def take_map min_def)

section \<open>Fixed point\<close>

lemma scaled_by_eq: "sint (scaled_by 100000000 x) = f64_trunc (f64_mul x (f64_of_int 100000000))"
  by (simp add: scaled_by_def f64_of_i64_def)

lemma scales: "PRICE_SCALE = 100000000" "QUANTITY_SCALE = 100000000" "FUNDING_RATE_SCALE = 100000000"
  by (simp_all add: PRICE_SCALE_def QUANTITY_SCALE_def FUNDING_RATE_SCALE_def)

lemma flag_of_with_flag [simp]: "flag_of (with_flag q b) = b"
  unfolding flag_of_def with_flag_def Let_def mask_consts
  by (cases b) (simp_all only: flag64 if_True if_False simp_thms)

lemma quantity_of_with_flag: "quantity_of (with_flag q b) = quantity_of q"
  unfolding quantity_of_def with_flag_def Let_def mask_consts
  by (cases b) (simp_all only: flag64 if_True if_False and.assoc and.idem)

lemma with_flag_rev: "with_flag (quantity_of w) (flag_of w) = w"
  unfolding flag_of_def quantity_of_def with_flag_def Let_def mask_consts and.assoc and.idem
  by (rule flag_above_mask_rev [OF flag_bits(3)])

lemma uint_quantity_of: "uint (quantity_of w) = uint w mod 2 ^ 63"
  unfolding quantity_of_def mask_consts take_bit_eq_mask [symmetric] unsigned_take_bit_eq
  by (simp add: take_bit_eq_mod)

lemma sint_quantity_of: "sint (quantity_of w) = sint w mod 2 ^ 63"
proof -
  have "uint w = sint w mod 2 ^ 64" using uint_sint [of w] by (simp add: take_bit_eq_mod)
  then have u: "uint w mod 2 ^ 63 = sint w mod 2 ^ 63" by (simp add: mod_mod_cancel)
  have "uint (quantity_of w) < 2 ^ 63" unfolding uint_quantity_of by simp
  moreover have "- (2 ^ 63) \<le> uint (quantity_of w)" by (rule order_trans [of _ 0]) simp_all
  ultimately have "sint (quantity_of w) = uint (quantity_of w)"
    using signed_take_bit_int_eq_self [of 63 "uint (quantity_of w)"] by (simp add: sint_uint)
  then show ?thesis unfolding uint_quantity_of u .
qed

lemma ob_new_simps [simp]:
  "ob_price (order_book_item_new p q a) = scaled_by PRICE_SCALE p"
  "ob_quantity_with_flags (order_book_item_new p q a) = with_flag (scaled_by QUANTITY_SCALE q) a"
  by (simp_all add: order_book_item_new_def book_set_quantity_and_flag_def Let_def)

lemma tt_new_simps [simp]:
  "tt_price (trade_tick_item_new p q a) = scaled_by PRICE_SCALE p"
  "tt_quantity_with_flags (trade_tick_item_new p q a) = with_flag (scaled_by QUANTITY_SCALE q) a"
  by (simp_all add: trade_tick_item_new_def trade_set_quantity_and_flag_def Let_def)

end
