(* ===== verification/Events.thy ===== *)
theory Events
  imports Protocol
begin

text \<open>
  \<^verbatim>\<open>src/src/events.rs\<close>: the five system events, each a packed struct of 16 bytes, their message types,
  payloads and the names shown in the packet header. The reads are the raw copies that a receiver of
  the event makes; the codec contract holds for each struct.
\<close>

section \<open>Data\<close>

definition MESSAGE_TYPE_SYSTEM_HEARTBEAT :: u8 where "MESSAGE_TYPE_SYSTEM_HEARTBEAT = 100"
definition MESSAGE_TYPE_CONNECTION_STATUS :: u8 where "MESSAGE_TYPE_CONNECTION_STATUS = 101"
definition MESSAGE_TYPE_SUBSCRIPTION_STATUS :: u8 where "MESSAGE_TYPE_SUBSCRIPTION_STATUS = 102"
definition MESSAGE_TYPE_SYSTEM_STATS :: u8 where "MESSAGE_TYPE_SYSTEM_STATS = 103"
definition MESSAGE_TYPE_ERROR_EVENT :: u8 where "MESSAGE_TYPE_ERROR_EVENT = 104"

definition EXCHANGE_ID_BINANCE :: u16 where "EXCHANGE_ID_BINANCE = 1"
definition EXCHANGE_ID_OKX :: u16 where "EXCHANGE_ID_OKX = 2"
definition EXCHANGE_ID_BYBIT :: u16 where "EXCHANGE_ID_BYBIT = 3"
definition EXCHANGE_ID_UPBIT :: u16 where "EXCHANGE_ID_UPBIT = 4"
definition EXCHANGE_ID_BITHUMB :: u16 where "EXCHANGE_ID_BITHUMB = 5"
definition EXCHANGE_ID_COINBASE :: u16 where "EXCHANGE_ID_COINBASE = 6"

definition CONNECTION_STATUS_DISCONNECTED :: u8 where "CONNECTION_STATUS_DISCONNECTED = 0"
definition CONNECTION_STATUS_CONNECTING :: u8 where "CONNECTION_STATUS_CONNECTING = 1"
definition CONNECTION_STATUS_CONNECTED :: u8 where "CONNECTION_STATUS_CONNECTED = 2"
definition CONNECTION_STATUS_RECONNECTING :: u8 where "CONNECTION_STATUS_RECONNECTING = 3"
definition CONNECTION_STATUS_FAILED :: u8 where "CONNECTION_STATUS_FAILED = 4"

lemmas event_types = MESSAGE_TYPE_SYSTEM_HEARTBEAT_def MESSAGE_TYPE_CONNECTION_STATUS_def
  MESSAGE_TYPE_SUBSCRIPTION_STATUS_def MESSAGE_TYPE_SYSTEM_STATS_def MESSAGE_TYPE_ERROR_EVENT_def

lemmas exchange_ids = EXCHANGE_ID_BINANCE_def EXCHANGE_ID_OKX_def EXCHANGE_ID_BYBIT_def
  EXCHANGE_ID_UPBIT_def EXCHANGE_ID_BITHUMB_def EXCHANGE_ID_COINBASE_def

lemmas connection_statuses = CONNECTION_STATUS_DISCONNECTED_def CONNECTION_STATUS_CONNECTING_def
  CONNECTION_STATUS_CONNECTED_def CONNECTION_STATUS_RECONNECTING_def CONNECTION_STATUS_FAILED_def

record system_heartbeat =
  hb_uptime_seconds :: u64
  hb_active_connections :: u32
  hb_total_packets_sent :: u32

record connection_status =
  cs_exchange_id :: u16
  cs_previous_status :: u8
  cs_current_status :: u8
  cs_retry_count :: u32
  cs_error_code :: u64

record subscription_status =
  ss_exchange_id :: u16
  ss_subscription_type :: u8
  ss_status :: u8
  ss_symbol_short :: "u8 list"

record system_stats =
  st_cpu_usage_percent :: u32
  st_memory_usage_mb :: u32
  st_packets_per_second :: u32
  st_bytes_per_second :: u32

record error_event =
  ee_error_type :: u32
  ee_exchange_id :: u16
  ee_severity :: u16
  ee_error_details :: u64

datatype system_event =
    Heartbeat system_heartbeat
  | ConnectionStatus connection_status
  | SubscriptionStatus subscription_status
  | SystemStats system_stats
  | ErrorEvent error_event

section \<open>Constructors\<close>

definition system_heartbeat_new :: "u64 \<Rightarrow> u32 \<Rightarrow> u32 \<Rightarrow> system_heartbeat" where
  "system_heartbeat_new uptime active sent =
     \<lparr> hb_uptime_seconds = uptime, hb_active_connections = active, hb_total_packets_sent = sent \<rparr>"

definition connection_status_new :: "u16 \<Rightarrow> u8 \<Rightarrow> u8 \<Rightarrow> u32 \<Rightarrow> u64 \<Rightarrow> connection_status" where
  "connection_status_new eid prev cur retries code =
     \<lparr> cs_exchange_id = eid, cs_previous_status = prev, cs_current_status = cur,
       cs_retry_count = retries, cs_error_code = code \<rparr>"

definition subscription_status_new :: "u16 \<Rightarrow> u8 \<Rightarrow> u8 \<Rightarrow> string \<Rightarrow> subscription_status" where
  "subscription_status_new eid typ status symbol =
     (let bytes = as_bytes symbol; len = min (length bytes) 11 in
      \<lparr> ss_exchange_id = eid, ss_subscription_type = typ, ss_status = status,
        ss_symbol_short = take len bytes @ drop len (replicate 12 0) \<rparr>)"

definition system_stats_new :: "u32 \<Rightarrow> u32 \<Rightarrow> u32 \<Rightarrow> u32 \<Rightarrow> system_stats" where
  "system_stats_new cpu mem pps bps =
     \<lparr> st_cpu_usage_percent = cpu, st_memory_usage_mb = mem, st_packets_per_second = pps,
       st_bytes_per_second = bps \<rparr>"

definition error_event_new :: "u32 \<Rightarrow> u16 \<Rightarrow> u16 \<Rightarrow> u64 \<Rightarrow> error_event" where
  "error_event_new typ eid severity details =
     \<lparr> ee_error_type = typ, ee_exchange_id = eid, ee_severity = severity, ee_error_details = details \<rparr>"

section \<open>Bytes\<close>

definition heartbeat_to_bytes :: "system_heartbeat \<Rightarrow> u8 list" where
  "heartbeat_to_bytes h = le_bytes 8 (hb_uptime_seconds h) @ le_bytes 4 (hb_active_connections h)
     @ le_bytes 4 (hb_total_packets_sent h)"

definition connection_status_to_bytes :: "connection_status \<Rightarrow> u8 list" where
  "connection_status_to_bytes c = le_bytes 2 (cs_exchange_id c) @ le_bytes 1 (cs_previous_status c)
     @ le_bytes 1 (cs_current_status c) @ le_bytes 4 (cs_retry_count c) @ le_bytes 8 (cs_error_code c)"

definition subscription_status_to_bytes :: "subscription_status \<Rightarrow> u8 list" where
  "subscription_status_to_bytes s = le_bytes 2 (ss_exchange_id s) @ le_bytes 1 (ss_subscription_type s)
     @ le_bytes 1 (ss_status s) @ ss_symbol_short s"

definition system_stats_to_bytes :: "system_stats \<Rightarrow> u8 list" where
  "system_stats_to_bytes s = le_bytes 4 (st_cpu_usage_percent s) @ le_bytes 4 (st_memory_usage_mb s)
     @ le_bytes 4 (st_packets_per_second s) @ le_bytes 4 (st_bytes_per_second s)"

definition error_event_to_bytes :: "error_event \<Rightarrow> u8 list" where
  "error_event_to_bytes e = le_bytes 4 (ee_error_type e) @ le_bytes 2 (ee_exchange_id e)
     @ le_bytes 2 (ee_severity e) @ le_bytes 8 (ee_error_details e)"

section \<open>Reading them back\<close>

definition heartbeat_read :: "u8 list \<Rightarrow> system_heartbeat" where
  "heartbeat_read bs = \<lparr> hb_uptime_seconds = of_le_bytes (field 0 8 bs),
     hb_active_connections = of_le_bytes (field 8 4 bs), hb_total_packets_sent = of_le_bytes (field 12 4 bs) \<rparr>"

definition connection_status_read :: "u8 list \<Rightarrow> connection_status" where
  "connection_status_read bs = \<lparr> cs_exchange_id = of_le_bytes (field 0 2 bs),
     cs_previous_status = of_le_bytes (field 2 1 bs), cs_current_status = of_le_bytes (field 3 1 bs),
     cs_retry_count = of_le_bytes (field 4 4 bs), cs_error_code = of_le_bytes (field 8 8 bs) \<rparr>"

definition subscription_status_read :: "u8 list \<Rightarrow> subscription_status" where
  "subscription_status_read bs = \<lparr> ss_exchange_id = of_le_bytes (field 0 2 bs),
     ss_subscription_type = of_le_bytes (field 2 1 bs), ss_status = of_le_bytes (field 3 1 bs),
     ss_symbol_short = field 4 12 bs \<rparr>"

definition system_stats_read :: "u8 list \<Rightarrow> system_stats" where
  "system_stats_read bs = \<lparr> st_cpu_usage_percent = of_le_bytes (field 0 4 bs),
     st_memory_usage_mb = of_le_bytes (field 4 4 bs), st_packets_per_second = of_le_bytes (field 8 4 bs),
     st_bytes_per_second = of_le_bytes (field 12 4 bs) \<rparr>"

definition error_event_read :: "u8 list \<Rightarrow> error_event" where
  "error_event_read bs = \<lparr> ee_error_type = of_le_bytes (field 0 4 bs),
     ee_exchange_id = of_le_bytes (field 4 2 bs), ee_severity = of_le_bytes (field 6 2 bs),
     ee_error_details = of_le_bytes (field 8 8 bs) \<rparr>"

definition subscription_valid :: "subscription_status \<Rightarrow> bool" where
  "subscription_valid s \<longleftrightarrow> length (ss_symbol_short s) = 12"

lemma subscription_valid_new [simp]: "subscription_valid (subscription_status_new eid typ status symbol)"
  by (simp add: subscription_valid_def subscription_status_new_def Let_def)

interpretation heartbeat_codec: codec heartbeat_to_bytes heartbeat_read 16 "\<lambda>_. True"
  by unfold_locales (simp_all add: heartbeat_to_bytes_def heartbeat_read_def wire_simps)

interpretation connection_status_codec: codec connection_status_to_bytes connection_status_read 16 "\<lambda>_. True"
  by unfold_locales (simp_all add: connection_status_to_bytes_def connection_status_read_def wire_simps)

interpretation subscription_status_codec: codec subscription_status_to_bytes subscription_status_read 16 subscription_valid
  by unfold_locales
    (simp_all add: subscription_status_to_bytes_def subscription_status_read_def subscription_valid_def wire_simps)

interpretation system_stats_codec: codec system_stats_to_bytes system_stats_read 16 "\<lambda>_. True"
  by unfold_locales (simp_all add: system_stats_to_bytes_def system_stats_read_def wire_simps)

interpretation error_event_codec: codec error_event_to_bytes error_event_read 16 "\<lambda>_. True"
  by unfold_locales (simp_all add: error_event_to_bytes_def error_event_read_def wire_simps)

section \<open>The event as a whole\<close>

fun get_message_type :: "system_event \<Rightarrow> u8" where
  "get_message_type (Heartbeat _) = MESSAGE_TYPE_SYSTEM_HEARTBEAT"
| "get_message_type (ConnectionStatus _) = MESSAGE_TYPE_CONNECTION_STATUS"
| "get_message_type (SubscriptionStatus _) = MESSAGE_TYPE_SUBSCRIPTION_STATUS"
| "get_message_type (SystemStats _) = MESSAGE_TYPE_SYSTEM_STATS"
| "get_message_type (ErrorEvent _) = MESSAGE_TYPE_ERROR_EVENT"

fun get_payload_bytes :: "system_event \<Rightarrow> u8 list" where
  "get_payload_bytes (Heartbeat h) = heartbeat_to_bytes h"
| "get_payload_bytes (ConnectionStatus c) = connection_status_to_bytes c"
| "get_payload_bytes (SubscriptionStatus s) = subscription_status_to_bytes s"
| "get_payload_bytes (SystemStats s) = system_stats_to_bytes s"
| "get_payload_bytes (ErrorEvent e) = error_event_to_bytes e"

definition until_null :: "u8 list \<Rightarrow> string" where
  "until_null bs = from_utf8_lossy (takeWhile (\<lambda>b. b \<noteq> 0) bs)"

fun get_symbol :: "system_event \<Rightarrow> string" where
  "get_symbol (SubscriptionStatus s) = until_null (ss_symbol_short s)"
| "get_symbol _ = ''SYSTEM''"

definition exchange_of_id :: "u16 \<Rightarrow> string" where
  "exchange_of_id i =
     (if i = EXCHANGE_ID_BINANCE then ''binance'' else if i = EXCHANGE_ID_OKX then ''okx''
      else if i = EXCHANGE_ID_BYBIT then ''bybit'' else if i = EXCHANGE_ID_UPBIT then ''upbit''
      else if i = EXCHANGE_ID_BITHUMB then ''bithumb'' else if i = EXCHANGE_ID_COINBASE then ''coinbase''
      else ''unknown'')"

fun get_exchange :: "system_event \<Rightarrow> string" where
  "get_exchange (ConnectionStatus c) = exchange_of_id (cs_exchange_id c)"
| "get_exchange (SubscriptionStatus s) = exchange_of_id (ss_exchange_id s)"
| "get_exchange (ErrorEvent e) = exchange_of_id (ee_exchange_id e)"
| "get_exchange _ = ''FEEDER''"

definition exchange_name_to_id :: "string \<Rightarrow> u16" where
  "exchange_name_to_id name =
     (let n = to_lowercase name in
      if n = ''binance'' then EXCHANGE_ID_BINANCE else if n = ''okx'' then EXCHANGE_ID_OKX
      else if n = ''bybit'' then EXCHANGE_ID_BYBIT else if n = ''upbit'' then EXCHANGE_ID_UPBIT
      else if n = ''bithumb'' then EXCHANGE_ID_BITHUMB else if n = ''coinbase'' then EXCHANGE_ID_COINBASE
      else 0)"

fun event_valid :: "system_event \<Rightarrow> bool" where
  "event_valid (SubscriptionStatus s) = subscription_valid s"
| "event_valid _ = True"

lemma length_payload [simp]: "event_valid e \<Longrightarrow> length (get_payload_bytes e) = 16"
  by (cases e)
    (simp_all add: heartbeat_codec.enc_length connection_status_codec.enc_length
      subscription_status_codec.enc_length system_stats_codec.enc_length error_event_codec.enc_length)

lemma length_payload_ge: "\<not> event_valid e \<Longrightarrow> \<exists>s. e = SubscriptionStatus s"
  by (cases e) auto

end
