(* ===== verification/Market_Data.thy ===== *)
theory Market_Data
  imports Rust_Sort Rust_Str
begin

text \<open>
  The standardised market data of \<^verbatim>\<open>src/src/data_parser.rs\<close>: what the parser produces and the packet
  builder consumes. Prices and quantities are binary64 values, timestamps nanoseconds in 64 bits.
\<close>

record standardized_trade =
  t_symbol :: string
  t_exchange :: string
  t_price :: f64
  t_quantity :: f64
  t_is_buyer_taker :: bool
  t_timestamp :: u64

record standardized_trade_batch =
  tb_symbol :: string
  tb_exchange :: string
  tb_exchange_timestamp :: u64
  tb_trades :: "standardized_trade list"

record order_book_level =
  l_price :: f64
  l_quantity :: f64

record standardized_order_book_update =
  o_symbol :: string
  o_exchange :: string
  o_bids :: "order_book_level list"
  o_asks :: "order_book_level list"
  o_timestamp :: u64

text \<open>The struct variants of \<^verbatim>\<open>ParsedData\<close> take their fields in the order of the source.\<close>

datatype parsed_data =
    Trade standardized_trade
  | TradeBatch standardized_trade_batch
  | OrderBook standardized_order_book_update
  | IndexPrice string string f64 u64
  | MarkPrice string string f64 u64
  | FundingRate string string f64 u64
  | Liquidation string string f64 f64 bool u64
  | Multi "parsed_data list"

end
