(* ===== verification/Packet_Builder.thy ===== *)
theory Packet_Builder
  imports Protocol Events Market_Data
begin

text \<open>
  \<^verbatim>\<open>src/src/packet_builder.rs\<close>: from standardised data to UDP packets. The builder's state is passed
  explicitly; an operation returns its \<^verbatim>\<open>Result\<close> and the state after it. What the operations take from
  the run-time environment is the record \<open>build_env\<close>: the system clock at its \<open>n\<close>-th reading (in
  nanoseconds from the Unix epoch, negative before it), and the order in which the \<open>n\<close>-th hash map
  made by the builder gives its keys, which Rust leaves unspecified. Two ghost counters of the state
  number the readings and the maps.
\<close>

section \<open>State and environment\<close>

record vec_u8 =
  v_bytes :: "u8 list"
  v_capacity :: nat

record payload_pool =
  pp_queue :: "vec_u8 list"
  pp_size :: nat \<comment> \<open>the fixed capacity of the \<^verbatim>\<open>ArrayQueue\<close>\<close>
  pp_buf_capacity :: nat

record packet_builder =
  pb_sequence_counter :: u64
  pb_payload_pool :: payload_pool
  pb_clock_reads :: nat
  pb_maps_made :: nat

record udp_packet =
  u_data :: "u8 list"
  u_size :: nat

record build_env =
  clk :: "nat \<Rightarrow> int"
  ts_order :: "nat \<Rightarrow> u64 list \<Rightarrow> u64 list"
  key_order :: "nat \<Rightarrow> (string \<times> string) list \<Rightarrow> (string \<times> string) list"

definition env_ok :: "build_env \<Rightarrow> bool" where
  "env_ok env \<longleftrightarrow> (\<forall>n ks. mset (ts_order env n ks) = mset ks) \<and> (\<forall>n ks. mset (key_order env n ks) = mset ks)"

section \<open>The payload pool\<close>

definition vec_with_capacity :: "nat \<Rightarrow> vec_u8" where
  "vec_with_capacity n = \<lparr> v_bytes = [], v_capacity = n \<rparr>"

definition pool_push :: "vec_u8 \<Rightarrow> payload_pool \<Rightarrow> payload_pool" where
  "pool_push b p = (if length (pp_queue p) < pp_size p then p\<lparr>pp_queue := pp_queue p @ [b]\<rparr> else p)"

definition pool_with_capacity :: "nat \<Rightarrow> nat \<Rightarrow> payload_pool" where
  "pool_with_capacity pool_size buf_capacity =
     (let queue = \<lparr> pp_queue = [], pp_size = pool_size, pp_buf_capacity = buf_capacity \<rparr> in
      (pool_push (vec_with_capacity buf_capacity) ^^ min pool_size 64) queue)"

definition acquire_buffer :: "nat \<Rightarrow> payload_pool \<Rightarrow> vec_u8 \<times> payload_pool" where
  "acquire_buffer min_len p =
     (case pp_queue p of
        buf # rest \<Rightarrow>
          let buf' = (if v_capacity buf < min_len then vec_with_capacity (max min_len (pp_buf_capacity p)) else buf)
          in (buf'\<lparr>v_bytes := []\<rparr>, p\<lparr>pp_queue := rest\<rparr>)
      | [] \<Rightarrow> (vec_with_capacity (max min_len (pp_buf_capacity p)), p))"

definition release_buffer :: "vec_u8 \<Rightarrow> payload_pool \<Rightarrow> payload_pool" where
  "release_buffer buf p = pool_push (buf\<lparr>v_bytes := []\<rparr>) p"

section \<open>Basic steps\<close>

definition packet_builder_new :: packet_builder where
  "packet_builder_new = \<lparr> pb_sequence_counter = 1, pb_payload_pool = pool_with_capacity 1024 1400,
     pb_clock_reads = 0, pb_maps_made = 0 \<rparr>"

definition fetch_add :: "packet_builder \<Rightarrow> u64 \<times> packet_builder" where
  "fetch_add s = (pb_sequence_counter s, s\<lparr>pb_sequence_counter := pb_sequence_counter s + 1\<rparr>)"

definition nanos_at :: "build_env \<Rightarrow> nat \<Rightarrow> u64" where
  "nanos_at env k = (if clk env k < 0 then 0 else of_int (clk env k))"

definition get_current_timestamp_nanos :: "build_env \<Rightarrow> packet_builder \<Rightarrow> u64 \<times> packet_builder" where
  "get_current_timestamp_nanos env s =
     (nanos_at env (pb_clock_reads s), s\<lparr>pb_clock_reads := Suc (pb_clock_reads s)\<rparr>)"

definition get_sequence_number :: "packet_builder \<Rightarrow> u64" where
  "get_sequence_number s = pb_sequence_counter s"

definition setup_header ::
  "build_env \<Rightarrow> packet_header \<Rightarrow> string \<Rightarrow> string \<Rightarrow> u8 \<Rightarrow> u64 \<Rightarrow> packet_builder \<Rightarrow> packet_header \<times> packet_builder"
where
  "setup_header env header symbol exchange message_type exchange_timestamp s =
     (let h = header\<lparr>h_protocol_version := 1\<rparr>;
          (sequence, s1) = fetch_add s;
          h = h\<lparr>h_sequence_number := sequence\<rparr>;
          h = h\<lparr>h_exchange_timestamp := exchange_timestamp\<rparr>;
          (now, s2) = get_current_timestamp_nanos env s1;
          h = h\<lparr>h_local_timestamp := now\<rparr>;
          h = h\<lparr>h_message_type := message_type\<rparr>;
          h = set_symbol symbol h;
          h = set_exchange exchange h
      in (h, s2))"

text \<open>The text of the size error, as an English gloss.\<close>

definition mtu_error :: crypto_feeder_error where
  "mtu_error = SerializationError ''packet size exceeds the MTU''"

definition create_packet :: "packet_header \<Rightarrow> u8 list list \<Rightarrow> udp_packet result" where
  "create_packet header item_bytes =
     (let packet_data = fold (\<lambda>item d. d @ item) item_bytes (header_to_bytes header) in
      if 1472 < length packet_data then Err mtu_error
      else Ok \<lparr> u_data = packet_data, u_size = length packet_data \<rparr>)"

definition create_packet_from_flat :: "packet_header \<Rightarrow> u8 list \<Rightarrow> udp_packet result" where
  "create_packet_from_flat header items_flat =
     (let packet_data = header_to_bytes header @ items_flat in
      if 1472 < length packet_data then Err mtu_error
      else Ok \<lparr> u_data = packet_data, u_size = length packet_data \<rparr>)"

section \<open>Trades\<close>

definition cmp_trades :: "standardized_trade \<Rightarrow> standardized_trade \<Rightarrow> ordering" where
  "cmp_trades a b =
     (case (t_is_buyer_taker a, t_is_buyer_taker b) of
        (True, True) \<Rightarrow> cmp_f64 (t_price a) (t_price b)
      | (False, False) \<Rightarrow> cmp_f64 (t_price b) (t_price a)
      | (True, False) \<Rightarrow> Less
      | (False, True) \<Rightarrow> Greater)"

definition trade_item :: "standardized_trade \<Rightarrow> trade_tick_item" where
  "trade_item t = trade_tick_item_new (t_price t) (t_quantity t) (t_is_buyer_taker t)"

definition build_trade_batch_packets ::
  "build_env \<Rightarrow> standardized_trade_batch \<Rightarrow> packet_builder \<Rightarrow> udp_packet list result \<times> packet_builder"
where
  "build_trade_batch_packets env batch s =
     (if tb_trades batch = [] then (Ok [], s)
      else
        let trades = sort_by cmp_trades (tb_trades batch);
            cs = chunks 80 trades;
            total_chunks = length cs
        in try_collect
             (\<lambda>(chunk_index, chunk) s.
                let (header, s1) = setup_header env header_new (tb_symbol batch) (tb_exchange batch)
                      MESSAGE_TYPE_TRADE_TICK (tb_exchange_timestamp batch) s;
                    final = (chunk_index = total_chunks - 1);
                    header = set_flags_and_count final (of_nat (length chunk)) header;
                    needed = length chunk * 16;
                    (buf, pool) = acquire_buffer needed (pb_payload_pool s1);
                    s2 = s1\<lparr>pb_payload_pool := pool\<rparr>;
                    flat = fold (\<lambda>t b. trade_append_to_vec (trade_item t) b) chunk (v_bytes buf)
                in (create_packet_from_flat header flat, s2))
             (enumerate 0 cs) s)"

text \<open>
  Hash maps from keys to vectors, with their entries in the order of first insertion; \<open>hm_iter\<close> visits
  them in the order that the environment gives.
\<close>

fun hm_push :: "'k \<Rightarrow> 'v \<Rightarrow> ('k \<times> 'v list) list \<Rightarrow> ('k \<times> 'v list) list" where
  "hm_push k v [] = [(k, [v])]"
| "hm_push k v ((k', vs) # m) = (if k' = k then (k', vs @ [v]) # m else (k', vs) # hm_push k v m)"

definition hm_group :: "('v \<Rightarrow> 'k) \<Rightarrow> 'v list \<Rightarrow> ('k \<times> 'v list) list" where
  "hm_group key xs = fold (\<lambda>x m. hm_push (key x) x m) xs []"

definition hm_iter :: "('k list \<Rightarrow> 'k list) \<Rightarrow> ('k \<times> 'v list) list \<Rightarrow> ('k \<times> 'v list) list" where
  "hm_iter ord m = map (\<lambda>k. (k, the (map_of m k))) (ord (map fst m))"

definition new_map :: "packet_builder \<Rightarrow> nat \<times> packet_builder" where
  "new_map s = (pb_maps_made s, s\<lparr>pb_maps_made := Suc (pb_maps_made s)\<rparr>)"

definition build_symbol_group ::
  "build_env \<Rightarrow> u64 \<Rightarrow> (string \<times> string) \<times> standardized_trade list \<Rightarrow> packet_builder
     \<Rightarrow> udp_packet list result \<times> packet_builder"
where
  "build_symbol_group env timestamp grp s =
     (case grp of ((symbol, exchange), symbol_trades) \<Rightarrow>
        let trade_items = map (\<lambda>t. trade_to_bytes (trade_item t)) symbol_trades;
            cs = chunks 50 trade_items;
            total_chunks = length cs
        in try_collect
             (\<lambda>(chunk_index, chunk) s.
                let (header, s1) = setup_header env header_new symbol exchange MESSAGE_TYPE_TRADE_TICK timestamp s;
                    final = (chunk_index = total_chunks - 1);
                    header = set_flags_and_count final (of_nat (length chunk)) header
                in (create_packet header chunk, s1))
             (enumerate 0 cs) s)"

definition build_timestamp_group ::
  "build_env \<Rightarrow> u64 \<times> standardized_trade list \<Rightarrow> packet_builder \<Rightarrow> udp_packet list result \<times> packet_builder"
where
  "build_timestamp_group env grp s =
     (case grp of (timestamp, trades_in_group) \<Rightarrow>
        if trades_in_group = [] then (Ok [], s)
        else
          let sorted = sort_by cmp_trades trades_in_group;
              (n, s1) = new_map s;
              symbol_groups = hm_group (\<lambda>t. (t_symbol t, t_exchange t)) sorted
          in try_extend (build_symbol_group env timestamp) (hm_iter (key_order env n) symbol_groups) s1)"

definition build_trade_packets_batch ::
  "build_env \<Rightarrow> standardized_trade list \<Rightarrow> packet_builder \<Rightarrow> udp_packet list result \<times> packet_builder"
where
  "build_trade_packets_batch env trades s =
     (if trades = [] then (Ok [], s)
      else
        let (n, s1) = new_map s;
            trade_groups = hm_group t_timestamp trades
        in try_extend (build_timestamp_group env) (hm_iter (ts_order env n) trade_groups) s1)"

definition build_trade_packets ::
  "build_env \<Rightarrow> standardized_trade \<Rightarrow> packet_builder \<Rightarrow> udp_packet list result \<times> packet_builder"
where
  "build_trade_packets env trade s = build_trade_packets_batch env [trade] s"

section \<open>Order books\<close>

definition book_items :: "bool \<Rightarrow> order_book_level list \<Rightarrow> order_book_item list" where
  "book_items is_ask ls =
     map (\<lambda>l. order_book_item_new (l_price l) (l_quantity l) is_ask) (filter (\<lambda>l. f64_zero < l_quantity l) ls)"

definition cmp_bids :: "order_book_level \<Rightarrow> order_book_level \<Rightarrow> ordering" where
  "cmp_bids a b = cmp_f64 (l_price b) (l_price a)"

definition cmp_asks :: "order_book_level \<Rightarrow> order_book_level \<Rightarrow> ordering" where
  "cmp_asks a b = cmp_f64 (l_price a) (l_price b)"

definition build_order_book_packets ::
  "build_env \<Rightarrow> standardized_order_book_update \<Rightarrow> packet_builder \<Rightarrow> udp_packet list result \<times> packet_builder"
where
  "build_order_book_packets env order_book s =
     (let bids = sort_by cmp_bids (o_bids order_book);
          asks = sort_by cmp_asks (o_asks order_book);
          all_items = book_items False bids @ book_items True asks
      in if all_items = [] then (Ok [], s)
         else
           let cs = chunks 80 all_items; total_chunks = length cs
           in try_collect
                (\<lambda>(chunk_index, chunk) s.
                   let (header, s1) = setup_header env header_new (o_symbol order_book) (o_exchange order_book)
                         MESSAGE_TYPE_ORDER_BOOK (o_timestamp order_book) s;
                       final = (chunk_index = total_chunks - 1);
                       header = set_flags_and_count final (of_nat (length chunk)) header;
                       needed = length chunk * 16;
                       (buf, pool) = acquire_buffer needed (pb_payload_pool s1);
                       s2 = s1\<lparr>pb_payload_pool := pool\<rparr>;
                       flat = fold book_append_to_vec chunk (v_bytes buf)
                   in (create_packet_from_flat header flat, s2))
                (enumerate 0 cs) s)"

section \<open>Single values, liquidations, events\<close>

definition build_single_value_packet ::
  "build_env \<Rightarrow> string \<Rightarrow> string \<Rightarrow> u8 \<Rightarrow> u64 \<Rightarrow> i64 \<Rightarrow> packet_builder \<Rightarrow> udp_packet result \<times> packet_builder"
where
  "build_single_value_packet env symbol exchange message_type exchange_timestamp value_scaled s =
     (let (header, s1) = setup_header env header_new symbol exchange message_type exchange_timestamp s;
          header = set_flags_and_count True 1 header
      in if message_type = MESSAGE_TYPE_INDEX_PRICE \<or> message_type = MESSAGE_TYPE_MARK_PRICE
         then (create_packet header [price_value_to_bytes \<lparr> pv_value = value_scaled \<rparr>], s1)
         else if message_type = MESSAGE_TYPE_FUNDING_RATE
         then (create_packet header [funding_rate_to_bytes \<lparr> fr_value = value_scaled \<rparr>], s1)
         else (Err (Other ''invalid single value message_type''), s1))"

definition build_liquidation_packet ::
  "build_env \<Rightarrow> string \<Rightarrow> string \<Rightarrow> u64 \<Rightarrow> f64 \<Rightarrow> f64 \<Rightarrow> bool \<Rightarrow> packet_builder \<Rightarrow> udp_packet result \<times> packet_builder"
where
  "build_liquidation_packet env symbol exchange exchange_timestamp price qty is_sell s =
     (let (header, s1) = setup_header env header_new symbol exchange MESSAGE_TYPE_LIQUIDATION exchange_timestamp s;
          header = set_flags_and_count True 1 header;
          scaled_price = scaled_by PRICE_SCALE price;
          scaled_qty = scaled_by QUANTITY_SCALE qty;
          quantity_with_flags = (if is_sell then scaled_qty OR push_bit 63 1 else scaled_qty);
          item = \<lparr> lq_price = scaled_price, lq_quantity_with_flags = quantity_with_flags \<rparr>
      in (create_packet header [liquidation_to_bytes item], s1))"

definition build_event_packet_with_exchange ::
  "build_env \<Rightarrow> system_event \<Rightarrow> string \<Rightarrow> packet_builder \<Rightarrow> udp_packet result \<times> packet_builder"
where
  "build_event_packet_with_exchange env event exchange_display s =
     (let (current_timestamp, s1) = get_current_timestamp_nanos env s;
          h = header_new\<lparr>h_protocol_version := 1\<rparr>;
          (sequence, s2) = fetch_add s1;
          h = h\<lparr>h_sequence_number := sequence\<rparr>;
          h = h\<lparr>h_exchange_timestamp := current_timestamp\<rparr>;
          h = h\<lparr>h_local_timestamp := current_timestamp\<rparr>;
          h = h\<lparr>h_message_type := get_message_type event\<rparr>;
          h = set_flags_and_count True 1 h;
          h = set_symbol (get_symbol event) h;
          h = set_exchange exchange_display h;
          payload = get_payload_bytes event
      in (create_packet h [payload], s2))"

definition build_event_packet ::
  "build_env \<Rightarrow> system_event \<Rightarrow> packet_builder \<Rightarrow> udp_packet result \<times> packet_builder"
where
  "build_event_packet env event s = build_event_packet_with_exchange env event (get_exchange event) s"

section \<open>Dispatch\<close>

text \<open>\<^verbatim>\<open>let pkt = ...?; Ok(vec![pkt])\<close>\<close>

fun single_packet :: "udp_packet result \<times> packet_builder \<Rightarrow> udp_packet list result \<times> packet_builder" where
  "single_packet (r, s) = (and_then r (\<lambda>pkt. Ok [pkt]), s)"

fun build_packets :: "build_env \<Rightarrow> parsed_data \<Rightarrow> packet_builder \<Rightarrow> udp_packet list result \<times> packet_builder" where
  "build_packets env (Trade trade) s = build_trade_packets env trade s"
| "build_packets env (TradeBatch batch) s = build_trade_batch_packets env batch s"
| "build_packets env (OrderBook order_book) s = build_order_book_packets env order_book s"
| "build_packets env (IndexPrice symbol exchange value timestamp) s =
     (let scaled = scaled_by PRICE_SCALE value in
      single_packet (build_single_value_packet env symbol exchange MESSAGE_TYPE_INDEX_PRICE timestamp scaled s))"
| "build_packets env (MarkPrice symbol exchange value timestamp) s =
     (let scaled = scaled_by PRICE_SCALE value in
      single_packet (build_single_value_packet env symbol exchange MESSAGE_TYPE_MARK_PRICE timestamp scaled s))"
| "build_packets env (FundingRate symbol exchange value timestamp) s =
     (let scaled = scaled_by PRICE_SCALE value in
      single_packet (build_single_value_packet env symbol exchange MESSAGE_TYPE_FUNDING_RATE timestamp scaled s))"
| "build_packets env (Liquidation symbol exchange price quantity is_sell timestamp) s =
     single_packet (build_liquidation_packet env symbol exchange timestamp price quantity is_sell s)"
| "build_packets env (Multi items) s = try_extend (\<lambda>it s. build_packets env it s) items s"

end
