(* ===== verification/Packet_Laws.thy ===== *)
theory Packet_Laws
  imports Packet_Builder
begin

text \<open>
  What the packet builder emits. \<open>packet_run\<close> is the abstract specification of a loop over chunks:
  the packets it makes, from the sequence counter and the clock readings at its start. \<open>emits\<close> is the
  contract of every building operation: it never fails, takes one sequence number for each packet,
  in order, and every packet is well formed.
\<close>

section \<open>The headers\<close>

definition spec_header ::
  "build_env \<Rightarrow> string \<Rightarrow> string \<Rightarrow> u8 \<Rightarrow> u64 \<Rightarrow> u64 \<Rightarrow> nat \<Rightarrow> packet_header"
where
  "spec_header env symbol exchange mt ts sequence reads =
     \<lparr> h_protocol_version = 1, h_sequence_number = sequence, h_exchange_timestamp = ts,
       h_local_timestamp = nanos_at env reads, h_message_type = mt, h_flags_and_count = 0,
       h_symbol = name_bytes symbol, h_exchange = name_bytes exchange \<rparr>"

lemma spec_header_simps [simp]:
  "h_protocol_version (spec_header env symbol exchange mt ts sequence reads) = 1"
  "h_sequence_number (spec_header env symbol exchange mt ts sequence reads) = sequence"
  "h_exchange_timestamp (spec_header env symbol exchange mt ts sequence reads) = ts"
  "h_local_timestamp (spec_header env symbol exchange mt ts sequence reads) = nanos_at env reads"
  "h_message_type (spec_header env symbol exchange mt ts sequence reads) = mt"
  "h_symbol (spec_header env symbol exchange mt ts sequence reads) = name_bytes symbol"
  "h_exchange (spec_header env symbol exchange mt ts sequence reads) = name_bytes exchange"
  "header_valid (spec_header env symbol exchange mt ts sequence reads)"
  by (simp_all add: spec_header_def header_valid_def)

definition advanced :: "nat \<Rightarrow> packet_builder \<Rightarrow> packet_builder \<Rightarrow> bool" where
  "advanced n s s' \<longleftrightarrow> pb_sequence_counter s' = pb_sequence_counter s + of_nat n
     \<and> pb_clock_reads s' = pb_clock_reads s + n"

lemma advanced_0 [simp]: "advanced 0 s s"
  by (simp add: advanced_def)

lemma advanced_trans: "advanced m s t \<Longrightarrow> advanced n t u \<Longrightarrow> advanced (m + n) s u"
  by (simp add: advanced_def)

lemma setup_header_eq [build_simps]:
  "setup_header env header_new symbol exchange mt ts s =
     (spec_header env symbol exchange mt ts (pb_sequence_counter s) (pb_clock_reads s),
      s\<lparr>pb_sequence_counter := pb_sequence_counter s + 1, pb_clock_reads := Suc (pb_clock_reads s)\<rparr>)"
  by (simp add: setup_header_def header_new_def fetch_add_def get_current_timestamp_nanos_def
      set_symbol_def set_exchange_def spec_header_def Let_def)

section \<open>The packets of a loop\<close>

definition flat_packet :: "packet_header \<Rightarrow> u8 list list \<Rightarrow> udp_packet" where
  "flat_packet header items =
     (let d = header_to_bytes header @ concat items in \<lparr> u_data = d, u_size = length d \<rparr>)"

definition counted :: "bool \<Rightarrow> 'a list \<Rightarrow> packet_header \<Rightarrow> packet_header" where
  "counted final items h = set_flags_and_count final (of_nat (length items)) h"

definition packet_run ::
  "build_env \<Rightarrow> string \<Rightarrow> string \<Rightarrow> u8 \<Rightarrow> u64 \<Rightarrow> u8 list list list \<Rightarrow> packet_builder \<Rightarrow> udp_packet list"
where
  "packet_run env symbol exchange mt ts cs s =
     map (\<lambda>(i, c). flat_packet
           (counted (i = length cs - 1) c
             (spec_header env symbol exchange mt ts (pb_sequence_counter s + of_nat i) (pb_clock_reads s + i))) c)
         (enumerate 0 cs)"

lemma length_packet_run [simp]: "length (packet_run env symbol exchange mt ts cs s) = length cs"
  by (simp add: packet_run_def)

lemma fold_append: "fold (\<lambda>x d. d @ f x) xs d = d @ concat (map f xs)"
  by (induction xs arbitrary: d) simp_all

lemma create_packet_eq:
  assumes "header_valid h" "length (concat items) \<le> 1405"
  shows "create_packet h items = Ok (flat_packet h items)"
  using assms fold_append [of "\<lambda>x. x" items "header_to_bytes h"]
  by (simp add: create_packet_def flat_packet_def Let_def header_codec.enc_length)

lemma create_packet_from_flat_eq:
  assumes "header_valid h" "length (concat items) \<le> 1405"
  shows "create_packet_from_flat h (concat items) = Ok (flat_packet h items)"
  using assms by (simp add: create_packet_from_flat_def flat_packet_def Let_def header_codec.enc_length)

lemma chunks_map: "0 < n \<Longrightarrow> chunks n (map f xs) = map (map f) (chunks n xs)"
proof (induction n xs rule: chunks.induct)
  case (1 n xs)
  show ?case
  proof (cases "xs = []")
    case False
    then have "chunks n (map f xs) = map f (take n xs) # chunks n (map f (drop n xs))"
      using chunks_unfold [of "map f xs" n] "1.prems" unfolding take_map drop_map by simp
    also have "chunks n (map f (drop n xs)) = map (map f) (chunks n (drop n xs))"
      using "1.IH" "1.prems" False by blast
    finally show ?thesis unfolding chunks_unfold [OF False "1.prems"] list.map .
  qed simp
qed

lemma acquire_buffer_empty [simp]: "v_bytes (fst (acquire_buffer n p)) = []"
  by (simp add: acquire_buffer_def vec_with_capacity_def Let_def split: list.splits)

text \<open>A loop whose body makes one packet from the current counters.\<close>

lemma try_collect_packets:
  assumes "\<And>i c s. c \<in> set cs \<Longrightarrow>
    \<exists>s'. body (i, c) s = (Inr (mk i c (pb_sequence_counter s) (pb_clock_reads s)), s') \<and> advanced 1 s s'"
  shows "\<exists>s'. try_collect body (enumerate j cs) s =
      (Inr (map (\<lambda>(i, c). mk i c (pb_sequence_counter s + of_nat (i - j)) (pb_clock_reads s + (i - j))) (enumerate j cs)), s')
    \<and> advanced (length cs) s s'"
  using assms
proof (induction cs arbitrary: j s)
  case Nil
  then show ?case by simp
next
  case (Cons c cs)
  obtain s1 where s1: "body (j, c) s = (Inr (mk j c (pb_sequence_counter s) (pb_clock_reads s)), s1)" "advanced 1 s s1"
    using Cons.prems [of c j s] by (elim meta_impE exE conjE) simp_all
  have "\<exists>s'. try_collect body (enumerate (Suc j) cs) s1 =
      (Inr (map (\<lambda>(i, c). mk i c (pb_sequence_counter s1 + of_nat (i - Suc j)) (pb_clock_reads s1 + (i - Suc j)))
        (enumerate (Suc j) cs)), s') \<and> advanced (length cs) s1 s'"
    by (rule Cons.IH) (rule Cons.prems, simp)
  then obtain s2 where s2: "try_collect body (enumerate (Suc j) cs) s1 =
      (Inr (map (\<lambda>(i, c). mk i c (pb_sequence_counter s1 + of_nat (i - Suc j)) (pb_clock_reads s1 + (i - Suc j)))
        (enumerate (Suc j) cs)), s2)" "advanced (length cs) s1 s2"
    by blast
  have shift: "pb_sequence_counter s1 + of_nat (i - Suc j) = pb_sequence_counter s + of_nat (i - j)"
    "pb_clock_reads s1 + (i - Suc j) = pb_clock_reads s + (i - j)" if "Suc j \<le> i" for i
  proof -
    from that obtain k where "i = Suc j + k" by (auto simp: le_iff_add)
    then show "pb_sequence_counter s1 + of_nat (i - Suc j) = pb_sequence_counter s + of_nat (i - j)"
      "pb_clock_reads s1 + (i - Suc j) = pb_clock_reads s + (i - j)"
      using s1(2) by (simp_all add: advanced_def)
  qed
  have "map (\<lambda>(i, c). mk i c (pb_sequence_counter s1 + of_nat (i - Suc j)) (pb_clock_reads s1 + (i - Suc j))) (enumerate (Suc j) cs)
      = map (\<lambda>(i, c). mk i c (pb_sequence_counter s + of_nat (i - j)) (pb_clock_reads s + (i - j))) (enumerate (Suc j) cs)"
  proof (intro map_cong refl, clarify)
    fix i c assume "(i, c) \<in> set (enumerate (Suc j) cs)"
    then have "Suc j \<le> i" by (simp add: in_set_enumerate_eq)
    then show "mk i c (pb_sequence_counter s1 + of_nat (i - Suc j)) (pb_clock_reads s1 + (i - Suc j)) =
        mk i c (pb_sequence_counter s + of_nat (i - j)) (pb_clock_reads s + (i - j))"
      by (simp only: shift)
  qed
  moreover have "advanced (length (c # cs)) s s2"
    using advanced_trans [OF s1(2) s2(2)] by simp
  ultimately show ?case using s1(1) s2(1) by simp
qed

lemma enumerate_map: "enumerate j (map f xs) = map (\<lambda>(i, x). (i, f x)) (enumerate j xs)"
  by (induction xs arbitrary: j) simp_all

text \<open>The same over the encodings of the chunks.\<close>

lemma try_collect_packet_run:
  assumes "\<And>i c s. c \<in> set cs \<Longrightarrow>
    \<exists>s'. body (i, c) s =
      (Inr (flat_packet (counted (i = length cs - 1) c
         (spec_header env symbol exchange mt ts (pb_sequence_counter s) (pb_clock_reads s))) (map f c)), s')
      \<and> advanced 1 s s'"
  shows "\<exists>s'. try_collect body (enumerate 0 cs) s =
      (Inr (packet_run env symbol exchange mt ts (map (map f) cs) s), s') \<and> advanced (length cs) s s'"
proof -
  have "packet_run env symbol exchange mt ts (map (map f) cs) s =
      map (\<lambda>(i, c). flat_packet (counted (i = length cs - 1) c
         (spec_header env symbol exchange mt ts (pb_sequence_counter s + of_nat (i - 0)) (pb_clock_reads s + (i - 0)))) (map f c))
       (enumerate 0 cs)"
    by (simp add: packet_run_def enumerate_map case_prod_unfold counted_def)
  then show ?thesis
    using try_collect_packets [of cs body "\<lambda>i c sq rd. flat_packet (counted (i = length cs - 1) c
         (spec_header env symbol exchange mt ts sq rd)) (map f c)" 0 s] assms by simp
qed

lemma length_items: "(\<And>x. x \<in> set c \<Longrightarrow> length (f x) = n) \<Longrightarrow> length (concat (map f c)) = length c * n"
  by (rule length_concat_map)

lemma counted_simps [simp]:
  "header_valid (counted final c h) \<longleftrightarrow> header_valid h"
  "h_sequence_number (counted final c h) = h_sequence_number h"
  "h_symbol (counted final c h) = h_symbol h"
  "h_exchange (counted final c h) = h_exchange h"
  "h_message_type (counted final c h) = h_message_type h"
  "h_exchange_timestamp (counted final c h) = h_exchange_timestamp h"
  "h_local_timestamp (counted final c h) = h_local_timestamp h"
  "h_protocol_version (counted final c h) = h_protocol_version h"
  "is_last (counted final c h) = final"
  by (simp_all add: counted_def)

section \<open>The building operations\<close>

lemma fold_appends [build_simps]:
  "fold (\<lambda>t. trade_append_to_vec (f t)) xs d = d @ concat (map (\<lambda>t. trade_to_bytes (f t)) xs)"
  "fold book_append_to_vec ys d = d @ concat (map book_to_bytes ys)"
proof -
  show "fold (\<lambda>t. trade_append_to_vec (f t)) xs d = d @ concat (map (\<lambda>t. trade_to_bytes (f t)) xs)"
    by (induction xs arbitrary: d) (simp_all add: trade_append_to_vec_def)
  show "fold book_append_to_vec ys d = d @ concat (map book_to_bytes ys)"
    by (induction ys arbitrary: d) (simp_all add: book_append_to_vec_def)
qed

lemma build_trade_batch_eq:
  assumes "tb_trades b \<noteq> []"
  shows "\<exists>s'. build_trade_batch_packets env b s =
      (Ok (packet_run env (tb_symbol b) (tb_exchange b) MESSAGE_TYPE_TRADE_TICK (tb_exchange_timestamp b)
        (map (map (\<lambda>t. trade_to_bytes (trade_item t))) (chunks 80 (sort_by cmp_trades (tb_trades b)))) s), s')
    \<and> advanced (length (chunks 80 (tb_trades b))) s s'"
proof -
  let ?cs = "chunks 80 (sort_by cmp_trades (tb_trades b))"
  have len: "length (chunks 80 (tb_trades b)) = length ?cs" by (simp add: length_chunks)
  show ?thesis
    unfolding build_trade_batch_packets_def Let_def len
    using assms
  proof (simp, intro try_collect_packet_run, goal_cases)
    case (1 i c s)
    then have "length c \<le> 80" using chunks_bounds [of 80 c] by simp
    then have "create_packet_from_flat h (concat (map (\<lambda>t. trade_to_bytes (trade_item t)) c)) =
        Ok (flat_packet h (map (\<lambda>t. trade_to_bytes (trade_item t)) c))" if "header_valid h" for h
      using that by (intro create_packet_from_flat_eq) (simp_all add: length_items trade_codec.enc_length)
    then show ?case
      by (simp add: build_simps fold_appends case_prod_unfold advanced_def counted_def)
  qed
qed

definition all_book_items :: "standardized_order_book_update \<Rightarrow> order_book_item list" where
  "all_book_items ob = book_items False (sort_by cmp_bids (o_bids ob)) @ book_items True (sort_by cmp_asks (o_asks ob))"

lemma build_order_book_eq:
  assumes "all_book_items ob \<noteq> []"
  shows "\<exists>s'. build_order_book_packets env ob s =
      (Ok (packet_run env (o_symbol ob) (o_exchange ob) MESSAGE_TYPE_ORDER_BOOK (o_timestamp ob)
        (map (map book_to_bytes) (chunks 80 (all_book_items ob))) s), s')
    \<and> advanced (length (chunks 80 (all_book_items ob))) s s'"
proof -
  show ?thesis
    unfolding build_order_book_packets_def Let_def all_book_items_def [symmetric]
    using assms
  proof (simp, intro try_collect_packet_run, goal_cases)
    case (1 i c s)
    then have "length c \<le> 80" using chunks_bounds [of 80 c] by simp
    then have "create_packet_from_flat h (concat (map book_to_bytes c)) = Ok (flat_packet h (map book_to_bytes c))"
      if "header_valid h" for h
      using that by (intro create_packet_from_flat_eq) (simp_all add: length_items book_codec.enc_length)
    then show ?case
      by (simp add: build_simps case_prod_unfold advanced_def counted_def)
  qed
qed

lemma build_order_book_Nil:
  "all_book_items ob = [] \<Longrightarrow> build_order_book_packets env ob s = (Ok [], s)"
  by (simp add: build_order_book_packets_def all_book_items_def)

lemma build_symbol_group_eq:
  "\<exists>s'. build_symbol_group env ts ((symbol, exchange), trades) s =
      (Ok (packet_run env symbol exchange MESSAGE_TYPE_TRADE_TICK ts
        (map (map (\<lambda>t. trade_to_bytes (trade_item t))) (chunks 50 trades)) s), s')
    \<and> advanced (length (chunks 50 trades)) s s'"
proof -
  let ?enc = "\<lambda>t. trade_to_bytes (trade_item t)"
  have "\<exists>s'. try_collect (\<lambda>(i, c) s.
        let (header, s1) = setup_header env header_new symbol exchange MESSAGE_TYPE_TRADE_TICK ts s;
            header = set_flags_and_count (i = length (chunks 50 (map ?enc trades)) - 1) (of_nat (length c)) header
        in (create_packet header c, s1)) (enumerate 0 (chunks 50 (map ?enc trades))) s =
      (Inr (packet_run env symbol exchange MESSAGE_TYPE_TRADE_TICK ts
        (map (map (\<lambda>x. x)) (chunks 50 (map ?enc trades))) s), s')
      \<and> advanced (length (chunks 50 (map ?enc trades))) s s'"
  proof (intro try_collect_packet_run, goal_cases)
    case (1 i c s)
    then have "length c \<le> 50" using chunks_bounds [of 50 c] by simp
    moreover from 1 obtain c' where "c = map ?enc c'" by (auto simp: chunks_map)
    then have "length x = 16" if "x \<in> set c" for x
      using that by (auto simp: trade_codec.enc_length)
    ultimately have "create_packet h c = Ok (flat_packet h c)" if "header_valid h" for h
      using that length_items [of c "\<lambda>x. x" 16] by (intro create_packet_eq) simp_all
    then show ?case
      by (simp add: build_simps case_prod_unfold advanced_def counted_def)
  qed
  then show ?thesis by (simp add: build_symbol_group_def Let_def chunks_map)
qed

lemma build_single_value_eq:
  assumes "mt \<in> {MESSAGE_TYPE_INDEX_PRICE, MESSAGE_TYPE_MARK_PRICE, MESSAGE_TYPE_FUNDING_RATE}"
  shows "\<exists>s'. build_single_value_packet env symbol exchange mt ts v s =
      (Ok (flat_packet (counted True [()] (spec_header env symbol exchange mt ts (pb_sequence_counter s) (pb_clock_reads s)))
         [le_bytes 8 v]), s') \<and> advanced 1 s s'"
  using assms
  by (auto simp: build_single_value_packet_def build_simps counted_def create_packet_eq advanced_def
      price_value_to_bytes_def funding_rate_to_bytes_def message_types)

lemma build_liquidation_eq:
  "\<exists>s'. build_liquidation_packet env symbol exchange ts p q b s =
      (Ok (flat_packet (counted True [()] (spec_header env symbol exchange MESSAGE_TYPE_LIQUIDATION ts
          (pb_sequence_counter s) (pb_clock_reads s)))
         [le_bytes 8 (scaled_by PRICE_SCALE p) @
          le_bytes 8 (if b then scaled_by QUANTITY_SCALE q OR push_bit 63 1 else scaled_by QUANTITY_SCALE q)]), s')
    \<and> advanced 1 s s'"
  by (simp add: build_liquidation_packet_def build_simps counted_def create_packet_eq advanced_def
      liquidation_to_bytes_def Let_def)

lemma build_event_eq:
  assumes "event_valid e"
  shows "\<exists>s'. build_event_packet_with_exchange env e display s =
      (Ok (flat_packet (counted True [()] (spec_header env (get_symbol e) display (get_message_type e)
          (nanos_at env (pb_clock_reads s)) (pb_sequence_counter s) (pb_clock_reads s)))
         [get_payload_bytes e]), s')
    \<and> advanced 1 s s'"
proof -
  have "set_symbol (get_symbol e) (set_flags_and_count True 1 h) = set_flags_and_count True 1 (set_symbol (get_symbol e) h)"
    "set_exchange display (set_flags_and_count True 1 h) = set_flags_and_count True 1 (set_exchange display h)" for h
    by (simp_all add: set_symbol_def set_exchange_def set_flags_and_count_def Let_def)
  then show ?thesis
    using assms
    by (simp add: build_event_packet_with_exchange_def fetch_add_def get_current_timestamp_nanos_def counted_def
        create_packet_eq advanced_def Let_def header_new_def set_symbol_def set_exchange_def spec_header_def header_valid_def)
qed

section \<open>The contract of the builder\<close>

definition item_size :: "u8 \<Rightarrow> nat" where
  "item_size mt = (if mt \<in> {MESSAGE_TYPE_INDEX_PRICE, MESSAGE_TYPE_MARK_PRICE, MESSAGE_TYPE_FUNDING_RATE} then 8 else 16)"

text \<open>A packet with sequence number \<open>q\<close> whose size fields agree with its contents.\<close>

definition well_formed :: "u64 \<Rightarrow> udp_packet \<Rightarrow> bool" where
  "well_formed q p \<longleftrightarrow> u_size p = length (u_data p) \<and>
     (case header_from_bytes (u_data p) of
        None \<Rightarrow> False
      | Some h \<Rightarrow> h_protocol_version h = 1 \<and> h_sequence_number h = q
          \<and> 1 \<le> unat (item_count h) \<and> unat (item_count h) \<le> 80
          \<and> length (u_data p) = 67 + unat (item_count h) * item_size (h_message_type h))"

definition emits :: "packet_builder \<Rightarrow> udp_packet list result \<times> packet_builder \<Rightarrow> bool" where
  "emits s r \<longleftrightarrow> (\<exists>ps s'. r = (Ok ps, s') \<and> advanced (length ps) s s'
     \<and> (\<forall>i < length ps. well_formed (pb_sequence_counter s + of_nat i) (ps ! i)))"

lemma header_of_flat [simp]:
  "header_valid h \<Longrightarrow> header_from_bytes (u_data (flat_packet h items)) = Some h"
  by (simp add: flat_packet_def Let_def header_from_bytes_def header_codec.enc_length header_codec.dec_enc)

lemma payload_of_flat [simp]:
  "header_valid h \<Longrightarrow> drop 67 (u_data (flat_packet h items)) = concat items"
  by (simp add: flat_packet_def Let_def header_codec.enc_length)

lemma size_of_flat [simp]: "u_size (flat_packet h items) = length (u_data (flat_packet h items))"
  by (simp add: flat_packet_def Let_def)

lemma length_flat_packet:
  "header_valid h \<Longrightarrow> length (u_data (flat_packet h items)) = 67 + length (concat items)"
  by (simp add: flat_packet_def Let_def header_codec.enc_length)

lemma well_formed_flat:
  assumes "header_valid h" "h_protocol_version h = 1" "h_sequence_number h = q"
    and "0 < length items" "length items \<le> 80" "length c = length items"
    and "\<And>x. x \<in> set items \<Longrightarrow> length x = item_size (h_message_type h)"
  shows "well_formed q (flat_packet (counted final c h) items)"
proof -
  have "length (concat items) = length items * item_size (h_message_type h)"
    using length_items [of items "\<lambda>x. x"] assms(7) by simp
  moreover have "unat (item_count (counted final c h)) = length items"
    unfolding counted_def assms(6) using assms(5) by (rule unat_item_count_set_flags)
  ultimately show ?thesis
    using assms(1-5) by (simp add: well_formed_def length_flat_packet Suc_le_eq)
qed

lemma emits_Nil [simp]: "emits s (Ok [], s)"
  by (simp add: emits_def)

lemma nth_packet_run:
  "i < length cs \<Longrightarrow> packet_run env symbol exchange mt ts cs s ! i =
     flat_packet (counted (i = length cs - 1) (cs ! i)
       (spec_header env symbol exchange mt ts (pb_sequence_counter s + of_nat i) (pb_clock_reads s + i))) (cs ! i)"
  by (simp add: packet_run_def nth_enumerate_eq)

lemma emits_packet_run:
  assumes "r = (Ok (packet_run env symbol exchange mt ts cs s), s')" "advanced (length cs) s s'"
    and "\<And>c. c \<in> set cs \<Longrightarrow> 0 < length c \<and> length c \<le> 80"
    and "\<And>c x. c \<in> set cs \<Longrightarrow> x \<in> set c \<Longrightarrow> length x = item_size mt"
  shows "emits s r"
  unfolding emits_def
proof (intro exI conjI)
  show "r = (Ok (packet_run env symbol exchange mt ts cs s), s')" by fact
  show "advanced (length (packet_run env symbol exchange mt ts cs s)) s s'" using assms(2) by simp
  show "\<forall>i<length (packet_run env symbol exchange mt ts cs s).
      well_formed (pb_sequence_counter s + of_nat i) (packet_run env symbol exchange mt ts cs s ! i)"
    using assms(3) assms(4) [OF nth_mem] by (auto simp: nth_packet_run intro!: well_formed_flat)
qed

lemma emits_single:
  assumes "r = (Ok (flat_packet (counted True [()] h) [x]), s')" "advanced 1 s s'"
    and "header_valid h" "h_protocol_version h = 1" "h_sequence_number h = pb_sequence_counter s"
    and "length x = item_size (h_message_type h)"
  shows "emits s (single_packet r)"
  using assms well_formed_flat [of h "pb_sequence_counter s" "[x]" "[()]" True] by (simp add: emits_def)

lemma emits_try_extend:
  assumes "\<And>x s. x \<in> set xs \<Longrightarrow> emits s (f x s)"
  shows "emits s (try_extend f xs s)"
  using assms
proof (induction xs arbitrary: s)
  case Nil
  then show ?case by (simp add: try_extend_def)
next
  case (Cons x xs)
  obtain ps s1 where 1: "f x s = (Ok ps, s1)" "advanced (length ps) s s1"
      "\<forall>i < length ps. well_formed (pb_sequence_counter s + of_nat i) (ps ! i)"
    using Cons.prems [of x s] by (auto simp: emits_def)
  obtain qs s2 where 2: "try_extend f xs s1 = (Ok qs, s2)" "advanced (length qs) s1 s2"
      "\<forall>i < length qs. well_formed (pb_sequence_counter s1 + of_nat i) (qs ! i)"
    using Cons.IH [of s1] Cons.prems by (auto simp: emits_def)
  have "try_extend f (x # xs) s = (Ok (ps @ qs), s2)"
    using 1(1) 2(1) by (auto simp: try_extend_def split: prod.splits sum.splits)
  moreover have "advanced (length (ps @ qs)) s s2" using advanced_trans [OF 1(2) 2(2)] by simp
  moreover have "well_formed (pb_sequence_counter s + of_nat i) ((ps @ qs) ! i)" if "i < length (ps @ qs)" for i
  proof (cases "i < length ps")
    case True
    then show ?thesis using 1(3) by (simp add: nth_append)
  next
    case False
    then obtain j where "i = length ps + j" by (auto simp: not_less le_iff_add)
    then show ?thesis using 1(2) 2(3) that by (simp add: advanced_def nth_append add.assoc)
  qed
  ultimately show ?case by (auto simp: emits_def)
qed

lemma emits_trade_batch: "emits s (build_trade_batch_packets env b s)"
proof (cases "tb_trades b = []")
  case True
  then show ?thesis by (simp add: build_trade_batch_packets_def)
next
  case False
  then obtain s' where
    "build_trade_batch_packets env b s =
      (Ok (packet_run env (tb_symbol b) (tb_exchange b) MESSAGE_TYPE_TRADE_TICK (tb_exchange_timestamp b)
        (map (map (\<lambda>t. trade_to_bytes (trade_item t))) (chunks 80 (sort_by cmp_trades (tb_trades b)))) s), s')"
    "advanced (length (map (map (\<lambda>t. trade_to_bytes (trade_item t))) (chunks 80 (sort_by cmp_trades (tb_trades b))))) s s'"
    using build_trade_batch_eq [OF False, of env s] by (auto simp: length_chunks)
  then show ?thesis
    by (rule emits_packet_run)
      (auto simp: item_size_def message_types trade_codec.enc_length dest: chunks_bounds [rotated])
qed

lemma emits_order_book: "emits s (build_order_book_packets env ob s)"
proof (cases "all_book_items ob = []")
  case True
  then show ?thesis by (simp add: build_order_book_Nil)
next
  case False
  then obtain s' where
    "build_order_book_packets env ob s =
      (Ok (packet_run env (o_symbol ob) (o_exchange ob) MESSAGE_TYPE_ORDER_BOOK (o_timestamp ob)
        (map (map book_to_bytes) (chunks 80 (all_book_items ob))) s), s')"
    "advanced (length (map (map book_to_bytes) (chunks 80 (all_book_items ob)))) s s'"
    using build_order_book_eq by fastforce
  then show ?thesis
    by (rule emits_packet_run) (auto simp: item_size_def message_types book_codec.enc_length dest: chunks_bounds [rotated])
qed

lemma emits_symbol_group: "emits s (build_symbol_group env ts g s)"
proof -
  obtain symbol exchange trades where g: "g = ((symbol, exchange), trades)" by (metis surj_pair)
  obtain s' where
    "build_symbol_group env ts g s =
      (Ok (packet_run env symbol exchange MESSAGE_TYPE_TRADE_TICK ts
        (map (map (\<lambda>t. trade_to_bytes (trade_item t))) (chunks 50 trades)) s), s')"
    "advanced (length (map (map (\<lambda>t. trade_to_bytes (trade_item t))) (chunks 50 trades))) s s'"
    using build_symbol_group_eq [of env ts symbol exchange trades s] g by auto
  then show ?thesis
    by (rule emits_packet_run)
      (auto simp: item_size_def message_types trade_codec.enc_length dest: chunks_bounds [rotated])
qed

lemma emits_new_map [simp]: "emits (s\<lparr>pb_maps_made := n\<rparr>) r \<longleftrightarrow> emits s r"
  by (simp add: emits_def advanced_def)

lemma emits_timestamp_group: "emits s (build_timestamp_group env g s)"
proof (cases g)
  case (Pair ts trades)
  have "emits (s\<lparr>pb_maps_made := Suc (pb_maps_made s)\<rparr>)
      (try_extend (build_symbol_group env ts) groups (s\<lparr>pb_maps_made := Suc (pb_maps_made s)\<rparr>))" for groups
    by (rule emits_try_extend) (rule emits_symbol_group)
  then show ?thesis by (simp add: Pair build_timestamp_group_def new_map_def Let_def)
qed

lemma emits_trades_batch: "emits s (build_trade_packets_batch env ts s)"
proof -
  have "emits (s\<lparr>pb_maps_made := Suc (pb_maps_made s)\<rparr>)
      (try_extend (build_timestamp_group env) groups (s\<lparr>pb_maps_made := Suc (pb_maps_made s)\<rparr>))" for groups
    by (rule emits_try_extend) (rule emits_timestamp_group)
  then show ?thesis by (simp add: build_trade_packets_batch_def new_map_def Let_def)
qed

lemma emits_single_value:
  assumes "mt \<in> {MESSAGE_TYPE_INDEX_PRICE, MESSAGE_TYPE_MARK_PRICE, MESSAGE_TYPE_FUNDING_RATE}"
  shows "emits s (single_packet (build_single_value_packet env symbol exchange mt ts v s))"
proof -
  obtain s' where "build_single_value_packet env symbol exchange mt ts v s =
      (Ok (flat_packet (counted True [()] (spec_header env symbol exchange mt ts (pb_sequence_counter s) (pb_clock_reads s)))
         [le_bytes 8 v]), s')" "advanced 1 s s'"
    using build_single_value_eq [OF assms] by blast
  then show ?thesis by (rule emits_single) (use assms in \<open>simp_all add: item_size_def\<close>)
qed

lemma emits_liquidation:
  "emits s (single_packet (build_liquidation_packet env symbol exchange ts p q b s))"
  using build_liquidation_eq [of env symbol exchange ts p q b s]
  by (elim exE conjE) (rule emits_single, assumption+, simp_all add: item_size_def message_types)

theorem emits_build_packets: "emits s (build_packets env d s)"
proof (induction d arbitrary: s)
  case (Multi items)
  then have "emits s (try_extend (build_packets env) items s)" by (intro emits_try_extend)
  then show ?case by simp
next
  case (Liquidation symbol exchange price quantity is_sell timestamp)
  show ?case unfolding build_packets.simps by (rule emits_liquidation)
qed (unfold build_packets.simps build_trade_packets_def Let_def,
    (rule emits_trade_batch emits_order_book emits_trades_batch emits_single_value, simp?)+)

lemma emits_event:
  assumes "event_valid e"
  shows "emits s (single_packet (build_event_packet_with_exchange env e display s))"
proof -
  obtain s' where "build_event_packet_with_exchange env e display s =
      (Ok (flat_packet (counted True [()] (spec_header env (get_symbol e) display (get_message_type e)
          (nanos_at env (pb_clock_reads s)) (pb_sequence_counter s) (pb_clock_reads s)))
         [get_payload_bytes e]), s')" "advanced 1 s s'"
    using build_event_eq [OF assms] by blast
  moreover have "item_size (get_message_type e) = 16"
    by (cases e) (simp_all add: item_size_def message_types event_types)
  ultimately show ?thesis
    using emits_single [OF _ \<open>advanced 1 s s'\<close>] length_payload [OF assms] by simp
qed

end
