(* ===== verification/Order_Laws.thy ===== *)
theory Order_Laws
  imports Packet_Laws
begin

text \<open>
  The order of the items on the wire. The three comparison functions of the builder meet the contract
  of a stable order on elements without NaN prices, and scaling to fixed point keeps the order.
\<close>

section \<open>The comparison functions\<close>

lemma cmp_f64_swap: "\<not> is_nan x \<Longrightarrow> \<not> is_nan y \<Longrightarrow> cmp_f64 x y = Greater \<longleftrightarrow> cmp_f64 y x = Less"
  by (rule price_order.cmp_swap)

lemma cmp_f64_trans:
  "\<not> is_nan x \<Longrightarrow> \<not> is_nan y \<Longrightarrow> \<not> is_nan z \<Longrightarrow> cmp_f64 x y \<noteq> Greater \<Longrightarrow> cmp_f64 y z \<noteq> Greater \<Longrightarrow> cmp_f64 x z \<noteq> Greater"
  by (rule price_order.cmp_trans)

lemma cmp_f64_refl: "\<not> is_nan x \<Longrightarrow> cmp_f64 x x = Equal"
  by (rule price_order.cmp_refl)

interpretation ask_order: stable_order cmp_asks "\<lambda>l. \<not> is_nan (l_price l)"
proof
  fix x y z :: order_book_level
  assume c: "\<not> is_nan (l_price x)" "\<not> is_nan (l_price y)" "\<not> is_nan (l_price z)"
    and "cmp_asks x y \<noteq> Greater" "cmp_asks y z \<noteq> Greater"
  then show "cmp_asks x z \<noteq> Greater" using cmp_f64_trans [OF c] by (simp add: cmp_asks_def)
qed (auto simp: cmp_asks_def cmp_f64_refl cmp_f64_swap)

interpretation bid_order: stable_order cmp_bids "\<lambda>l. \<not> is_nan (l_price l)"
proof
  fix x y z :: order_book_level
  assume c: "\<not> is_nan (l_price x)" "\<not> is_nan (l_price y)" "\<not> is_nan (l_price z)"
    and "cmp_bids x y \<noteq> Greater" "cmp_bids y z \<noteq> Greater"
  then show "cmp_bids x z \<noteq> Greater" using cmp_f64_trans [OF c(3,2,1)] by (simp add: cmp_bids_def)
qed (auto simp: cmp_bids_def cmp_f64_refl cmp_f64_swap)

interpretation trade_order: stable_order cmp_trades "\<lambda>t. \<not> is_nan (t_price t)"
proof
  fix x y z :: standardized_trade
  assume c: "\<not> is_nan (t_price x)" "\<not> is_nan (t_price y)" "\<not> is_nan (t_price z)"
    and "cmp_trades x y \<noteq> Greater" "cmp_trades y z \<noteq> Greater"
  then show "cmp_trades x z \<noteq> Greater"
    using cmp_f64_trans [OF c] cmp_f64_trans [OF c(3,2,1)]
    by (auto simp: cmp_trades_def split: bool.splits)
qed (auto simp: cmp_trades_def cmp_f64_refl cmp_f64_swap split: bool.splits)

section \<open>Scaling keeps the order\<close>

lemma scaled_mono:
  assumes "\<not> is_nan a" "\<not> is_nan b" "f64_le a b"
  shows "sint (scaled_by PRICE_SCALE a) \<le> sint (scaled_by PRICE_SCALE b)"
  using trunc_mul_mono [OF assms, of 6710886400000000 "- 26"]
  by (simp add: scales scaled_by_eq f64_1e8)

lemma cmp_scaled:
  assumes "\<not> is_nan a" "\<not> is_nan b" "cmp_f64 a b \<noteq> Greater"
  shows "sint (scaled_by PRICE_SCALE a) \<le> sint (scaled_by PRICE_SCALE b)"
  using scaled_mono [OF assms(1,2)] cmp_f64_Greater_iff [OF assms(1,2)] assms(3) by blast

section \<open>Order books\<close>

lemma sorted_wrt_map_filter:
  assumes "sorted_wrt P xs" "\<And>x y. x \<in> set xs \<Longrightarrow> y \<in> set xs \<Longrightarrow> P x y \<Longrightarrow> Q (f x) (f y)"
  shows "sorted_wrt Q (map f (filter R xs))"
  using assms by (induction xs) auto

lemma bids_descending:
  assumes "\<forall>l \<in> set ls. \<not> is_nan (l_price l)"
  shows "sorted_wrt (\<lambda>a b. sint (ob_price b) \<le> sint (ob_price a)) (book_items a (sort_by cmp_bids ls))"
  unfolding book_items_def
proof (rule sorted_wrt_map_filter)
  show "sorted_wrt bid_order.le (sort_by cmp_bids ls)" using assms by (rule bid_order.sorted_sort_by)
qed (use assms in \<open>simp add: bid_order.le_def cmp_bids_def cmp_scaled\<close>)

lemma asks_ascending:
  assumes "\<forall>l \<in> set ls. \<not> is_nan (l_price l)"
  shows "sorted_wrt (\<lambda>a b. sint (ob_price a) \<le> sint (ob_price b)) (book_items a (sort_by cmp_asks ls))"
  unfolding book_items_def
proof (rule sorted_wrt_map_filter)
  show "sorted_wrt ask_order.le (sort_by cmp_asks ls)" using assms by (rule ask_order.sorted_sort_by)
qed (use assms in \<open>simp add: ask_order.le_def cmp_asks_def cmp_scaled\<close>)

lemma book_items_is_ask: "x \<in> set (book_items a ls) \<Longrightarrow> book_is_ask x = a"
  by (auto simp: book_items_def book_is_ask_def)

lemma mset_book_items_sort: "mset (book_items a (sort_by cmp ls)) = mset (book_items a ls)"
  unfolding book_items_def by (simp add: mset_filter)

lemma mset_book_items:
  "mset (book_items a ls) =
     {# order_book_item_new (l_price l) (l_quantity l) a. l \<in># filter_mset (\<lambda>l. f64_zero < l_quantity l) (mset ls) #}"
  by (simp add: book_items_def)

section \<open>Trades\<close>

text \<open>Buyer-taker trades first, by rising price; then the others, by falling price.\<close>

definition trade_wire_le :: "trade_tick_item \<Rightarrow> trade_tick_item \<Rightarrow> bool" where
  "trade_wire_le a b \<longleftrightarrow>
     (if trade_is_buyer_taker a then trade_is_buyer_taker b \<longrightarrow> sint (tt_price a) \<le> sint (tt_price b)
      else \<not> trade_is_buyer_taker b \<and> sint (tt_price b) \<le> sint (tt_price a))"

lemma trade_item_simps [simp]:
  "trade_is_buyer_taker (trade_item t) = t_is_buyer_taker t"
  "tt_price (trade_item t) = scaled_by PRICE_SCALE (t_price t)"
  by (simp_all add: trade_item_def trade_is_buyer_taker_def)

lemma trades_sorted:
  assumes "\<forall>t \<in> set ts. \<not> is_nan (t_price t)"
  shows "sorted_wrt trade_wire_le (map trade_item (sort_by cmp_trades ts))"
proof -
  have "sorted_wrt trade_wire_le (map trade_item (filter (\<lambda>_. True) (sort_by cmp_trades ts)))"
  proof (rule sorted_wrt_map_filter)
    show "sorted_wrt trade_order.le (sort_by cmp_trades ts)" using assms by (rule trade_order.sorted_sort_by)
  qed (use assms in \<open>auto simp: trade_order.le_def cmp_trades_def trade_wire_le_def cmp_scaled split: bool.splits if_splits\<close>)
  then show ?thesis by simp
qed

end
