(* ===== verification/Decoder.thy ===== *)
theory Decoder
  imports Protocol Events
begin

text \<open>
  \<^verbatim>\<open>src/src/bin/decoder.rs\<close>: the receiving tool. It copies the header out of a datagram, walks the
  item array as far as the header's count says, prints what it finds and keeps statistics. A printed
  line is a value of \<open>decoder_line\<close> with the values it shows; formatting them is not modelled.
  Instants are nanoseconds of a monotonic clock and are arguments.
\<close>

section \<open>Data\<close>

datatype decoder_line =
    ShowHeader u8 u64 string string u8 string u8 bool u64 u64
  | ShowOrderBookTitle
  | ShowOrderBookItem nat f64 f64
  | ShowTradeTickTitle
  | ShowTradeTickItem nat f64 f64 string
  | ShowUnknownMessageType
  | ShowInterval string f64 f64 "string option"
  | ShowReceived nat
  | ShowDecodeError string
  | ShowSummary u64 u64 f64 u64 u64 u64 u64
  | ShowSeparator
  | ShowReceiveError io_error

record decoder_stats =
  total_packets :: u64
  total_bytes :: u64
  orderbook_packets :: u64
  tradetick_packets :: u64
  orderbook_items :: u64
  tradetick_items :: u64

record interval_stat =
  is_last_seen :: "nat option"
  is_count :: u64
  is_sum_ms :: f64

definition stats_new :: decoder_stats where
  "stats_new = \<lparr> total_packets = 0, total_bytes = 0, orderbook_packets = 0, tradetick_packets = 0,
     orderbook_items = 0, tradetick_items = 0 \<rparr>"

section \<open>The layout of packed structs\<close>

text \<open>
  The tool has packed structs of its own, which must lie in memory like those of \<^verbatim>\<open>protocol.rs\<close>. A layout
  has the names and the sizes of the fields, one directly after the other.
\<close>

type_synonym layout = "(string \<times> nat) list"

definition layout_size :: "layout \<Rightarrow> nat" where
  "layout_size l = sum_list (map snd l)"

fun layout_fields :: "nat \<Rightarrow> layout \<Rightarrow> u8 list \<Rightarrow> (string \<times> u8 list) list" where
  "layout_fields off [] bs = []"
| "layout_fields off ((name, n) # l) bs = (name, field off n bs) # layout_fields (off + n) l bs"

definition decoder_header_layout :: layout where
  "decoder_header_layout =
     [(''protocol_version'', 1), (''sequence_number'', 8), (''exchange_timestamp'', 8), (''local_timestamp'', 8),
      (''message_type'', 1), (''flags_and_count'', 1), (''symbol'', 20), (''exchange'', 20)]"

definition decoder_book_layout :: layout where
  "decoder_book_layout = [(''price'', 8), (''quantity_with_flags'', 8)]"

definition decoder_trade_layout :: layout where
  "decoder_trade_layout = [(''price'', 8), (''quantity_with_flags'', 8)]"

definition header_of_fields :: "(string \<times> u8 list) list \<Rightarrow> packet_header" where
  "header_of_fields fs = (let get = (\<lambda>name. the (map_of fs name)) in
     \<lparr> h_protocol_version = of_le_bytes (get ''protocol_version''), h_sequence_number = of_le_bytes (get ''sequence_number''),
       h_exchange_timestamp = of_le_bytes (get ''exchange_timestamp''), h_local_timestamp = of_le_bytes (get ''local_timestamp''),
       h_message_type = of_le_bytes (get ''message_type''), h_flags_and_count = of_le_bytes (get ''flags_and_count''),
       h_symbol = get ''symbol'', h_exchange = get ''exchange'' \<rparr>)"

definition decoder_header_read :: "u8 list \<Rightarrow> packet_header" where
  "decoder_header_read bs = header_of_fields (layout_fields 0 decoder_header_layout bs)"

definition decoder_book_read :: "u8 list \<Rightarrow> order_book_item" where
  "decoder_book_read bs =
     (let get = (\<lambda>name. of_le_bytes (the (map_of (layout_fields 0 decoder_book_layout bs) name)))
      in \<lparr> ob_price = get ''price'', ob_quantity_with_flags = get ''quantity_with_flags'' \<rparr>)"

definition decoder_trade_read :: "u8 list \<Rightarrow> trade_tick_item" where
  "decoder_trade_read bs =
     (let get = (\<lambda>name. of_le_bytes (the (map_of (layout_fields 0 decoder_trade_layout bs) name)))
      in \<lparr> tt_price = get ''price'', tt_quantity_with_flags = get ''quantity_with_flags'' \<rparr>)"

text \<open>So reading a struct of the tool is reading that of the protocol, and the sizes are the same.\<close>

lemma decoder_header_read [simp]: "decoder_header_read = header_read"
  by (rule ext) (simp add: decoder_header_read_def decoder_header_layout_def header_of_fields_def header_read_def Let_def)

lemma decoder_book_read [simp]: "decoder_book_read = book_read"
  by (rule ext) (simp add: decoder_book_read_def decoder_book_layout_def book_read_def Let_def)

lemma decoder_trade_read [simp]: "decoder_trade_read = trade_read"
  by (rule ext) (simp add: decoder_trade_read_def decoder_trade_layout_def trade_read_def Let_def)

lemma decoder_sizes:
  "layout_size decoder_header_layout = 67" "layout_size decoder_book_layout = 16" "layout_size decoder_trade_layout = 16"
  by (simp_all add: layout_size_def decoder_header_layout_def decoder_book_layout_def decoder_trade_layout_def)

section \<open>Fields\<close>

definition decoder_is_last :: "packet_header \<Rightarrow> bool" where
  "decoder_is_last h \<longleftrightarrow> (h_flags_and_count h AND 0b10000000) \<noteq> 0"

definition decoder_item_count :: "packet_header \<Rightarrow> u8" where
  "decoder_item_count h = h_flags_and_count h AND 0b01111111"

definition decoder_is_buyer_taker :: "trade_tick_item \<Rightarrow> bool" where
  "decoder_is_buyer_taker t \<longleftrightarrow> (tt_quantity_with_flags t AND push_bit 63 1) \<noteq> 0"

definition decoder_is_ask :: "order_book_item \<Rightarrow> bool" where
  "decoder_is_ask t \<longleftrightarrow> (ob_quantity_with_flags t AND push_bit 63 1) \<noteq> 0"

lemma decoder_flags [simp]:
  "decoder_is_last h = is_last h" "decoder_item_count h = item_count h"
  "decoder_is_buyer_taker t = flag_of (tt_quantity_with_flags t)" "decoder_is_ask b = book_is_ask b"
  by (simp_all add: decoder_is_last_def is_last_def decoder_item_count_def item_count_def decoder_is_buyer_taker_def
      decoder_is_ask_def book_is_ask_def flag_of_def)

definition symbol_as_string :: "packet_header \<Rightarrow> string" where
  "symbol_as_string h = from_utf8_lossy (takeWhile (\<lambda>b. b \<noteq> 0) (h_symbol h))"

definition exchange_as_string :: "packet_header \<Rightarrow> string" where
  "exchange_as_string h = from_utf8_lossy (takeWhile (\<lambda>b. b \<noteq> 0) (h_exchange h))"

definition decoder_scale :: f64 where
  "decoder_scale = f64_of_int 100000000"

definition decoder_trade_price :: "trade_tick_item \<Rightarrow> f64" where
  "decoder_trade_price t = f64_div (f64_of_i64 (tt_price t)) decoder_scale"

definition decoder_trade_quantity :: "trade_tick_item \<Rightarrow> f64" where
  "decoder_trade_quantity t = f64_div (f64_of_i64 (quantity_of (tt_quantity_with_flags t))) decoder_scale"

definition decoder_book_price :: "order_book_item \<Rightarrow> f64" where
  "decoder_book_price t = f64_div (f64_of_i64 (ob_price t)) decoder_scale"

definition decoder_book_quantity :: "order_book_item \<Rightarrow> f64" where
  "decoder_book_quantity t = f64_div (f64_of_i64 (ob_quantity_with_flags t AND 0x7FFFFFFFFFFFFFFF)) decoder_scale"

section \<open>Intervals\<close>

text \<open>\<^verbatim>\<open>Duration::as_secs_f64\<close>; subtracting instants saturates at zero.\<close>

definition as_secs_f64 :: "nat \<Rightarrow> f64" where
  "as_secs_f64 d = f64_add (f64_of_int (int (d div 10 ^ 9))) (f64_div (f64_of_int (int (d mod 10 ^ 9))) (f64_of_int (10 ^ 9)))"

definition interval_update :: "nat \<Rightarrow> interval_stat \<Rightarrow> f64 option \<times> interval_stat" where
  "interval_update now s =
     (let dt_ms = map_option (\<lambda>prev. f64_mul (as_secs_f64 (now - prev)) (f64_of_int 1000)) (is_last_seen s);
          s = s\<lparr>is_last_seen := Some now\<rparr>
      in case dt_ms of
           Some dt \<Rightarrow> (Some dt, s\<lparr>is_count := is_count s + 1, is_sum_ms := f64_add (is_sum_ms s) dt\<rparr>)
         | None \<Rightarrow> (None, s))"

definition interval_avg :: "interval_stat \<Rightarrow> f64" where
  "interval_avg s = (if is_count s = 0 then f64_zero else f64_div (is_sum_ms s) (f64_of_u64 (is_count s)))"

section \<open>Items\<close>

text \<open>The error texts are English glosses.\<close>

definition payload_too_small :: string where "payload_too_small = ''payload too small''"
definition packet_too_small :: string where "packet_too_small = ''packet too small''"

fun order_book_loop :: "u8 list \<Rightarrow> nat list \<Rightarrow> decoder_line list \<times> (string + unit)" where
  "order_book_loop payload [] = ([], Inr ())"
| "order_book_loop payload (i # is) =
     (let start = i * 16; stop = start + 16 in
      if length payload < stop then ([], Inl payload_too_small)
      else
        let item = decoder_book_read (drop start payload);
            (ls, r) = order_book_loop payload is
        in (ShowOrderBookItem (i + 1) (decoder_book_price item) (decoder_book_quantity item) # ls, r))"

definition decode_order_book_items :: "u8 list \<Rightarrow> u8 \<Rightarrow> decoder_line list \<times> (string + unit)" where
  "decode_order_book_items payload cnt =
     (let (ls, r) = order_book_loop payload [0..<unat cnt] in (ShowOrderBookTitle # ls, r))"

fun trade_tick_loop :: "u8 list \<Rightarrow> nat list \<Rightarrow> decoder_line list \<times> (string + unit)" where
  "trade_tick_loop payload [] = ([], Inr ())"
| "trade_tick_loop payload (i # is) =
     (let start = i * 16; stop = start + 16 in
      if length payload < stop then ([], Inl payload_too_small)
      else
        let item = decoder_trade_read (drop start payload);
            side = (if decoder_is_buyer_taker item then ''BUY'' else ''SELL'');
            (ls, r) = trade_tick_loop payload is
        in (ShowTradeTickItem (i + 1) (decoder_trade_price item) (decoder_trade_quantity item) side # ls, r))"

definition decode_trade_tick_items :: "u8 list \<Rightarrow> u8 \<Rightarrow> decoder_line list \<times> (string + unit)" where
  "decode_trade_tick_items payload cnt =
     (let (ls, r) = trade_tick_loop payload [0..<unat cnt] in (ShowTradeTickTitle # ls, r))"

section \<open>Packets\<close>

definition type_name :: "u8 \<Rightarrow> string" where
  "type_name mt = (if mt = 0 then ''OrderBook'' else if mt = 1 then ''TradeTick'' else ''Unknown'')"

definition track_interval ::
  "nat \<Rightarrow> string \<Rightarrow> string \<Rightarrow> (string \<rightharpoonup> interval_stat) \<Rightarrow> decoder_line list \<times> (string \<rightharpoonup> interval_stat)"
where
  "track_interval now ex symb intervals =
     (let key = ex @ ''|'' @ symb;
          entry = (case intervals key of None \<Rightarrow> \<lparr> is_last_seen = None, is_count = 0, is_sum_ms = f64_zero \<rparr> | Some e \<Rightarrow> e);
          (r, entry) = interval_update now entry;
          ls = (case r of
                  None \<Rightarrow> []
                | Some dt \<Rightarrow>
                    let avg = interval_avg entry in
                    if ex = ''BinanceFutures''
                    then [ShowInterval key dt avg
                            (Some (if avg < f64_of_int 50 then ''depth0ms assumed'' else ''(>=50ms)''))]
                    else [ShowInterval key dt avg None])
      in (ls, intervals(key \<mapsto> entry)))"

type_synonym decoder_state = "decoder_stats \<times> (string \<rightharpoonup> interval_stat)"

definition decode_packet ::
  "u8 list \<Rightarrow> nat \<Rightarrow> decoder_state \<Rightarrow> (decoder_line list \<times> (string + unit)) \<times> decoder_state"
where
  "decode_packet data now st =
     (if length data < 67 then (([], Inl packet_too_small), st)
      else
        let (stats, intervals) = st;
            header = decoder_header_read data;
            ex = exchange_as_string header;
            symb = symbol_as_string header;
            message_type = h_message_type header;
            shown = ShowHeader (h_protocol_version header) (h_sequence_number header) ex symb message_type
              (type_name message_type) (decoder_item_count header) (decoder_is_last header)
              (h_exchange_timestamp header) (h_local_timestamp header);
            payload = drop 67 data;
            ((ls, r), stats) =
              (if message_type = 0 then
                 (decode_order_book_items payload (decoder_item_count header),
                  stats\<lparr>orderbook_packets := orderbook_packets stats + 1,
                        orderbook_items := orderbook_items stats + ucast (decoder_item_count header)\<rparr>)
               else if message_type = 1 then
                 (decode_trade_tick_items payload (decoder_item_count header),
                  stats\<lparr>tradetick_packets := tradetick_packets stats + 1,
                        tradetick_items := tradetick_items stats + ucast (decoder_item_count header)\<rparr>)
               else (([ShowUnknownMessageType], Inr ()), stats))
        in case r of
             Inl e \<Rightarrow> ((shown # ls, Inl e), (stats, intervals))
           | Inr _ \<Rightarrow>
               if message_type = 0 then
                 let (ils, intervals) = track_interval now ex symb intervals
                 in ((shown # ls @ ils, Inr ()), (stats, intervals))
               else ((shown # ls, Inr ()), (stats, intervals)))"

text \<open>
  One turn of the receive loop: a datagram of at most 1500 bytes is kept, a longer one is cut by the
  buffer; a receive error ends the loop. A decoding error is printed and the loop goes on.
\<close>

definition on_datagram :: "u8 list \<Rightarrow> nat \<Rightarrow> decoder_state \<Rightarrow> (decoder_line list \<times> (string + unit)) \<times> decoder_state" where
  "on_datagram datagram now st =
     (let data = take 1500 datagram;
          stats = fst st;
          stats = stats\<lparr>total_packets := total_packets stats + 1\<rparr>;
          stats = stats\<lparr>total_bytes := total_bytes stats + of_nat (length data)\<rparr>
      in decode_packet data now (stats, snd st))"

datatype recv_result = Received "u8 list" nat | ReceiveError io_error

fun receive_loop :: "recv_result list \<Rightarrow> decoder_state \<Rightarrow> decoder_state" where
  "receive_loop [] st = st"
| "receive_loop (Received d now # rs) st = receive_loop rs (snd (on_datagram d now st))"
| "receive_loop (ReceiveError _ # rs) st = st"

text \<open>The summary after five seconds, for every tenth packet; \<open>elapsed\<close> is in nanoseconds.\<close>

definition summary_line :: "nat \<Rightarrow> decoder_stats \<Rightarrow> decoder_line list" where
  "summary_line elapsed stats =
     (if 5 * 10 ^ 9 \<le> elapsed \<and> total_packets stats mod 10 = 0 then
        [ShowSummary (total_packets stats) (total_bytes stats)
           (f64_div (f64_of_u64 (total_bytes stats)) (f64_of_u64 (max (total_packets stats) 1)))
           (orderbook_packets stats) (orderbook_items stats) (tradetick_packets stats) (tradetick_items stats)]
      else [])"

text \<open>Everything that the loop prints, up to the end of the given results.\<close>

fun receive_output :: "nat \<Rightarrow> recv_result list \<Rightarrow> decoder_state \<Rightarrow> decoder_line list" where
  "receive_output start [] st = []"
| "receive_output start (Received d now # rs) st =
     (let ((ls, r), st1) = on_datagram d now st in
      ShowReceived (length (take 1500 d)) # ls
      @ (case r of Inl e \<Rightarrow> [ShowDecodeError e] | Inr _ \<Rightarrow> [])
      @ summary_line (now - start) (fst st1) @ ShowSeparator # receive_output start rs st1)"
| "receive_output start (ReceiveError e # rs) st = [ShowReceiveError e]"

section \<open>The simple configuration reader\<close>

text \<open>A hash map built by insertions, as the finite map of its final bindings.\<close>

definition simple_ini_line :: "string \<Rightarrow> (string \<rightharpoonup> string) \<Rightarrow> (string \<rightharpoonup> string)" where
  "simple_ini_line raw cfg =
     (let line = trim raw in
      if line = [] \<or> starts_with line ''#'' \<or> starts_with line '';'' then cfg
      else if starts_with line ''['' \<and> ends_with line '']'' then cfg
      else case split_once CHR ''='' line of
             Some (k, v) \<Rightarrow> cfg(trim k \<mapsto> trim v)
           | None \<Rightarrow> cfg)"

definition parse_simple_ini :: "string \<Rightarrow> (string \<rightharpoonup> string)" where
  "parse_simple_ini content = fold simple_ini_line (lines content) Map.empty"

record udp_cfg =
  uc_multicast_addr :: string
  uc_port :: u16
  uc_interface_addr :: string

text \<open>The reading of the file is an argument: \<open>None\<close> when it fails.\<close>

definition read_udp_config_from_ini :: "string option \<Rightarrow> udp_cfg option" where
  "read_udp_config_from_ini file =
     (case file of
        None \<Rightarrow> None
      | Some content \<Rightarrow>
          let m = parse_simple_ini content in
          Some \<lparr> uc_multicast_addr = (case m ''multicast_addr'' of None \<Rightarrow> ''239.255.1.1'' | Some v \<Rightarrow> v),
                 uc_port = 55555,
                 uc_interface_addr = (case m ''interface_addr'' of None \<Rightarrow> ''0.0.0.0'' | Some v \<Rightarrow> v) \<rparr>)"

definition decoder_config :: "string option \<Rightarrow> string list \<Rightarrow> udp_cfg" where
  "decoder_config file args =
     (let cfg = (case read_udp_config_from_ini file of
                   None \<Rightarrow> \<lparr> uc_multicast_addr = ''239.255.1.1'', uc_port = 55555, uc_interface_addr = ''0.0.0.0'' \<rparr>
                 | Some c \<Rightarrow> c)
      in if 2 \<le> length args
         then (case parse_uint 16 (args ! 1) of Some p \<Rightarrow> cfg\<lparr>uc_port := of_nat p\<rparr> | None \<Rightarrow> cfg)
         else cfg)"

section \<open>What the decoder shows\<close>

lemma order_book_loop_eq:
  "order_book_loop payload js =
     (let ok = takeWhile (\<lambda>i. i * 16 + 16 \<le> length payload) js in
      (map (\<lambda>i. ShowOrderBookItem (i + 1) (decoder_book_price (book_read (drop (i * 16) payload)))
              (decoder_book_quantity (book_read (drop (i * 16) payload)))) ok,
       if length ok = length js then Inr () else Inl payload_too_small))"
  by (induction js) (auto simp: Let_def)

lemma trade_tick_loop_eq:
  "trade_tick_loop payload js =
     (let ok = takeWhile (\<lambda>i. i * 16 + 16 \<le> length payload) js in
      (map (\<lambda>i. ShowTradeTickItem (i + 1) (decoder_trade_price (trade_read (drop (i * 16) payload)))
              (decoder_trade_quantity (trade_read (drop (i * 16) payload)))
              (if flag_of (tt_quantity_with_flags (trade_read (drop (i * 16) payload))) then ''BUY'' else ''SELL'')) ok,
       if length ok = length js then Inr () else Inl payload_too_small))"
  by (induction js) (auto simp: Let_def)

lemma takeWhile_fits:
  "length (takeWhile (\<lambda>i. i * 16 + 16 \<le> l) [0..<n]) = n \<longleftrightarrow> n * 16 \<le> (l :: nat)"
proof
  assume "length (takeWhile (\<lambda>i. i * 16 + 16 \<le> l) [0..<n]) = n"
  then have "takeWhile (\<lambda>i. i * 16 + 16 \<le> l) [0..<n] = [0..<n]"
    using takeWhile_eq_take [of "\<lambda>i. i * 16 + 16 \<le> l" "[0..<n]"] by simp
  then have all: "\<forall>i \<in> set [0..<n]. i * 16 + 16 \<le> l" unfolding takeWhile_eq_all_conv .
  show "n * 16 \<le> l"
  proof (cases n)
    case (Suc m)
    then have "m * 16 + 16 \<le> l" using all by simp
    then show ?thesis using Suc by simp
  qed simp
next
  assume "n * 16 \<le> l"
  then have "takeWhile (\<lambda>i. i * 16 + 16 \<le> l) [0..<n] = [0..<n]" by (subst takeWhile_eq_all_conv) auto
  then show "length (takeWhile (\<lambda>i. i * 16 + 16 \<le> l) [0..<n]) = n" by (simp only:) simp
qed

lemma decode_items_result:
  "snd (decode_order_book_items payload cnt) = (if unat cnt * 16 \<le> length payload then Inr () else Inl payload_too_small)"
  "snd (decode_trade_tick_items payload cnt) = (if unat cnt * 16 \<le> length payload then Inr () else Inl payload_too_small)"
  by (simp_all add: decode_order_book_items_def decode_trade_tick_items_def order_book_loop_eq trade_tick_loop_eq
      Let_def takeWhile_fits)

lemma takeWhile_fits_all: "n * 16 \<le> (l :: nat) \<Longrightarrow> takeWhile (\<lambda>i. i * 16 + 16 \<le> l) [0..<n] = [0..<n]"
  by (subst takeWhile_eq_all_conv) auto

fun shown_level :: "decoder_line \<Rightarrow> (f64 \<times> f64) list" where
  "shown_level (ShowOrderBookItem _ p q) = [(p, q)]"
| "shown_level _ = []"

fun shown_trade :: "decoder_line \<Rightarrow> (f64 \<times> f64 \<times> string) list" where
  "shown_trade (ShowTradeTickItem _ p q side) = [(p, q, side)]"
| "shown_trade _ = []"

definition shown_levels :: "decoder_line list \<Rightarrow> (f64 \<times> f64) list" where
  "shown_levels ls = concat (map shown_level ls)"

definition shown_trades :: "decoder_line list \<Rightarrow> (f64 \<times> f64 \<times> string) list" where
  "shown_trades ls = concat (map shown_trade ls)"

lemma shown_simps [simp]:
  "shown_levels (l # ls) = shown_level l @ shown_levels ls" "shown_levels [] = []"
  "shown_levels (ls @ ks) = shown_levels ls @ shown_levels ks"
  "shown_trades (l # ls) = shown_trade l @ shown_trades ls" "shown_trades [] = []"
  "shown_trades (ls @ ks) = shown_trades ls @ shown_trades ks"
  by (simp_all add: shown_levels_def shown_trades_def)

lemma shown_decode_items:
  assumes "unat cnt * 16 \<le> length payload"
  shows "shown_levels (fst (decode_order_book_items payload cnt)) =
      map (\<lambda>i. (decoder_book_price (book_read (drop (i * 16) payload)),
                 decoder_book_quantity (book_read (drop (i * 16) payload)))) [0..<unat cnt]"
    and "shown_trades (fst (decode_trade_tick_items payload cnt)) =
      map (\<lambda>i. (decoder_trade_price (trade_read (drop (i * 16) payload)),
                 decoder_trade_quantity (trade_read (drop (i * 16) payload)),
                 if flag_of (tt_quantity_with_flags (trade_read (drop (i * 16) payload))) then ''BUY'' else ''SELL''))
        [0..<unat cnt]"
proof -
  have singles: "concat (map (shown_level \<circ> (\<lambda>i. ShowOrderBookItem (f i) (g i) (h i))) xs) = map (\<lambda>i. (g i, h i)) xs"
    "concat (map (shown_trade \<circ> (\<lambda>i. ShowTradeTickItem (f i) (g i) (h i) (k i))) xs) = map (\<lambda>i. (g i, h i, k i)) xs"
    for f :: "nat \<Rightarrow> nat" and g h k xs by (induction xs) simp_all
  show "shown_levels (fst (decode_order_book_items payload cnt)) =
      map (\<lambda>i. (decoder_book_price (book_read (drop (i * 16) payload)),
                 decoder_book_quantity (book_read (drop (i * 16) payload)))) [0..<unat cnt]"
    unfolding decode_order_book_items_def order_book_loop_eq Let_def takeWhile_fits_all [OF assms]
    by (simp add: shown_levels_def singles)
  show "shown_trades (fst (decode_trade_tick_items payload cnt)) =
      map (\<lambda>i. (decoder_trade_price (trade_read (drop (i * 16) payload)),
                 decoder_trade_quantity (trade_read (drop (i * 16) payload)),
                 if flag_of (tt_quantity_with_flags (trade_read (drop (i * 16) payload))) then ''BUY'' else ''SELL''))
        [0..<unat cnt]"
    unfolding decode_trade_tick_items_def trade_tick_loop_eq Let_def takeWhile_fits_all [OF assms]
    by (simp add: shown_trades_def singles)
qed

lemma shown_track_interval [simp]:
  "shown_levels (fst (track_interval now ex symb m)) = []"
  by (simp add: track_interval_def Let_def split: prod.splits option.splits)

lemma decode_packet_result:
  "snd (fst (decode_packet data now st)) =
     (if length data < 67 then Inl packet_too_small
      else if h_message_type (header_read data) \<in> {0, 1}
        \<and> length data < 67 + 16 * unat (item_count (header_read data)) then Inl payload_too_small
      else Inr ())"
  using decode_items_result [of "drop 67 data" "item_count (header_read data)"]
  by (cases st) (auto simp: decode_packet_def Let_def split: prod.splits sum.splits if_splits)

end
