(* ===== verification/Feed_Wire.thy ===== *)
theory Feed_Wire
  imports Order_Laws Decoder
begin

text \<open>
  From the builder to the receiver: what the decoder reads back from the packets that the builder made.
\<close>

section \<open>Names\<close>

lemma as_bytes_plain:
  assumes "\<And>c. c \<in> set s \<Longrightarrow> name_char c" "b \<in> set (as_bytes s)"
  shows "b \<noteq> 0" "unat b < 128"
proof -
  obtain c where c: "c \<in> set s" "b = of_nat (code_of c)" using assms(2) by (auto simp: as_bytes_def)
  have "unat b = code_of c" using code_of_less [of c] c(2) by (simp add: unat_of_nat_small)
  moreover have "code_of c \<noteq> 0" "code_of c < 128"
    using name_char_plain [OF assms(1) [OF c(1)]] by (auto simp: plain_char_def)
  ultimately show "b \<noteq> 0" "unat b < 128" by auto
qed

lemma takeWhile_name_bytes: "takeWhile (\<lambda>b. b \<noteq> 0) (name_bytes s) = as_bytes (take 19 (sanitized s))"
proof -
  have "\<forall>b \<in> set (as_bytes (take 19 (sanitized s))). b \<noteq> 0"
    using as_bytes_plain(1) [of "take 19 (sanitized s)"] sanitized_chars in_set_takeD by metis
  then show ?thesis unfolding name_bytes_split by (simp add: takeWhile_append2 takeWhile_eq_Nil_iff)
qed

lemma until_null_name_bytes:
  "from_utf8_lossy (takeWhile (\<lambda>b. b \<noteq> 0) (name_bytes s)) = take 19 (sanitized s)"
proof -
  have "unat b < 128" if "b \<in> set (as_bytes (take 19 (sanitized s)))" for b
    using as_bytes_plain(2) [OF _ that] sanitized_chars in_set_takeD by metis
  then show ?thesis unfolding takeWhile_name_bytes by (simp add: from_utf8_lossy_ascii)
qed

section \<open>Walking the item array\<close>

text \<open>The items of a packet, as the receivers read them: as many as the header says.\<close>

definition packet_items :: "(u8 list \<Rightarrow> 'a) \<Rightarrow> u8 list \<Rightarrow> 'a list" where
  "packet_items dec data =
     map (\<lambda>i. dec (drop (67 + i * 16) data)) [0..<unat (item_count (header_read data))]"

lemma header_read_flat [simp]: "header_valid h \<Longrightarrow> header_read (u_data (flat_packet h items)) = h"
  by (simp add: flat_packet_def Let_def header_codec.dec_enc)

lemma item_count_counted: "length c \<le> 80 \<Longrightarrow> unat (item_count (counted final c h)) = length c"
  unfolding counted_def by (rule unat_item_count_set_flags)

lemma packet_items_book:
  assumes "header_valid h" "length items \<le> 80"
  shows "packet_items book_read (u_data (flat_packet (counted final items h) (map book_to_bytes items))) = items"
  using assms book_codec.dec_flat [of items "[]"]
  by (simp add: packet_items_def item_count_counted drop_drop [symmetric] add.commute [of 67] del: drop_drop)

lemma packet_items_trade:
  assumes "header_valid h" "length items \<le> 80"
  shows "packet_items trade_read (u_data (flat_packet (counted final items h) (map trade_to_bytes items))) = items"
  using assms trade_codec.dec_flat [of items "[]"]
  by (simp add: packet_items_def item_count_counted drop_drop [symmetric] add.commute [of 67] del: drop_drop)

lemma counted_map: "counted final (map f c) = counted final c"
  by (simp add: counted_def fun_eq_iff)

lemma concat_packet_items_run:
  assumes "\<And>c final h. c \<in> set cs \<Longrightarrow> header_valid h \<Longrightarrow>
      packet_items dec (u_data (flat_packet (counted final c h) (map enc c))) = c"
  shows "concat (map (\<lambda>p. packet_items dec (u_data p)) (packet_run env symbol exchange mt ts (map (map enc) cs) s)) = concat cs"
proof -
  have "map (\<lambda>p. packet_items dec (u_data p)) (packet_run env symbol exchange mt ts (map (map enc) cs) s) = cs"
    using assms by (intro nth_equalityI) (simp_all add: nth_packet_run counted_map)
  then show ?thesis by simp
qed

theorem order_book_items_roundtrip:
  assumes "fst (build_order_book_packets env ob s) = Ok ps"
  shows "concat (map (\<lambda>p. packet_items book_read (u_data p)) ps) = all_book_items ob"
proof (cases "all_book_items ob = []")
  case True
  then show ?thesis using assms by (simp add: build_order_book_Nil)
next
  case False
  then have "ps = packet_run env (o_symbol ob) (o_exchange ob) MESSAGE_TYPE_ORDER_BOOK (o_timestamp ob)
        (map (map book_to_bytes) (chunks 80 (all_book_items ob))) s"
    using build_order_book_eq [OF False, of env s] assms by auto
  then show ?thesis
    using concat_packet_items_run [of "chunks 80 (all_book_items ob)" book_read book_to_bytes]
    by (simp add: packet_items_book chunks_bounds)
qed

theorem trade_batch_items_roundtrip:
  assumes "fst (build_trade_batch_packets env b s) = Ok ps"
  shows "concat (map (\<lambda>p. packet_items trade_read (u_data p)) ps) = map trade_item (sort_by cmp_trades (tb_trades b))"
proof (cases "tb_trades b = []")
  case True
  then show ?thesis using assms by (simp add: build_trade_batch_packets_def)
next
  case False
  let ?cs = "chunks 80 (map trade_item (sort_by cmp_trades (tb_trades b)))"
  have "ps = packet_run env (tb_symbol b) (tb_exchange b) MESSAGE_TYPE_TRADE_TICK (tb_exchange_timestamp b)
        (map (map trade_to_bytes) ?cs) s"
    using build_trade_batch_eq [OF False, of env s] assms by (auto simp: chunks_map comp_def)
  then show ?thesis
    using concat_packet_items_run [of ?cs trade_read trade_to_bytes]
    by (simp add: packet_items_trade chunks_bounds)
qed

section \<open>What the decoder shows of a packet\<close>

lemma shown_decode_packet:
  assumes "67 + 16 * unat (item_count (header_read data)) \<le> length data"
  shows "h_message_type (header_read data) = 0 \<Longrightarrow>
      shown_levels (fst (fst (decode_packet data now st))) =
        map (\<lambda>it. (decoder_book_price it, decoder_book_quantity it)) (packet_items book_read data)"
    and "h_message_type (header_read data) = 1 \<Longrightarrow>
      shown_trades (fst (fst (decode_packet data now st))) =
        map (\<lambda>it. (decoder_trade_price it, decoder_trade_quantity it, if trade_is_buyer_taker it then ''BUY'' else ''SELL''))
          (packet_items trade_read data)"
proof -
  let ?c = "item_count (header_read data)" and ?p = "drop 67 data"
  have fits: "unat ?c * 16 \<le> length ?p" and len: "\<not> length data < 67" using assms by simp_all
  obtain stats m where st: "st = (stats, m)" by (cases st)
  have ok: "snd (decode_order_book_items ?p ?c) = Inr ()" "snd (decode_trade_tick_items ?p ?c) = Inr ()"
    using fits decode_items_result by simp_all
  show "h_message_type (header_read data) = 0 \<Longrightarrow>
      shown_levels (fst (fst (decode_packet data now st))) =
        map (\<lambda>it. (decoder_book_price it, decoder_book_quantity it)) (packet_items book_read data)"
    using shown_decode_items(1) [OF fits] ok(1) len shown_track_interval
    by (cases "decode_order_book_items ?p ?c")
      (simp add: decode_packet_def st Let_def packet_items_def case_prod_unfold add.commute [of 67])
  show "h_message_type (header_read data) = 1 \<Longrightarrow>
      shown_trades (fst (fst (decode_packet data now st))) =
        map (\<lambda>it. (decoder_trade_price it, decoder_trade_quantity it, if trade_is_buyer_taker it then ''BUY'' else ''SELL''))
          (packet_items trade_read data)"
    using shown_decode_items(2) [OF fits] ok(2) len
    by (cases "decode_trade_tick_items ?p ?c")
      (simp add: decode_packet_def st Let_def packet_items_def case_prod_unfold add.commute [of 67] trade_is_buyer_taker_def)
qed

lemma decode_fits: "67 + 16 * unat (item_count (header_read data)) \<le> length data \<Longrightarrow> snd (fst (decode_packet data now st)) = Inr ()"
  by (simp add: decode_packet_result)

lemma concat_map_cong: "(\<And>x. x \<in> set xs \<Longrightarrow> f x = g x) \<Longrightarrow> concat (map f xs) = concat (map g xs)"
  by (metis map_cong)

lemma map_concat_map: "concat (map (\<lambda>x. map f (g x)) xs) = map f (concat (map g xs))"
  by (induction xs) simp_all

text \<open>Every packet of a run is well formed and carries the common fields.\<close>

lemma in_packet_run:
  assumes "p \<in> set (packet_run env symbol exchange mt ts cs s)"
  obtains i where "i < length cs" "p = flat_packet (counted (i = length cs - 1) (cs ! i)
       (spec_header env symbol exchange mt ts (pb_sequence_counter s + of_nat i) (pb_clock_reads s + i))) (cs ! i)"
  using assms by (auto simp: in_set_conv_nth nth_packet_run)

lemma run_fits:
  assumes "p \<in> set (packet_run env symbol exchange mt ts (map (map enc) cs) s)"
    and "\<And>c. c \<in> set cs \<Longrightarrow> length c \<le> 80" "\<And>x. length (enc x) = 16"
  shows "67 + 16 * unat (item_count (header_read (u_data p))) \<le> length (u_data p)"
    and "h_message_type (header_read (u_data p)) = mt"
proof -
  obtain i where i: "i < length cs" and p: "p = flat_packet (counted (i = length cs - 1) (cs ! i)
       (spec_header env symbol exchange mt ts (pb_sequence_counter s + of_nat i) (pb_clock_reads s + i))) (map enc (cs ! i))"
    using assms(1) by (auto elim!: in_packet_run simp: counted_map)
  show "h_message_type (header_read (u_data p)) = mt" by (simp add: p)
  have "length (concat (map enc (cs ! i))) = length (cs ! i) * 16"
    using assms(3) by (intro length_items) simp
  then show "67 + 16 * unat (item_count (header_read (u_data p))) \<le> length (u_data p)"
    using assms(2) [OF nth_mem [OF i]] by (simp add: p item_count_counted length_flat_packet)
qed

lemma order_book_packets_fit:
  assumes "fst (build_order_book_packets env ob s) = Ok ps" "p \<in> set ps"
  shows "67 + 16 * unat (item_count (header_read (u_data p))) \<le> length (u_data p)"
    and "h_message_type (header_read (u_data p)) = 0"
proof -
  have ne: "all_book_items ob \<noteq> []" using assms by (auto simp: build_order_book_Nil)
  have ps: "ps = packet_run env (o_symbol ob) (o_exchange ob) MESSAGE_TYPE_ORDER_BOOK (o_timestamp ob)
        (map (map book_to_bytes) (chunks 80 (all_book_items ob))) s"
    using build_order_book_eq [OF ne, of env s] assms by auto
  show "67 + 16 * unat (item_count (header_read (u_data p))) \<le> length (u_data p)"
    using assms(2) unfolding ps by (rule run_fits) (simp_all add: chunks_bounds book_codec.enc_length)
  show "h_message_type (header_read (u_data p)) = 0"
    using run_fits(2) [OF assms(2) [unfolded ps]] by (simp add: chunks_bounds book_codec.enc_length message_types)
qed

lemma trade_batch_packets_fit:
  assumes "fst (build_trade_batch_packets env b s) = Ok ps" "p \<in> set ps"
  shows "67 + 16 * unat (item_count (header_read (u_data p))) \<le> length (u_data p)"
    and "h_message_type (header_read (u_data p)) = 1"
proof -
  have ne: "tb_trades b \<noteq> []" using assms by (auto simp: build_trade_batch_packets_def)
  have ps: "ps = packet_run env (tb_symbol b) (tb_exchange b) MESSAGE_TYPE_TRADE_TICK (tb_exchange_timestamp b)
        (map (map (\<lambda>t. trade_to_bytes (trade_item t))) (chunks 80 (sort_by cmp_trades (tb_trades b)))) s"
    using build_trade_batch_eq [OF ne, of env s] assms by auto
  show "67 + 16 * unat (item_count (header_read (u_data p))) \<le> length (u_data p)"
    using assms(2) unfolding ps by (rule run_fits) (simp_all add: chunks_bounds trade_codec.enc_length)
  show "h_message_type (header_read (u_data p)) = 1"
    using run_fits(2) [OF assms(2) [unfolded ps]] by (simp add: chunks_bounds trade_codec.enc_length message_types)
qed

section \<open>Framing\<close>

text \<open>The last-packet flags and the item counts of a run.\<close>

definition frames :: "udp_packet list \<Rightarrow> (bool \<times> nat) list" where
  "frames ps = map (\<lambda>p. (is_last (header_read (u_data p)), unat (item_count (header_read (u_data p))))) ps"

text \<open>What a message of \<open>n\<close> items looks like in packets of at most \<open>k\<close>: full packets, the last one marked.\<close>

definition framing :: "nat \<Rightarrow> nat \<Rightarrow> (bool \<times> nat) list" where
  "framing k n = (if n = 0 then [] else replicate ((n - 1) div k) (False, k) @ [(True, (n - 1) mod k + 1)])"

lemma chunk_lengths:
  assumes "0 < k" "xs \<noteq> []"
  shows "map length (chunks k xs) = replicate ((length xs - 1) div k) k @ [(length xs - 1) mod k + 1]"
  using assms
proof (induction k xs rule: chunks.induct)
  case (1 k xs)
  have unf: "chunks k xs = take k xs # chunks k (drop k xs)" using "1.prems" by (simp add: chunks_unfold)
  show ?case
  proof (cases "length xs \<le> k")
    case True
    then show ?thesis using "1.prems" by (cases xs) (simp_all add: length_chunks_single)
  next
    case False
    then have ne: "drop k xs \<noteq> []" by simp
    have "length xs - 1 = k + (length (drop k xs) - 1)" using False "1.prems" by simp
    moreover have "(k + a) div k = Suc (a div k)" "(k + a) mod k = a mod k" for a
      using "1.prems"(1) by simp_all
    ultimately have "(length xs - 1) div k = Suc ((length (drop k xs) - 1) div k)"
      "(length xs - 1) mod k = (length (drop k xs) - 1) mod k" by presburger+
    moreover have "map length (chunks k (drop k xs)) =
        replicate ((length (drop k xs) - 1) div k) k @ [(length (drop k xs) - 1) mod k + 1]"
      using "1.IH" "1.prems" ne by blast
    ultimately show ?thesis using False unfolding unf by simp
  qed
qed

lemma frames_run:
  assumes "\<And>c. c \<in> set cs \<Longrightarrow> length c \<le> 80"
  shows "frames (packet_run env symbol exchange mt ts cs s) =
    map (\<lambda>i. (i = length cs - 1, length (cs ! i))) [0..<length cs]"
  using assms by (intro nth_equalityI) (simp_all add: frames_def nth_packet_run item_count_counted)

lemma frames_chunks:
  assumes "0 < k" "k \<le> 80" "xs \<noteq> []"
  shows "frames (packet_run env symbol exchange mt ts (map (map f) (chunks k xs)) s) = framing k (length xs)"
proof -
  let ?cs = "map (map f) (chunks k xs)" and ?m = "(length xs - 1) div k" and ?r = "(length xs - 1) mod k + 1"
  have lens: "map length ?cs = replicate ?m k @ [?r]" using chunk_lengths [OF assms(1,3)] by (simp add: comp_def)
  then have n: "length ?cs = Suc ?m" by (metis length_append_singleton length_map length_replicate)
  have nth: "length (?cs ! i) = (replicate ?m k @ [?r]) ! i" if "i < length ?cs" for i
    using that lens by (metis nth_map)
  have "frames (packet_run env symbol exchange mt ts ?cs s) = map (\<lambda>i. (i = length ?cs - 1, length (?cs ! i))) [0..<length ?cs]"
    using assms chunks_bounds [of k _ xs] by (intro frames_run) fastforce
  also have "\<dots> = framing k (length xs)"
  proof (rule nth_equalityI)
    fix i assume "i < length (map (\<lambda>i. (i = length ?cs - 1, length (?cs ! i))) [0..<length ?cs])"
    then have "i < Suc ?m" using n by simp
    then show "map (\<lambda>i. (i = length ?cs - 1, length (?cs ! i))) [0..<length ?cs] ! i = framing k (length xs) ! i"
      using assms(3) nth [of i] n by (auto simp: framing_def nth_append less_Suc_eq)
  qed (use n assms(3) in \<open>simp add: framing_def\<close>)
  finally show ?thesis .
qed

text \<open>The names and the timestamp in the headers of a run.\<close>

definition labels :: "udp_packet \<Rightarrow> string \<times> string \<times> u8 \<times> u64" where
  "labels p = (let h = header_read (u_data p) in
     (symbol_as_string h, exchange_as_string h, h_message_type h, h_exchange_timestamp h))"

lemma labels_run:
  "map labels (packet_run env symbol exchange mt ts cs s) =
     replicate (length cs) (take 19 (filter name_char symbol), take 19 (filter name_char exchange), mt, ts)"
  by (intro nth_equalityI)
    (simp_all add: nth_packet_run labels_def symbol_as_string_def exchange_as_string_def until_null_name_bytes
      sanitized_filter)

section \<open>Shown values\<close>

text \<open>The decoder's own copies of the item methods give the library's values.\<close>

definition decoder_level :: "order_book_item \<Rightarrow> f64 \<times> f64" where
  "decoder_level it = (decoder_book_price it, decoder_book_quantity it)"

definition decoder_trade :: "trade_tick_item \<Rightarrow> f64 \<times> f64 \<times> string" where
  "decoder_trade it = (decoder_trade_price it, decoder_trade_quantity it, if trade_is_buyer_taker it then ''BUY'' else ''SELL'')"

lemma decoder_scale_eq: "f64_of_i64 PRICE_SCALE = decoder_scale" "f64_of_i64 QUANTITY_SCALE = decoder_scale"
  by (simp_all add: decoder_scale_def scales f64_of_i64_def)

lemma decoder_level_eq: "decoder_level it = (book_get_real_price it, book_get_real_quantity it)"
  by (simp add: decoder_level_def decoder_book_price_def decoder_book_quantity_def book_get_real_price_def
      book_get_real_quantity_def book_quantity_def quantity_of_def decoder_scale_eq)

lemma decoder_trade_eq:
  "decoder_trade it = (trade_get_real_price it, trade_get_real_quantity it, if trade_is_buyer_taker it then ''BUY'' else ''SELL'')"
  by (simp add: decoder_trade_def decoder_trade_price_def decoder_trade_quantity_def trade_get_real_price_def
      trade_get_real_quantity_def trade_quantity_def decoder_scale_eq)

lemma mset_all_book_items: "mset (all_book_items ob) = mset (book_items False (o_bids ob) @ book_items True (o_asks ob))"
  by (simp add: all_book_items_def mset_book_items_sort)

lemma well_formed_size: "well_formed q p \<Longrightarrow> u_size p \<le> 1347"
  by (auto simp: well_formed_def item_size_def split: option.splits if_splits)

section \<open>Single packets\<close>

lemma trade_batch_frames:
  assumes "fst (build_trade_batch_packets env b s) = Ok ps"
  shows "frames ps = framing 80 (length (tb_trades b))"
proof (cases "tb_trades b = []")
  case True
  then show ?thesis using assms by (simp add: build_trade_batch_packets_def frames_def framing_def)
next
  case False
  then have "ps = packet_run env (tb_symbol b) (tb_exchange b) MESSAGE_TYPE_TRADE_TICK (tb_exchange_timestamp b)
        (map (map (\<lambda>t. trade_to_bytes (trade_item t))) (chunks 80 (sort_by cmp_trades (tb_trades b)))) s"
    using build_trade_batch_eq [OF False, of env s] assms by auto
  then show ?thesis using False frames_chunks [of 80 "sort_by cmp_trades (tb_trades b)"] by simp
qed

lemma frames_single:
  "header_valid h \<Longrightarrow> frames [flat_packet (counted final [x] h) items] = [(final, 1)]"
  using item_count_counted [of "[x]" final h] by (simp add: frames_def)

lemma labels_single:
  "labels (flat_packet (counted final c (spec_header env symbol exchange mt ts sq rd)) items) =
     (take 19 (filter name_char symbol), take 19 (filter name_char exchange), mt, ts)"
  by (simp add: labels_def symbol_as_string_def exchange_as_string_def until_null_name_bytes sanitized_filter)

text \<open>The liquidation item sets the flag above an unmasked quantity.\<close>

lemma flag_of_iff: "flag_of w \<longleftrightarrow> sint w < 0"
proof -
  have "flag_of w \<longleftrightarrow> bit w 63"
    using and_exp_eq_0_iff_not_bit [of w 63] by (simp add: flag_of_def push_bit_eq_mult)
  then show ?thesis using bit_last_iff [of w] by simp
qed

lemma liquidation_flag:
  "flag_of (if b then q OR push_bit 63 1 else q) = (b \<or> sint q < 0)"
  "sint (quantity_of (if b then q OR push_bit 63 1 else q)) = sint q mod 2 ^ 63"
proof -
  have m: "quantity_of (q OR push_bit 63 1) = quantity_of q"
    unfolding quantity_of_def mask_consts by (rule or_above_mask)
  have "flag_of (q OR push_bit 63 1)"
    using and_exp_eq_0_iff_not_bit [of "q OR push_bit 63 1" 63]
    by (simp add: flag_of_def push_bit_eq_mult bit_or_iff bit_exp_iff)
  then show "flag_of (if b then q OR push_bit 63 1 else q) = (b \<or> sint q < 0)"
    using flag_of_iff [of q] by (cases b) (simp_all only: if_True if_False simp_thms)
  show "sint (quantity_of (if b then q OR push_bit 63 1 else q)) = sint q mod 2 ^ 63"
    using m sint_quantity_of [of q] by simp
qed

text \<open>The liquidation item, as a receiver reads the sixteen bytes.\<close>

definition liquidation_view :: "f64 \<Rightarrow> f64 \<Rightarrow> bool \<Rightarrow> trade_tick_item" where
  "liquidation_view price qty is_sell =
     \<lparr> tt_price = scaled_by PRICE_SCALE price,
       tt_quantity_with_flags = (if is_sell then scaled_by QUANTITY_SCALE qty OR push_bit 63 1
                                 else scaled_by QUANTITY_SCALE qty) \<rparr>"

lemma liquidation_view_eqs:
  "sint (tt_price (liquidation_view p q b)) = f64_trunc (f64_mul p (f64_of_int 100000000))"
  "trade_is_buyer_taker (liquidation_view p q b) = (b \<or> f64_trunc (f64_mul q (f64_of_int 100000000)) < 0)"
  "sint (trade_quantity (liquidation_view p q b)) = f64_trunc (f64_mul q (f64_of_int 100000000)) mod 2 ^ 63"
  using liquidation_flag [of b "scaled_by QUANTITY_SCALE q"]
  unfolding liquidation_view_def trade_is_buyer_taker_def trade_quantity_def trade_tick_item.simps scales scaled_by_eq
  by simp_all

lemma build_liquidation_view:
  "\<exists>s'. build_liquidation_packet env symbol exchange ts price qty is_sell s =
      (Ok (flat_packet (counted True [()] (spec_header env symbol exchange MESSAGE_TYPE_LIQUIDATION ts
          (pb_sequence_counter s) (pb_clock_reads s))) [trade_to_bytes (liquidation_view price qty is_sell)]), s')"
  using build_liquidation_eq [of env symbol exchange ts price qty is_sell s]
  by (auto simp: liquidation_view_def trade_to_bytes_def)

lemma packet_items_single:
  "header_valid h \<Longrightarrow> packet_items trade_read (u_data (flat_packet (counted final [()] h) [trade_to_bytes it])) = [it]"
  using packet_items_trade [of h "[it]" final] by (simp add: counted_def)

section \<open>Whole messages\<close>

text \<open>What a receiver of all packets of an order book or of a trade batch sees.\<close>

lemma order_book_view:
  assumes "fst (build_order_book_packets env ob s) = Ok ps"
  shows "concat (map (\<lambda>p. shown_levels (fst (fst (decode_packet (u_data p) now st)))) ps) =
      map (\<lambda>it. (book_get_real_price it, book_get_real_quantity it)) (all_book_items ob)"
    and "list_all (\<lambda>p. snd (fst (decode_packet (u_data p) now st)) = Inr ()) ps"
proof -
  have "concat (map (\<lambda>p. shown_levels (fst (fst (decode_packet (u_data p) now st)))) ps) =
      map decoder_level (concat (map (\<lambda>p. packet_items book_read (u_data p)) ps))"
    unfolding map_concat_map [symmetric]
    by (rule concat_map_cong) (simp add: shown_decode_packet(1) order_book_packets_fit [OF assms] decoder_level_def)
  moreover have "decoder_level = (\<lambda>it. (book_get_real_price it, book_get_real_quantity it))"
    by (rule ext) (rule decoder_level_eq)
  ultimately show "concat (map (\<lambda>p. shown_levels (fst (fst (decode_packet (u_data p) now st)))) ps) =
      map (\<lambda>it. (book_get_real_price it, book_get_real_quantity it)) (all_book_items ob)"
    using order_book_items_roundtrip [OF assms] by simp
  show "list_all (\<lambda>p. snd (fst (decode_packet (u_data p) now st)) = Inr ()) ps"
    using order_book_packets_fit(1) [OF assms] by (simp add: list_all_iff decode_fits)
qed

lemma order_book_labels:
  assumes "fst (build_order_book_packets env ob s) = Ok ps"
  shows "map labels ps = replicate (length ps)
         (take 19 (filter name_char (o_symbol ob)), take 19 (filter name_char (o_exchange ob)), 0, o_timestamp ob)"
proof (cases "all_book_items ob = []")
  case True
  then show ?thesis using assms by (simp add: build_order_book_Nil)
next
  case False
  then show ?thesis using build_order_book_eq [OF False, of env s] assms by (auto simp: labels_run message_types)
qed

end
