(* ===== verification/Trade_Groups.thy ===== *)
theory Trade_Groups
  imports Feed_Wire
begin

text \<open>
  The grouping of \<^verbatim>\<open>build_trade_packets_batch\<close>: the hash maps split the trades by timestamp and by
  symbol and exchange; whatever order the maps are visited in, every trade is sent exactly once, in a
  packet with its own names and timestamp.
\<close>

section \<open>The maps\<close>

lemma map_of_hm_push:
  "map_of (hm_push k v m) = (map_of m)(k \<mapsto> (case map_of m k of None \<Rightarrow> [v] | Some vs \<Rightarrow> vs @ [v]))"
  by (induction m) (auto simp: fun_eq_iff)

lemma keys_hm_push: "map fst (hm_push k v m) = (if k \<in> fst ` set m then map fst m else map fst m @ [k])"
  by (induction m) (auto, force+)

lemma set_keys_hm_push: "fst ` set (hm_push k v m) = insert k (fst ` set m)"
proof -
  have "set (map fst (hm_push k v m)) = insert k (set (map fst m))" unfolding keys_hm_push by auto
  then show ?thesis by simp
qed

lemma distinct_hm_push: "distinct (map fst m) \<Longrightarrow> distinct (map fst (hm_push k v m))"
  by (simp add: keys_hm_push)

lemma hm_group_snoc: "hm_group key (xs @ [x]) = hm_push (key x) x (hm_group key xs)"
  by (simp add: hm_group_def)

lemma keys_hm_group: "fst ` set (hm_group key xs) = key ` set xs \<and> distinct (map fst (hm_group key xs))"
proof (induction xs rule: rev_induct)
  case Nil
  then show ?case by (simp add: hm_group_def)
next
  case (snoc x xs)
  then show ?case by (simp add: hm_group_snoc set_keys_hm_push distinct_hm_push)
qed

lemma map_of_hm_group:
  "map_of (hm_group key xs) k = (if k \<in> key ` set xs then Some (filter (\<lambda>x. key x = k) xs) else None)"
proof (induction xs rule: rev_induct)
  case Nil
  then show ?case by (simp add: hm_group_def)
next
  case (snoc x xs)
  have none: "filter (\<lambda>y. key y = key x) xs = []" if "key x \<notin> key ` set xs"
    using that by (auto simp: filter_empty_conv image_iff)
  show ?case using snoc.IH none by (auto simp: hm_group_snoc map_of_hm_push)
qed

lemma mset_filter_keys:
  assumes "finite K" "key ` set_mset M \<subseteq> K"
  shows "(\<Sum>k \<in> K. filter_mset (\<lambda>x. key x = k) M) = M"
  using assms(2)
proof (induction M)
  case empty
  then show ?case by simp
next
  case (add x M)
  have "(\<Sum>k \<in> K. filter_mset (\<lambda>y. key y = k) (add_mset x M)) =
      (\<Sum>k \<in> K. (if k = key x then {#x#} else {#}) + filter_mset (\<lambda>y. key y = k) M)"
    by (intro sum.cong refl) auto
  also have "\<dots> = {#x#} + M"
    using add assms(1) by (simp add: sum.distrib)
  finally show ?case by simp
qed

lemma sum_hm_iter:
  assumes "mset (ord (map fst (hm_group key xs))) = mset (map fst (hm_group key xs))"
  shows "sum_list (map (\<lambda>g. mset (snd g)) (hm_iter ord (hm_group key xs))) = mset xs"
    and "\<forall>(k, vs) \<in> set (hm_iter ord (hm_group key xs)). vs \<noteq> [] \<and> (\<forall>x \<in> set vs. key x = k)"
proof -
  let ?ks = "ord (map fst (hm_group key xs))"
  have set: "set ?ks = key ` set xs" using assms keys_hm_group [of key xs] by (metis list.set_map set_mset_mset)
  have dist: "distinct ?ks" using assms keys_hm_group [of key xs] by (metis mset_eq_imp_distinct_iff)
  have grp: "the (map_of (hm_group key xs) k) = filter (\<lambda>x. key x = k) xs" if "k \<in> set ?ks" for k
    using that set by (simp add: map_of_hm_group)
  have "sum_list (map (\<lambda>g. mset (snd g)) (hm_iter ord (hm_group key xs))) =
      sum_list (map (\<lambda>k. filter_mset (\<lambda>x. key x = k) (mset xs)) ?ks)"
    using grp by (simp add: hm_iter_def comp_def cong: map_cong)
  also have "\<dots> = (\<Sum>k \<in> set ?ks. filter_mset (\<lambda>x. key x = k) (mset xs))"
    using dist by (simp add: sum_list_distinct_conv_sum_set)
  also have "\<dots> = mset xs" using set by (intro mset_filter_keys) simp_all
  finally show "sum_list (map (\<lambda>g. mset (snd g)) (hm_iter ord (hm_group key xs))) = mset xs" .
  show "\<forall>(k, vs) \<in> set (hm_iter ord (hm_group key xs)). vs \<noteq> [] \<and> (\<forall>x \<in> set vs. key x = k)"
    using grp set by (auto simp: hm_iter_def filter_empty_conv)
qed

section \<open>The trades on the wire\<close>

definition tagged_items :: "udp_packet list \<Rightarrow> ((string \<times> string \<times> u8 \<times> u64) \<times> trade_tick_item) list" where
  "tagged_items ps = concat (map (\<lambda>p. map (Pair (labels p)) (packet_items trade_read (u_data p))) ps)"

definition tag_of :: "standardized_trade \<Rightarrow> (string \<times> string \<times> u8 \<times> u64) \<times> trade_tick_item" where
  "tag_of t = ((take 19 (filter name_char (t_symbol t)), take 19 (filter name_char (t_exchange t)),
     MESSAGE_TYPE_TRADE_TICK, t_timestamp t), trade_item t)"

definition yields :: "standardized_trade multiset \<Rightarrow> udp_packet list result \<times> packet_builder \<Rightarrow> bool" where
  "yields T r \<longleftrightarrow> (\<exists>ps s'. r = (Ok ps, s') \<and> mset (tagged_items ps) = image_mset tag_of T)"

lemma tagged_items_append: "tagged_items (ps @ qs) = tagged_items ps @ tagged_items qs"
  by (simp add: tagged_items_def)

lemma yields_try_extend:
  assumes "\<And>x s. x \<in> set xs \<Longrightarrow> yields (T x) (f x s)"
  shows "yields (sum_list (map T xs)) (try_extend f xs s)"
  using assms
proof (induction xs arbitrary: s)
  case Nil
  then show ?case by (simp add: try_extend_def yields_def tagged_items_def)
next
  case (Cons x xs)
  obtain ps s1 where 1: "f x s = (Ok ps, s1)" "mset (tagged_items ps) = image_mset tag_of (T x)"
    using Cons.prems [of x s] by (auto simp: yields_def)
  obtain qs s2 where 2: "try_extend f xs s1 = (Ok qs, s2)"
      "mset (tagged_items qs) = image_mset tag_of (sum_list (map T xs))"
    using Cons.IH [of s1] Cons.prems by (auto simp: yields_def)
  have "try_extend f (x # xs) s = (Ok (ps @ qs), s2)"
    using 1(1) 2(1) by (auto simp: try_extend_def split: prod.splits sum.splits)
  then show ?case using 1(2) 2(2) by (simp add: yields_def tagged_items_append)
qed

lemma tagged_run:
  assumes "\<And>c. c \<in> set cs \<Longrightarrow> length c \<le> 80"
  shows "tagged_items (packet_run env symbol exchange MESSAGE_TYPE_TRADE_TICK ts (map (map trade_to_bytes) cs) s) =
    map (Pair (take 19 (filter name_char symbol), take 19 (filter name_char exchange), MESSAGE_TYPE_TRADE_TICK, ts)) (concat cs)"
proof -
  let ?l = "(take 19 (filter name_char symbol), take 19 (filter name_char exchange), MESSAGE_TYPE_TRADE_TICK, ts)"
  let ?ps = "packet_run env symbol exchange MESSAGE_TYPE_TRADE_TICK ts (map (map trade_to_bytes) cs) s"
  have l: "labels p = ?l" if "p \<in> set ?ps" for p
  proof -
    have "labels p \<in> set (map labels ?ps)" using that by simp
    then show ?thesis unfolding labels_run by simp
  qed
  have "tagged_items ?ps = concat (map (\<lambda>p. map (Pair ?l) (packet_items trade_read (u_data p))) ?ps)"
    unfolding tagged_items_def by (rule concat_map_cong) (simp only: l)
  also have "\<dots> = map (Pair ?l) (concat (map (\<lambda>p. packet_items trade_read (u_data p)) ?ps))"
    by (rule map_concat_map)
  also have "concat (map (\<lambda>p. packet_items trade_read (u_data p)) ?ps) = concat cs"
    using assms by (intro concat_packet_items_run) (simp add: packet_items_trade)
  finally show ?thesis .
qed

lemma yields_symbol_group:
  assumes "\<forall>t \<in> set trades. (t_symbol t, t_exchange t) = key \<and> t_timestamp t = ts"
  shows "yields (mset trades) (build_symbol_group env ts (key, trades) s)"
proof -
  obtain symbol exchange where key: "key = (symbol, exchange)" by (cases key)
  obtain s' where b: "build_symbol_group env ts (key, trades) s =
      (Ok (packet_run env symbol exchange MESSAGE_TYPE_TRADE_TICK ts
        (map (map trade_to_bytes) (chunks 50 (map trade_item trades))) s), s')"
    using build_symbol_group_eq [of env ts symbol exchange trades s] key by (auto simp: chunks_map comp_def)
  have "map (Pair (take 19 (filter name_char symbol), take 19 (filter name_char exchange), MESSAGE_TYPE_TRADE_TICK, ts))
      (map trade_item trades) = map tag_of trades"
    using assms key by (auto simp: tag_of_def)
  moreover have "length c \<le> 80" if "c \<in> set (chunks 50 (map trade_item trades))" for c
    using chunks_bounds [OF _ that] by simp
  ultimately have "mset (tagged_items (packet_run env symbol exchange MESSAGE_TYPE_TRADE_TICK ts
        (map (map trade_to_bytes) (chunks 50 (map trade_item trades))) s)) = image_mset tag_of (mset trades)"
    by (simp only: tagged_run concat_chunks zero_less_numeral mset_map)
  with b show ?thesis unfolding yields_def by blast
qed

lemma sum_list_snd: "sum_list (map (\<lambda>g. mset (snd g)) gs) = sum_list (map (\<lambda>(k, vs). mset vs) gs)"
  by (simp add: case_prod_unfold)

lemma yields_timestamp_group:
  assumes "env_ok env" "trades \<noteq> []" "\<forall>t \<in> set trades. t_timestamp t = ts"
  shows "yields (mset trades) (build_timestamp_group env (ts, trades) s)"
proof -
  let ?key = "\<lambda>t. (t_symbol t, t_exchange t)" and ?s = "sort_by cmp_trades trades"
  let ?gs = "hm_iter (key_order env (pb_maps_made s)) (hm_group ?key ?s)"
  have perm: "mset (key_order env (pb_maps_made s) ks) = mset ks" for ks using assms(1) by (simp add: env_ok_def)
  note iter = sum_hm_iter [of "key_order env (pb_maps_made s)" ?key ?s, OF perm]
  have sub: "set (snd g) \<subseteq> set trades" if "g \<in> set ?gs" for g
  proof -
    have "set_mset (mset (snd g)) \<subseteq> set_mset (sum_list (map (\<lambda>g. mset (snd g)) ?gs))"
      using that by (induction ?gs) auto
    then show ?thesis unfolding iter(1) by simp
  qed
  have "yields (mset (snd g)) (build_symbol_group env ts g s')" if g: "g \<in> set ?gs" for g s'
    using yields_symbol_group [of "snd g" "fst g" ts env s'] iter(2) g sub [OF g] assms(3) by fastforce
  then have "yields (sum_list (map (\<lambda>g. mset (snd g)) ?gs))
      (try_extend (build_symbol_group env ts) ?gs (s\<lparr>pb_maps_made := Suc (pb_maps_made s)\<rparr>))"
    by (rule yields_try_extend)
  then show ?thesis
    unfolding iter(1) using assms(2) by (simp add: build_timestamp_group_def new_map_def Let_def)
qed

theorem yields_trades_batch:
  assumes "env_ok env"
  shows "yields (mset trades) (build_trade_packets_batch env trades s)"
proof (cases "trades = []")
  case True
  then show ?thesis by (simp add: build_trade_packets_batch_def yields_def tagged_items_def)
next
  case False
  let ?gs = "hm_iter (ts_order env (pb_maps_made s)) (hm_group t_timestamp trades)"
  have perm: "mset (ts_order env (pb_maps_made s) ks) = mset ks" for ks using assms by (simp add: env_ok_def)
  note iter = sum_hm_iter [of "ts_order env (pb_maps_made s)" t_timestamp trades, OF perm]
  have "yields (mset (snd g)) (build_timestamp_group env g s')" if "g \<in> set ?gs" for g s'
    using yields_timestamp_group [OF assms, of "snd g" "fst g" s'] iter(2) that by fastforce
  then have "yields (sum_list (map (\<lambda>g. mset (snd g)) ?gs))
      (try_extend (build_timestamp_group env) ?gs (s\<lparr>pb_maps_made := Suc (pb_maps_made s)\<rparr>))"
    by (rule yields_try_extend)
  then show ?thesis
    unfolding iter(1) using False by (simp add: build_trade_packets_batch_def new_map_def Let_def)
qed

end
