(* ===== verification/Udp_Counter.thy ===== *)
theory Udp_Counter
  imports Decoder
begin

text \<open>
  \<^verbatim>\<open>src/src/bin/udp_counter.rs\<close>: counts the packets received in thirty seconds for each message type.
  The results of the receive calls made before the deadline are the argument of the loop.
\<close>

datatype counter_recv = Datagram "u8 list" | RecvError io_error

record counter =
  c_counts :: "u8 \<rightharpoonup> u64"
  c_total :: u64

definition counter_new :: counter where
  "counter_new = \<lparr> c_counts = Map.empty, c_total = 0 \<rparr>"

text \<open>The packed header of this tool.\<close>

definition counter_header_layout :: layout where
  "counter_header_layout =
     [(''protocol_version'', 1), (''sequence_number'', 8), (''exchange_timestamp'', 8), (''local_timestamp'', 8),
      (''message_type'', 1), (''flags_and_count'', 1), (''symbol'', 20), (''exchange'', 20)]"

definition counter_header_read :: "u8 list \<Rightarrow> packet_header" where
  "counter_header_read bs = header_of_fields (layout_fields 0 counter_header_layout bs)"

lemma counter_header_read [simp]: "counter_header_read = header_read"
  by (rule ext) (simp add: counter_header_read_def counter_header_layout_def header_of_fields_def header_read_def Let_def)

lemma counter_header_size: "layout_size counter_header_layout = 67"
  by (simp add: layout_size_def counter_header_layout_def)

text \<open>The buffer of 1500 bytes keeps the start of a longer datagram; the message type is read from it.\<close>

fun counter_step :: "counter_recv \<Rightarrow> counter \<Rightarrow> counter" where
  "counter_step (Datagram d) c =
     (let n = length (take 1500 d) in
      if 67 \<le> n then
        let header = counter_header_read (take 1500 d);
            mt = h_message_type header
        in c\<lparr>c_counts := (c_counts c)(mt \<mapsto> (case c_counts c mt of None \<Rightarrow> 0 | Some k \<Rightarrow> k) + 1),
             c_total := c_total c + 1\<rparr>
      else c)"
| "counter_step (RecvError e) c = c"

definition counter_loop :: "counter_recv list \<Rightarrow> counter" where
  "counter_loop rs = fold counter_step rs counter_new"

definition count_of :: "u8 \<Rightarrow> counter \<Rightarrow> u64" where
  "count_of mt c = (case c_counts c mt of None \<Rightarrow> 0 | Some k \<Rightarrow> k)"

definition saturating_sub :: "u64 \<Rightarrow> u64 \<Rightarrow> u64" where
  "saturating_sub a b = (if b \<le> a then a - b else 0)"

definition excluded :: "u8 list" where
  "excluded = [0, 1, 101]"

definition other_total :: "counter \<Rightarrow> u64" where
  "other_total c = saturating_sub (c_total c) (fold (\<lambda>mt acc. acc + count_of mt c) excluded 0)"

text \<open>The tool has a configuration reader of its own.\<close>

definition counter_ini_line :: "string \<Rightarrow> (string \<rightharpoonup> string) \<Rightarrow> (string \<rightharpoonup> string)" where
  "counter_ini_line raw cfg =
     (let line = trim raw in
      if line = [] \<or> starts_with line ''#'' \<or> starts_with line '';'' then cfg
      else if starts_with line ''['' \<and> ends_with line '']'' then cfg
      else case split_once CHR ''='' line of
             Some (k, v) \<Rightarrow> cfg(trim k \<mapsto> trim v)
           | None \<Rightarrow> cfg)"

definition counter_parse_simple_ini :: "string \<Rightarrow> (string \<rightharpoonup> string)" where
  "counter_parse_simple_ini content = fold counter_ini_line (lines content) Map.empty"

definition counter_read_udp_config :: "string option \<Rightarrow> udp_cfg option" where
  "counter_read_udp_config file =
     (case file of
        None \<Rightarrow> None
      | Some content \<Rightarrow>
          let m = counter_parse_simple_ini content in
          Some \<lparr> uc_multicast_addr = (case m ''multicast_addr'' of None \<Rightarrow> ''239.255.1.1'' | Some v \<Rightarrow> v),
                 uc_port = 55555,
                 uc_interface_addr = (case m ''interface_addr'' of None \<Rightarrow> ''0.0.0.0'' | Some v \<Rightarrow> v) \<rparr>)"

lemma counter_config_reader: "counter_read_udp_config = read_udp_config_from_ini"
proof -
  have "counter_ini_line = simple_ini_line" by (simp add: fun_eq_iff counter_ini_line_def simple_ini_line_def)
  then have "counter_parse_simple_ini = parse_simple_ini"
    by (intro ext) (simp only: counter_parse_simple_ini_def parse_simple_ini_def)
  then show ?thesis by (intro ext) (simp only: counter_read_udp_config_def read_udp_config_from_ini_def)
qed

text \<open>The counter tool fails when the configuration file cannot be read.\<close>

definition counter_config :: "string option \<Rightarrow> string list \<Rightarrow> udp_cfg option" where
  "counter_config file args =
     map_option (\<lambda>cfg. if 2 \<le> length args
         then (case parse_uint 16 (args ! 1) of Some p \<Rightarrow> cfg\<lparr>uc_port := of_nat p\<rparr> | None \<Rightarrow> cfg)
         else cfg) (counter_read_udp_config file)"

text \<open>The loop up to the deadline: the clock is read before every receive call.\<close>

fun counter_until :: "nat \<Rightarrow> (nat \<times> counter_recv) list \<Rightarrow> counter \<Rightarrow> counter" where
  "counter_until deadline [] c = c"
| "counter_until deadline ((now, r) # rs) c =
     (if now < deadline then counter_until deadline rs (counter_step r c) else c)"

text \<open>What is printed at the end: the total, the counts by rising message type, the rest and four counts.\<close>

record counter_report =
  cr_total :: u64
  cr_counts :: "(u8 \<times> u64) list"
  cr_other :: u64
  cr_details :: "u64 list"

definition all_types :: "u8 list" where
  "all_types = map of_nat [0..<256]"

definition counted_types :: "counter \<Rightarrow> u8 list" where
  "counted_types c = filter (\<lambda>k. c_counts c k \<noteq> None) all_types"

definition counter_summary :: "counter \<Rightarrow> counter_report" where
  "counter_summary c =
     \<lparr> cr_total = c_total c, cr_counts = map (\<lambda>k. (k, count_of k c)) (counted_types c),
       cr_other = other_total c, cr_details = map (\<lambda>k. count_of k c) [2, 3, 4, 5] \<rparr>"

text \<open>Every datagram with a header is counted once for its type, so the printed counts add up to the total.\<close>

lemma all_types: "set all_types = UNIV" "distinct all_types"
proof -
  have "x \<in> of_nat ` {0..<256}" for x :: u8
    using unsigned_less [of x, where 'a = nat] by (intro image_eqI [of _ _ "unat x"]) simp_all
  then show "set all_types = UNIV" unfolding all_types_def by auto
  have "(of_nat x :: u8) \<noteq> of_nat y" if "x < y" "y < n" "n \<le> 256" for x y n :: nat
    using that unat_of_nat_small [of x, where 'a = 8] unat_of_nat_small [of y, where 'a = 8] by auto
  then have "distinct (map of_nat [0..<n] :: u8 list)" if "n \<le> 256" for n
    using that unfolding distinct_conv_nth by (auto simp: nat_neq_iff) metis
  then show "distinct all_types" unfolding all_types_def by (metis order_refl)
qed

lemma all_types_sorted: "sorted_wrt (<) all_types"
proof -
  have "(of_nat x :: u8) < of_nat y" if "x < y" "y < 256" for x y :: nat
    using that unat_of_nat_small [of x, where 'a = 8] unat_of_nat_small [of y, where 'a = 8]
    by (simp add: word_less_nat_alt)
  then show ?thesis unfolding all_types_def sorted_wrt_iff_nth_less by simp
qed

lemma count_step:
  "\<exists>mt d. (c_total (counter_step r c) = c_total c + d)
     \<and> (\<forall>k. count_of k (counter_step r c) = count_of k c + (if k = mt then d else 0))"
proof (cases r)
  case (Datagram d)
  show ?thesis
  proof (cases "67 \<le> length (take 1500 d)")
    case True
    then show ?thesis using Datagram
      by (intro exI [of _ "h_message_type (header_read (take 1500 d))"] exI [of _ 1])
        (simp add: Let_def count_of_def split: option.splits)
  next
    case False
    then show ?thesis using Datagram by (intro exI [of _ 0] exI [of _ 0]) (simp add: Let_def)
  qed
next
  case (RecvError e)
  then show ?thesis by (intro exI [of _ 0] exI [of _ 0]) simp
qed

definition balanced :: "counter \<Rightarrow> bool" where
  "balanced c \<longleftrightarrow> (\<Sum>k\<in>UNIV. count_of k c) = c_total c"

lemma balanced_step: "balanced c \<Longrightarrow> balanced (counter_step r c)"
proof -
  assume b: "balanced c"
  obtain mt d where "c_total (counter_step r c) = c_total c + d"
      "\<forall>k. count_of k (counter_step r c) = count_of k c + (if k = mt then d else 0)"
    using count_step by blast
  then show ?thesis using b by (simp add: balanced_def sum.distrib)
qed

lemma balanced_new: "balanced counter_new"
  by (simp add: balanced_def counter_new_def count_of_def)

lemma balanced_until: "balanced c \<Longrightarrow> balanced (counter_until deadline rs c)"
  by (induction deadline rs c rule: counter_until.induct) (simp_all add: balanced_step)

lemma summary_counts:
  "sum_list (map snd (cr_counts (counter_summary c))) = (\<Sum>k\<in>UNIV. count_of k c)"
proof -
  have "sum_list (map snd (cr_counts (counter_summary c))) = (\<Sum>k\<in>set (counted_types c). count_of k c)"
    using all_types(2) by (simp add: counter_summary_def comp_def counted_types_def sum_list_distinct_conv_sum_set)
  also have "\<dots> = (\<Sum>k\<in>UNIV. count_of k c)"
    by (rule sum.mono_neutral_left) (auto simp: counted_types_def all_types(1) count_of_def)
  finally show ?thesis .
qed

end
