(* ===== verification/Protocol_Properties.thy ===== *)
theory Protocol_Properties
  imports Feed_Wire
begin

text \<open>
  The properties of the wire structs: layout, flags, names and the accuracy of the fixed-point prices.
\<close>

section \<open>Layout\<close>

text \<open>Reading a header from bytes fails exactly on slices shorter than 67 bytes; otherwise it gives
  the one header whose serialisation is the first 67 bytes. So writing and reading are inverse to each
  other in both directions.\<close>

theorem header_layout:
  "header_from_bytes bs = Some h \<longleftrightarrow> 67 \<le> length bs \<and> header_valid h \<and> header_to_bytes h = take 67 bs"
proof
  assume "header_from_bytes bs = Some h"
  then show "67 \<le> length bs \<and> header_valid h \<and> header_to_bytes h = take 67 bs"
    using header_codec.enc_dec [of bs] header_codec.dec_valid [of bs]
    by (auto simp: header_from_bytes_def split: if_splits)
next
  assume r: "67 \<le> length bs \<and> header_valid h \<and> header_to_bytes h = take 67 bs"
  then have "header_read (take 67 bs @ drop 67 bs) = h"
    using header_codec.dec_enc [of h "drop 67 bs"] by simp
  then show "header_from_bytes bs = Some h" using r by (simp add: header_from_bytes_def)
qed

text \<open>Setting the packet information stores the message type, the last-packet flag and the item
  count, which saturates at 80; the three are read back independently of what the header held before,
  and nothing else changes.\<close>

theorem packet_info_roundtrip:
  "is_last (set_packet_info mt n final h) = final
     \<and> unat (item_count (set_packet_info mt n final h)) = min (unat n) 80
     \<and> h_message_type (set_packet_info mt n final h) = mt
     \<and> h\<lparr>h_message_type := 0, h_flags_and_count := 0\<rparr> =
         (set_packet_info mt n final h)\<lparr>h_message_type := 0, h_flags_and_count := 0\<rparr>"
proof -
  have "unat (min n 80) = min (unat n) 80" by (simp add: min_def word_le_nat_alt)
  then show ?thesis
    by (simp add: set_packet_info_def item_count_set_flags)
qed

text \<open>C10: The symbol field always has 20 bytes and ends in a null; reading it up to the first null gives
  the first 19 of the allowed characters of the symbol, in order, so an allowed symbol of at most 19
  characters is read back unchanged. White space around the name makes no difference.\<close>

theorem symbol_roundtrip:
  "length (h_symbol (set_symbol s h)) = 20 \<and> last (h_symbol (set_symbol s h)) = 0
     \<and> symbol_as_string (set_symbol s h) = take 19 (filter name_char s)"
proof -
  have "last (name_bytes s) = 0" by (simp add: name_bytes_split)
  then show ?thesis
    by (simp add: set_symbol_def symbol_as_string_def until_null_name_bytes sanitized_filter)
qed

text \<open>An order book item carries the truncated scaled price, the side flag as given, and the scaled
  quantity modulo \<open>2^63\<close>: a quantity that fits 63 bits is read back exactly and never disturbs the flag,
  a negative one is wrapped into the 63 bits.\<close>

theorem order_book_item_fields:
  "sint (ob_price (order_book_item_new p q a)) = f64_trunc (f64_mul p (f64_of_int 100000000))
     \<and> book_is_ask (order_book_item_new p q a) = a
     \<and> sint (book_quantity (order_book_item_new p q a)) = f64_trunc (f64_mul q (f64_of_int 100000000)) mod 2 ^ 63"
  unfolding book_is_ask_def book_quantity_def ob_new_simps quantity_of_with_flag sint_quantity_of flag_of_with_flag
    scales scaled_by_eq by simp

section \<open>Prices\<close>

text \<open>C11: A decimal price string with at most eight fractional digits, whose value is below \<open>2^52\<close> units of
  \<open>10^-8\<close>, is parsed and scaled to the exact number of units or to one unit less.\<close>

theorem decimal_price_accuracy:
  assumes "list_all is_digit ip" "list_all is_digit fp" "ip \<noteq> []" "length fp \<le> 8"
    and "digits_val 0 (ip @ fp) * 10 ^ (8 - length fp) < 2 ^ 52"
  shows "\<exists>p. parse_f64 (ip @ ''.'' @ fp) = Some p
     \<and> sint (ob_price (order_book_item_new p q a))
         \<in> {int (digits_val 0 (ip @ fp) * 10 ^ (8 - length fp)) - 1, int (digits_val 0 (ip @ fp) * 10 ^ (8 - length fp))}"
  using parse_f64_decimal(1) [OF assms(1-3)] scaled_decimal [OF assms(5), of False] decimal_f64_8 [OF assms(4)]
  by (simp add: scales scaled_by_eq)

theorem decimal_price_accuracy_witness:
  "\<exists>p. parse_f64 ''42000.12345678'' = Some p
     \<and> sint (ob_price (order_book_item_new p p True)) \<in> {4200012345677, 4200012345678}"
  using decimal_price_accuracy [of "''42000''" "''12345678''" _ True]
  by (simp add: is_digit_def digit_val_def)


text \<open>A whole price of up to \<open>2^34\<close> is scaled exactly.\<close>

theorem whole_price_exact:
  assumes "n \<le> 2 ^ 34"
  shows "sint (tt_price (trade_tick_item_new (f64_of_int (int n)) q b)) = int n * 10 ^ 8"
  using scaled_integer [OF assms, of False] by (simp add: scales scaled_by_eq f64_of_int_def)

theorem whole_price_exact_witness:
  "sint (tt_price (trade_tick_item_new (f64_of_int 50000) (f64_of_int 1) True)) = 5000000000000"
  using whole_price_exact [of 50000 "f64_of_int 1" True] by simp

end
