(* ===== verification/Feeder_Config.thy ===== *)
theory Feeder_Config
  imports Rust_Str "HOL-Library.AList"
begin

text \<open>
  \<^verbatim>\<open>src/src/config.rs\<close>: the configuration of the feeder and the three INI readers. A \<^verbatim>\<open>HashMap\<close> is the
  list of its entries with insertion by \<^verbatim>\<open>AList.update\<close>; where the code iterates over keys or values,
  the iteration order is an argument. Files, the environment variable and the path of the executable
  are the record \<open>config_env\<close>. Error texts are English glosses.
\<close>

section \<open>Data\<close>

type_synonym 'v str_map = "(string \<times> 'v) list"

record exchange_config =
  ec_name :: string
  ec_ws_url :: string
  ec_enabled :: bool
  ec_connection_timeout_ms :: nat
  ec_ping_interval_ms :: "nat option"

record udp_config =
  uc_multicast :: string
  uc_port_number :: nat
  uc_interface :: string

record logging_config =
  lc_level :: string
  lc_file_path :: "string option"

record metrics_config =
  mc_enabled :: bool
  mc_interval_secs :: nat

record symbol_session =
  se_symbols :: "string list"
  se_is_btc_session :: bool
  se_port :: nat

record exchange_symbol_group =
  eg_exchange_name :: string
  eg_sessions :: "symbol_session list"

record symbol_config =
  sc_exchanges :: "exchange_symbol_group str_map"

record exchange_endpoint =
  ep_exchange_name :: string
  ep_ws_url_base :: string
  ep_timeout_ms :: nat
  ep_ping_interval_ms :: "nat option"
  ep_enabled :: bool

record endpoint_config =
  en_exchanges :: "exchange_endpoint str_map"

record config =
  cf_exchanges :: "exchange_config list"
  cf_symbols :: "string list"
  cf_udp :: udp_config
  cf_logging :: logging_config
  cf_runtime_threads :: "nat option"
  cf_metrics :: metrics_config
  cf_symbol_config :: "symbol_config option"
  cf_endpoint_config :: "endpoint_config option"

section \<open>Files\<close>

text \<open>\<open>ce_file p\<close> is \<open>None\<close> when \<open>p\<close> does not exist, otherwise the outcome of reading it as a string.\<close>

record config_env =
  ce_custom_dir :: "string option"
  ce_exe_dir :: "string option"
  ce_exe_root :: "string option"
  ce_file :: "string \<Rightarrow> (io_error + string) option"

definition path_join :: "string \<Rightarrow> string \<Rightarrow> string" where
  "path_join a b = (if a = [] \<or> last a = CHR ''/'' then a @ b else a @ CHR ''/'' # b)"

definition read_existing :: "io_error + string \<Rightarrow> string result" where
  "read_existing r = (case r of Inl e \<Rightarrow> Err (Other ''reading the file failed'') | Inr c \<Rightarrow> Ok c)"

fun first_existing :: "config_env \<Rightarrow> string list \<Rightarrow> string result" where
  "first_existing env [] = Err (Other ''configuration file not found'')"
| "first_existing env (p # ps) =
     (case ce_file env p of Some r \<Rightarrow> read_existing r | None \<Rightarrow> first_existing env ps)"

definition config_candidates :: "config_env \<Rightarrow> string \<Rightarrow> string list" where
  "config_candidates env name =
     [path_join ''config'' name] @
     (case ce_exe_dir env of
        None \<Rightarrow> []
      | Some exe_dir \<Rightarrow>
          [path_join (path_join exe_dir ''config'') name] @
          (case ce_exe_root env of None \<Rightarrow> [] | Some base \<Rightarrow> [path_join (path_join base ''config'') name]))"

definition read_config_file :: "config_env \<Rightarrow> string \<Rightarrow> string result" where
  "read_config_file env name =
     (case (case ce_custom_dir env of None \<Rightarrow> None | Some d \<Rightarrow> ce_file env (path_join d name)) of
        Some r \<Rightarrow> read_existing r
      | None \<Rightarrow> first_existing env (config_candidates env name))"

section \<open>Plain INI files\<close>

definition is_section :: "string \<Rightarrow> bool" where
  "is_section line \<longleftrightarrow> starts_with line ''['' \<and> ends_with line '']''"

definition section_name :: "string \<Rightarrow> string" where
  "section_name line = take (length line - 2) (drop 1 line)"

definition parse_ini_line :: "string \<Rightarrow> string str_map \<Rightarrow> string str_map" where
  "parse_ini_line raw config_map =
     (let line = trim raw in
      if line = [] \<or> starts_with line ''#'' \<or> starts_with line '';'' then config_map
      else if is_section line then config_map
      else case split_once CHR ''='' line of
             Some (key, value) \<Rightarrow> AList.update (trim key) (trim value) config_map
           | None \<Rightarrow> config_map)"

definition parse_ini :: "string \<Rightarrow> string str_map result" where
  "parse_ini content = Ok (fold parse_ini_line (lines content) [])"

section \<open>Symbols\<close>

definition parse_symbol_line :: "string \<Rightarrow> symbol_session result" where
  "parse_symbol_line line =
     and_then
       (case split_once CHR ''='' line of
          Some (p, rest) \<Rightarrow>
            (case parse_uint 16 (trim p) of
               Some port \<Rightarrow> Ok (port, rest)
             | None \<Rightarrow> Err (Other ''invalid session port''))
        | None \<Rightarrow> Ok (55555, line))
       (\<lambda>(port, symbols_str).
          let symbols = filter (\<lambda>s. s \<noteq> []) (map trim (split_on CHR '','' symbols_str)) in
          if symbols = [] then Err (Other ''empty symbol line'')
          else Ok \<lparr> se_symbols = symbols,
                    se_is_btc_session = (length symbols = 1 \<and> starts_with (symbols ! 0) ''BTC^''),
                    se_port = port \<rparr>)"

record symbol_state =
  sy_exchanges :: "exchange_symbol_group str_map"
  sy_current :: "string option"
  sy_sessions :: "symbol_session list"

definition symbol_section :: "string \<Rightarrow> symbol_state \<Rightarrow> symbol_state" where
  "symbol_section line st =
     (let st = (case sy_current st of
                  Some exchange_name \<Rightarrow>
                    let exchange_group = \<lparr> eg_exchange_name = exchange_name, eg_sessions = sy_sessions st \<rparr>
                    in st\<lparr>sy_exchanges := AList.update exchange_name exchange_group (sy_exchanges st),
                          sy_sessions := []\<rparr>
                | None \<Rightarrow> st)
      in st\<lparr>sy_current := Some (section_name line)\<rparr>)"

fun symbol_lines :: "string list \<Rightarrow> symbol_state \<Rightarrow> symbol_state result" where
  "symbol_lines [] st = Ok st"
| "symbol_lines (raw # ls) st =
     (let line = trim raw in
      if line = [] \<or> starts_with line ''#'' \<or> starts_with line '';'' then symbol_lines ls st
      else if is_section line then symbol_lines ls (symbol_section line st)
      else if sy_current st \<noteq> None then
        and_then (parse_symbol_line line) (\<lambda>session.
          symbol_lines ls (st\<lparr>sy_sessions := sy_sessions st @ [session]\<rparr>))
      else symbol_lines ls st)"

definition parse_symbol_config :: "string \<Rightarrow> symbol_config result" where
  "parse_symbol_config content =
     and_then (symbol_lines (lines content) \<lparr> sy_exchanges = [], sy_current = None, sy_sessions = [] \<rparr>) (\<lambda>st.
       Ok \<lparr> sc_exchanges =
              (case sy_current st of
                 Some exchange_name \<Rightarrow>
                   AList.update exchange_name \<lparr> eg_exchange_name = exchange_name, eg_sessions = sy_sessions st \<rparr>
                     (sy_exchanges st)
               | None \<Rightarrow> sy_exchanges st) \<rparr>)"

definition load_symbol_config :: "config_env \<Rightarrow> symbol_config result" where
  "load_symbol_config env = and_then (read_config_file env ''symbol_config.ini'') parse_symbol_config"

definition get_exchange_sessions :: "symbol_config \<Rightarrow> string \<Rightarrow> symbol_session list option" where
  "get_exchange_sessions c exchange_name = map_option eg_sessions (map_of (sc_exchanges c) exchange_name)"

definition get_exchange_names :: "(string list \<Rightarrow> string list) \<Rightarrow> symbol_config \<Rightarrow> string list" where
  "get_exchange_names ord c = ord (map fst (sc_exchanges c))"

definition get_all_symbols :: "symbol_config \<Rightarrow> string \<Rightarrow> string list" where
  "get_all_symbols c exchange_name =
     (case map_of (sc_exchanges c) exchange_name of
        Some g \<Rightarrow> concat (map se_symbols (eg_sessions g))
      | None \<Rightarrow> [])"

definition get_btc_sessions :: "symbol_config \<Rightarrow> string \<Rightarrow> symbol_session list" where
  "get_btc_sessions c exchange_name =
     (case map_of (sc_exchanges c) exchange_name of
        Some g \<Rightarrow> filter se_is_btc_session (eg_sessions g)
      | None \<Rightarrow> [])"

definition get_non_btc_sessions :: "symbol_config \<Rightarrow> string \<Rightarrow> symbol_session list" where
  "get_non_btc_sessions c exchange_name =
     (case map_of (sc_exchanges c) exchange_name of
        Some g \<Rightarrow> filter (\<lambda>s. \<not> se_is_btc_session s) (eg_sessions g)
      | None \<Rightarrow> [])"

section \<open>Endpoints\<close>

definition parse_exchange_settings :: "string \<Rightarrow> string str_map \<Rightarrow> exchange_endpoint option" where
  "parse_exchange_settings exchange_name settings =
     (case map_of settings ''ws_url_base'' of
        None \<Rightarrow> None
      | Some ws_url_base \<Rightarrow>
          (case map_of settings ''timeout_ms'' of
             None \<Rightarrow> None
           | Some t \<Rightarrow>
               Some \<lparr> ep_exchange_name = exchange_name, ep_ws_url_base = ws_url_base,
                      ep_timeout_ms = (case parse_uint 64 t of Some n \<Rightarrow> n | None \<Rightarrow> 5000),
                      ep_ping_interval_ms =
                        (case map_of settings ''ping_interval_ms'' of None \<Rightarrow> None | Some s \<Rightarrow> parse_uint 64 s),
                      ep_enabled =
                        (case map_of settings ''enabled'' of
                           None \<Rightarrow> False
                         | Some s \<Rightarrow> (case parse_bool s of Some b \<Rightarrow> b | None \<Rightarrow> False)) \<rparr>))"

record endpoint_state =
  es_exchanges :: "exchange_endpoint str_map"
  es_current :: "string option"
  es_settings :: "string str_map"

definition save_endpoint :: "string \<Rightarrow> string str_map \<Rightarrow> exchange_endpoint str_map \<Rightarrow> exchange_endpoint str_map" where
  "save_endpoint exchange_name settings exchanges =
     (case parse_exchange_settings exchange_name settings of
        Some endpoint \<Rightarrow> AList.update exchange_name endpoint exchanges
      | None \<Rightarrow> exchanges)"

definition endpoint_line :: "string \<Rightarrow> endpoint_state \<Rightarrow> endpoint_state" where
  "endpoint_line raw st =
     (let line = trim raw in
      if line = [] \<or> starts_with line ''#'' then st
      else if is_section line then
        let st = (case es_current st of
                    Some exchange_name \<Rightarrow>
                      st\<lparr>es_exchanges := save_endpoint exchange_name (es_settings st) (es_exchanges st), es_settings := []\<rparr>
                  | None \<Rightarrow> st)
        in st\<lparr>es_current := Some (section_name line)\<rparr>
      else case split_once CHR ''='' line of
             Some (key, value) \<Rightarrow> st\<lparr>es_settings := AList.update (trim key) (trim value) (es_settings st)\<rparr>
           | None \<Rightarrow> st)"

definition parse_endpoint_config :: "string \<Rightarrow> endpoint_config result" where
  "parse_endpoint_config content =
     (let st = fold endpoint_line (lines content) \<lparr> es_exchanges = [], es_current = None, es_settings = [] \<rparr> in
      Ok \<lparr> en_exchanges =
             (case es_current st of
                Some exchange_name \<Rightarrow> save_endpoint exchange_name (es_settings st) (es_exchanges st)
              | None \<Rightarrow> es_exchanges st) \<rparr>)"

definition load_endpoint_config :: "config_env \<Rightarrow> endpoint_config result" where
  "load_endpoint_config env = and_then (read_config_file env ''endpoint.ini'') parse_endpoint_config"

definition get_exchange_endpoint :: "endpoint_config \<Rightarrow> string \<Rightarrow> exchange_endpoint option" where
  "get_exchange_endpoint c exchange_name = map_of (en_exchanges c) exchange_name"

definition get_enabled_exchange_names :: "(string list \<Rightarrow> string list) \<Rightarrow> endpoint_config \<Rightarrow> string list" where
  "get_enabled_exchange_names ord c =
     map ep_exchange_name (filter ep_enabled (map (\<lambda>k. the (map_of (en_exchanges c) k)) (ord (map fst (en_exchanges c)))))"

definition get_all_exchange_names :: "(string list \<Rightarrow> string list) \<Rightarrow> endpoint_config \<Rightarrow> string list" where
  "get_all_exchange_names ord c = ord (map fst (en_exchanges c))"

section \<open>The whole configuration\<close>

definition get_or :: "string str_map \<Rightarrow> string \<Rightarrow> string \<Rightarrow> string" where
  "get_or m k d = (case map_of m k of None \<Rightarrow> d | Some v \<Rightarrow> v)"

definition result_ok :: "'a result \<Rightarrow> 'a option" where
  "result_ok r = (case r of Inl e \<Rightarrow> None | Inr x \<Rightarrow> Some x)"

definition load_config :: "config_env \<Rightarrow> config result" where
  "load_config env =
     (let ini_map = (case and_then (read_config_file env ''config.ini'') parse_ini of Inr m \<Rightarrow> m | Inl e \<Rightarrow> []);
          udp = \<lparr> uc_multicast = get_or ini_map ''multicast_addr'' ''239.255.1.1'',
                  uc_port_number = (case Option.bind (map_of ini_map ''port'') (parse_uint 16) of Some p \<Rightarrow> p | None \<Rightarrow> 55555),
                  uc_interface = get_or ini_map ''interface_addr'' ''0.0.0.0'' \<rparr>;
          threads = (case Option.bind (map_of ini_map ''runtime_threads'') (parse_uint 64) of
                       Some v \<Rightarrow> if 0 < v then Some v else None | None \<Rightarrow> None);
          metrics = \<lparr> mc_enabled = (case map_of ini_map ''metrics_enabled'' of
                                      Some v \<Rightarrow> eq_ignore_ascii_case v ''true'' \<or> v = ''1'' | None \<Rightarrow> False),
                      mc_interval_secs = (case Option.bind (map_of ini_map ''metrics_interval_secs'') (parse_uint 64) of
                                            Some v \<Rightarrow> v | None \<Rightarrow> 5) \<rparr>;
          logging = \<lparr> lc_level = get_or ini_map ''log_level'' ''info'', lc_file_path = map_of ini_map ''log_file_path'' \<rparr>
      in Ok \<lparr> cf_exchanges = [\<lparr> ec_name = ''binance'',
                ec_ws_url = ''wss://stream.binance.com:9443/ws/btcusdt@trade/btcusdt@depth'', ec_enabled = True,
                ec_connection_timeout_ms = 5000, ec_ping_interval_ms = Some 30000 \<rparr>],
              cf_symbols = [''BTC^USDT''], cf_udp = udp, cf_logging = logging, cf_runtime_threads = threads,
              cf_metrics = metrics, cf_symbol_config = result_ok (load_symbol_config env),
              cf_endpoint_config = result_ok (load_endpoint_config env) \<rparr>)"

definition get_btc_symbols :: "config \<Rightarrow> string list" where
  "get_btc_symbols c = filter (\<lambda>s. contains s ''BTC'') (cf_symbols c)"

definition get_non_btc_symbols :: "config \<Rightarrow> string list" where
  "get_non_btc_symbols c = filter (\<lambda>s. \<not> contains s ''BTC'') (cf_symbols c)"

end
