(* ===== verification/Config_Laws.thy ===== *)
theory Config_Laws
  imports Feeder_Config
begin

text \<open>
  Reading back written configuration files: the lines of a file, the sections of the symbol file and
  of the endpoint file.
\<close>

section \<open>Lines\<close>

definition unlines :: "string list \<Rightarrow> string" where
  "unlines ls = concat (map (\<lambda>l. l @ [newline]) ls)"

definition line_ok :: "string \<Rightarrow> bool" where
  "line_ok l \<longleftrightarrow> l \<noteq> [] \<and> plain_char (hd l) \<and> plain_char (last l) \<and> newline \<notin> set l"

lemma split_on_unlines: "(\<forall>l \<in> set ls. newline \<notin> set l) \<Longrightarrow> split_on newline (unlines ls) = ls @ [[]]"
  by (induction ls) (simp_all add: unlines_def split_on_append)

lemma strip_cr_plain: "plain_char (last l) \<Longrightarrow> strip_cr l = l"
  by (simp add: strip_cr_def plain_char_def)

lemma lines_unlines:
  assumes "\<forall>l \<in> set ls. line_ok l"
  shows "lines (unlines ls) = ls"
proof -
  have "split_on newline (unlines ls) = ls @ [[]]"
    using assms by (intro split_on_unlines) (simp add: line_ok_def)
  moreover have "map strip_cr ls = ls"
    using assms by (simp add: line_ok_def strip_cr_plain map_idI)
  ultimately show ?thesis by (simp add: lines_def)
qed

lemma trim_line_ok: "line_ok l \<Longrightarrow> trim l = l"
  by (simp add: line_ok_def trim_plain)

lemma find_space: "find (\<lambda>w. w \<noteq> [] \<and> prefix w (CHR '' '' # s)) ws_strings = Some [CHR '' '']"
  by (simp add: ws_strings_def ws_codes_def char_of_eq_iff)

lemma trim_space: "trim (CHR '' '' # s) = trim s"
proof -
  have "drop_seps ws_strings (CHR '' '' # s) = drop_seps ws_strings s"
    by (subst drop_seps.simps) (simp add: find_space)
  then show ?thesis by (simp add: trim_def trim_start_def)
qed

lemma plain_consts: "plain_char CHR ''['' " "plain_char CHR '']'' " "plain_char CHR ''='' "
  by (simp_all add: plain_char_def code_of_def)

lemma is_digit_plain:
  assumes "is_digit c"
  shows "plain_char c" "c \<noteq> CHR ''#''" "c \<noteq> CHR '';''" "c \<noteq> CHR ''[''" "c \<noteq> CHR ''=''" "c \<noteq> newline"
proof -
  have c: "48 \<le> code_of c \<and> code_of c \<le> 57" using assms by (simp add: is_digit_def code_of_def)
  then show "plain_char c" by (auto simp: plain_char_def)
  have "code_of CHR ''#'' = 35" "code_of CHR '';'' = 59" "code_of CHR ''['' = 91" "code_of CHR ''='' = 61" "code_of newline = 10"
    by (simp_all add: code_of_def newline_def)
  then show "c \<noteq> CHR ''#''" "c \<noteq> CHR '';''" "c \<noteq> CHR ''[''" "c \<noteq> CHR ''=''" "c \<noteq> newline"
    using c by auto
qed

section \<open>Sections\<close>

definition section_line :: "string \<Rightarrow> string" where
  "section_line name = ''['' @ name @ '']''"

lemma section_line_props:
  assumes "newline \<notin> set name"
  shows "line_ok (section_line name)" "is_section (section_line name)" "section_name (section_line name) = name"
    "\<not> starts_with (section_line name) ''#''" "\<not> starts_with (section_line name) '';''" "section_line name \<noteq> []"
proof -
  have "newline \<noteq> CHR ''['' \<and> newline \<noteq> CHR '']''" by (simp add: newline_def char_of_eq_iff)
  then show "line_ok (section_line name)" using assms by (simp add: line_ok_def section_line_def plain_consts)
  show "is_section (section_line name)"
    by (simp add: is_section_def section_line_def starts_with_def ends_with_def suffix_def)
  show "section_name (section_line name) = name" by (simp add: section_name_def section_line_def)
qed (simp_all add: section_line_def starts_with_def)

section \<open>Symbol sessions\<close>

definition symbol_ok :: "string \<Rightarrow> bool" where
  "symbol_ok s \<longleftrightarrow> line_ok s \<and> CHR '','' \<notin> set s"

definition session_line :: "nat \<times> string list \<Rightarrow> string" where
  "session_line ps = show_nat (fst ps) @ ''='' @ join '', '' (snd ps)"

definition session_of :: "nat \<times> string list \<Rightarrow> symbol_session" where
  "session_of ps = \<lparr> se_symbols = snd ps,
     se_is_btc_session = (length (snd ps) = 1 \<and> starts_with (hd (snd ps)) ''BTC^''), se_port = fst ps \<rparr>"

definition session_ok :: "nat \<times> string list \<Rightarrow> bool" where
  "session_ok ps \<longleftrightarrow> fst ps < 2 ^ 16 \<and> snd ps \<noteq> [] \<and> list_all symbol_ok (snd ps)"

lemma split_on_join:
  assumes "xs \<noteq> []" "list_all symbol_ok xs"
  shows "map trim (split_on CHR '','' (join '', '' xs)) = xs"
  using assms
proof (induction xs rule: induct_list012)
  case (2 x)
  then show ?case by (simp add: symbol_ok_def split_on_no_sep trim_line_ok)
next
  case (3 x y zs)
  have x: "CHR '','' \<notin> set x" "trim x = x" using "3.prems" by (simp_all add: symbol_ok_def trim_line_ok)
  have rest: "map trim (split_on CHR '','' (join '', '' (y # zs))) = y # zs" using 3 by simp
  have sp: "map trim (split_on CHR '','' (CHR '' '' # s)) = map trim (split_on CHR '','' s)" for s
    using split_on_nonempty [of "CHR '',''" s] by (cases "split_on CHR '','' s") (simp_all add: trim_space)
  show ?case using x rest sp by (simp add: split_on_append)
qed simp

lemma join_plain:
  assumes "xs \<noteq> []" "list_all symbol_ok xs"
  shows "join '', '' xs \<noteq> []" "plain_char (last (join '', '' xs))" "newline \<notin> set (join '', '' xs)"
proof -
  have n: "newline \<noteq> CHR '','' \<and> newline \<noteq> CHR '' ''" by (simp add: newline_def char_of_eq_iff)
  have "join '', '' xs \<noteq> [] \<and> plain_char (last (join '', '' xs)) \<and> newline \<notin> set (join '', '' xs)"
    using assms
  proof (induction xs rule: induct_list012)
    case (3 x y zs)
    then show ?case using n by (simp add: symbol_ok_def line_ok_def)
  qed (simp_all add: symbol_ok_def line_ok_def)
  then show "join '', '' xs \<noteq> []" "plain_char (last (join '', '' xs))" "newline \<notin> set (join '', '' xs)" by simp_all
qed

lemma show_nat_chars: "c \<in> set (show_nat n) \<Longrightarrow> is_digit c"
  using show_nat_digits(1) [of n] by (simp add: list_all_iff)

lemma hd_show_nat: "is_digit (hd (show_nat n))"
  by (rule show_nat_chars [OF hd_in_set [OF show_nat_digits(2)]])

lemma session_line_props:
  assumes "session_ok ps"
  shows "line_ok (session_line ps)" "\<not> is_section (session_line ps)"
    "\<not> starts_with (session_line ps) ''#''" "\<not> starts_with (session_line ps) '';''"
    "parse_symbol_line (session_line ps) = Ok (session_of ps)"
proof -
  obtain c cs where n: "show_nat (fst ps) = c # cs" and c: "is_digit c"
    using hd_show_nat [of "fst ps"] show_nat_digits(2) [of "fst ps"] by (cases "show_nat (fst ps)") auto
  note j = join_plain [of "snd ps"] split_on_join [of "snd ps"]
  have line: "session_line ps = c # cs @ CHR ''='' # join '', '' (snd ps)" by (simp add: session_line_def n)
  have nl: "newline \<noteq> CHR ''=''" by (simp add: newline_def char_of_eq_iff)
  have digits: "\<forall>d \<in> set (c # cs). is_digit d" using show_nat_chars [of _ "fst ps"] n by auto
  then have no: "newline \<notin> set (c # cs)" "CHR ''='' \<notin> set (c # cs)" using is_digit_plain(5,6) by blast+
  show "line_ok (session_line ps)"
    using assms j(1-3) no nl is_digit_plain(1) [OF c] by (simp add: line_ok_def line session_ok_def)
  show "\<not> is_section (session_line ps)" "\<not> starts_with (session_line ps) ''#''" "\<not> starts_with (session_line ps) '';''"
    using is_digit_plain(2-4) [OF c] by (simp_all add: is_section_def line starts_with_def)
  have "trim (c # cs) = c # cs"
    using digits is_digit_plain(1) by (intro trim_plain) (metis last_in_set list.sel(1) list.set_intros(1) list.simps(3))
  moreover have "split_once CHR ''='' (session_line ps) = Some (c # cs, join '', '' (snd ps))"
    using split_once_append [OF no(2)] by (simp add: line)
  moreover have "filter (\<lambda>s. s \<noteq> []) (snd ps) = snd ps"
    using assms by (auto simp: session_ok_def list_all_iff symbol_ok_def line_ok_def)
  ultimately show "parse_symbol_line (session_line ps) = Ok (session_of ps)"
    using assms j(4) parse_uint_show_nat [of "fst ps" 16] n
    by (simp add: parse_symbol_line_def session_ok_def session_of_def hd_conv_nth Let_def)
qed

type_synonym session_group = "string \<times> (nat \<times> string list) list"

definition group_lines :: "session_group \<Rightarrow> string list" where
  "group_lines g = section_line (fst g) # map session_line (snd g)"

definition group_of :: "session_group \<Rightarrow> exchange_symbol_group" where
  "group_of g = \<lparr> eg_exchange_name = fst g, eg_sessions = map session_of (snd g) \<rparr>"

definition group_ok :: "session_group \<Rightarrow> bool" where
  "group_ok g \<longleftrightarrow> newline \<notin> set (fst g) \<and> list_all session_ok (snd g)"

definition finish_symbols :: "symbol_state \<Rightarrow> exchange_symbol_group str_map" where
  "finish_symbols st =
     (case sy_current st of
        Some n \<Rightarrow> AList.update n \<lparr> eg_exchange_name = n, eg_sessions = sy_sessions st \<rparr> (sy_exchanges st)
      | None \<Rightarrow> sy_exchanges st)"

lemma symbol_lines_sessions:
  assumes "list_all session_ok ss" "sy_current st \<noteq> None"
  shows "symbol_lines (map session_line ss @ rest) st =
    symbol_lines rest (st\<lparr>sy_sessions := sy_sessions st @ map session_of ss\<rparr>)"
  using assms
proof (induction ss arbitrary: st)
  case (Cons s ss)
  then have s: "session_ok s" by simp
  note p = session_line_props [OF s]
  have "session_line s \<noteq> []" using p(1) by (simp add: line_ok_def)
  then show ?case using Cons p by (simp add: trim_line_ok)
qed simp

lemma symbol_lines_groups:
  assumes "list_all group_ok gs" "sy_current st = None \<Longrightarrow> sy_sessions st = []"
  shows "\<exists>st'. symbol_lines (concat (map group_lines gs)) st = Ok st'
    \<and> finish_symbols st' = fold (\<lambda>g ex. AList.update (fst g) (group_of g) ex) gs (finish_symbols st)"
  using assms
proof (induction gs arbitrary: st)
  case (Cons g gs)
  then have g: "newline \<notin> set (fst g)" "list_all session_ok (snd g)" by (simp_all add: group_ok_def)
  note p = section_line_props [OF g(1)]
  let ?st1 = "symbol_section (section_line (fst g)) st"
  let ?st2 = "?st1\<lparr>sy_sessions := sy_sessions ?st1 @ map session_of (snd g)\<rparr>"
  have st1: "sy_current ?st1 = Some (fst g)" "sy_sessions ?st1 = []" "sy_exchanges ?st1 = finish_symbols st"
    using Cons.prems(2) p(3) by (auto simp: symbol_section_def finish_symbols_def Let_def split: option.splits)
  have "symbol_lines (concat (map group_lines (g # gs))) st = symbol_lines (concat (map group_lines gs)) ?st2"
    using p g(2) st1(1) by (simp add: group_lines_def trim_line_ok symbol_lines_sessions Let_def)
  moreover have "finish_symbols ?st2 = AList.update (fst g) (group_of g) (finish_symbols st)"
    using st1 by (simp add: finish_symbols_def group_of_def)
  moreover have "\<exists>st'. symbol_lines (concat (map group_lines gs)) ?st2 = Ok st'
    \<and> finish_symbols st' = fold (\<lambda>g ex. AList.update (fst g) (group_of g) ex) gs (finish_symbols ?st2)"
    by (rule Cons.IH) (use Cons.prems(1) st1 in simp_all)
  ultimately show ?case by simp
qed simp

lemma fold_update_fresh:
  assumes "distinct (map fst xs @ map fst ys)"
  shows "fold (\<lambda>p ex. AList.update (fst p) (snd p) ex) ys xs = xs @ ys"
  using assms
proof (induction ys arbitrary: xs)
  case (Cons y ys)
  have fresh: "AList.update k v m = m @ [(k, v)]" if "k \<notin> fst ` set m" for k v and m :: "('a \<times> 'b) list"
    using that by (induction m) auto
  have "AList.update (fst y) (snd y) xs = xs @ [y]" using Cons.prems fresh [of "fst y" xs] by auto
  then show ?case using Cons.IH [of "xs @ [y]"] Cons.prems by simp
qed simp

text \<open>C18: Writing any sessions of exchanges with different names as a symbol file and reading it gives exactly
  these exchanges, in order, with their ports and symbols; a session counts as a BTC session when it has
  one symbol that starts with \<^verbatim>\<open>BTC^\<close>.\<close>

theorem symbol_config_roundtrip:
  assumes "list_all group_ok gs" "distinct (map fst gs)"
  shows "parse_symbol_config (unlines (concat (map group_lines gs))) =
    Ok \<lparr> sc_exchanges = map (\<lambda>g. (fst g, group_of g)) gs \<rparr>"
proof -
  let ?st = "\<lparr> sy_exchanges = [], sy_current = None, sy_sessions = [] \<rparr>"
  have "\<forall>l \<in> set (concat (map group_lines gs)). line_ok l"
    using assms(1) by (auto simp: list_all_iff group_ok_def group_lines_def section_line_props session_line_props)
  then have lines: "lines (unlines (concat (map group_lines gs))) = concat (map group_lines gs)" by (rule lines_unlines)
  obtain st' where st': "symbol_lines (concat (map group_lines gs)) ?st = Ok st'"
      "finish_symbols st' = fold (\<lambda>g ex. AList.update (fst g) (group_of g) ex) gs (finish_symbols ?st)"
    using symbol_lines_groups [OF assms(1), of ?st] by auto
  have "fold (\<lambda>g ex. AList.update (fst g) (group_of g) ex) gs [] =
      fold (\<lambda>p ex. AList.update (fst p) (snd p) ex) (map (\<lambda>g. (fst g, group_of g)) gs) []"
    by (simp add: fold_map comp_def)
  also have "\<dots> = map (\<lambda>g. (fst g, group_of g)) gs"
    using fold_update_fresh [of "[]" "map (\<lambda>g. (fst g, group_of g)) gs"] assms(2) by (simp add: comp_def)
  finally show ?thesis
    using st' lines by (simp add: parse_symbol_config_def finish_symbols_def split: option.splits)
qed

definition sample_groups :: "session_group list" where
  "sample_groups = [(''BinanceSpot'', [(55556, [''BTC^USDT'']), (55557, [''ETH^USDT'', ''XRP^USDT''])])]"

lemma sample_groups_ok: "list_all group_ok sample_groups" "distinct (map fst sample_groups)"
  by (simp_all add: sample_groups_def group_ok_def session_ok_def symbol_ok_def line_ok_def plain_char_def code_of_def
      newline_def char_of_eq_iff)

theorem symbol_config_roundtrip_witness:
  "parse_symbol_config (unlines (concat (map group_lines sample_groups))) =
    Ok \<lparr> sc_exchanges = map (\<lambda>g. (fst g, group_of g)) sample_groups \<rparr>
     \<and> se_port (hd (eg_sessions (group_of (hd sample_groups)))) = 55556"
  using symbol_config_roundtrip [OF sample_groups_ok] by (simp add: sample_groups_def group_of_def session_of_def)

section \<open>Endpoint sections\<close>

text \<open>A setting as it is written: a key, an equals sign and a value.\<close>

definition setting_line :: "string \<times> string \<Rightarrow> string" where
  "setting_line kv = fst kv @ ''='' @ snd kv"

definition setting_ok :: "string \<times> string \<Rightarrow> bool" where
  "setting_ok kv \<longleftrightarrow> line_ok (fst kv) \<and> CHR ''='' \<notin> set (fst kv) \<and> hd (fst kv) \<noteq> CHR ''#'' \<and> hd (fst kv) \<noteq> CHR ''[''
     \<and> (snd kv = [] \<or> line_ok (snd kv))"

definition settings_of :: "(string \<times> string) list \<Rightarrow> string str_map \<Rightarrow> string str_map" where
  "settings_of kvs m = fold (\<lambda>kv m. AList.update (fst kv) (snd kv) m) kvs m"

lemma setting_line_props:
  assumes "setting_ok kv"
  shows "line_ok (setting_line kv)" "\<not> is_section (setting_line kv)" "\<not> starts_with (setting_line kv) ''#''"
    "split_once CHR ''='' (setting_line kv) = Some (fst kv, snd kv)" "trim (fst kv) = fst kv" "trim (snd kv) = snd kv"
proof -
  have nl: "newline \<noteq> CHR ''=''" by (simp add: newline_def char_of_eq_iff)
  have k: "fst kv \<noteq> []" "plain_char (hd (fst kv))" "newline \<notin> set (fst kv)" "CHR ''='' \<notin> set (fst kv)"
    using assms by (auto simp: setting_ok_def line_ok_def)
  have v: "snd kv = [] \<or> line_ok (snd kv)" using assms by (simp add: setting_ok_def)
  have "hd (setting_line kv) = hd (fst kv)" using k(1) by (simp add: setting_line_def)
  then show "\<not> is_section (setting_line kv)" "\<not> starts_with (setting_line kv) ''#''"
    using assms by (auto simp: setting_ok_def is_section_def starts_with_def prefix_def setting_line_def)
  show "line_ok (setting_line kv)"
    using k v nl plain_consts(3) by (auto simp: line_ok_def setting_line_def)
  show "split_once CHR ''='' (setting_line kv) = Some (fst kv, snd kv)"
    using split_once_append [OF k(4)] by (simp add: setting_line_def)
  show "trim (fst kv) = fst kv" using assms by (simp add: setting_ok_def trim_line_ok)
  show "trim (snd kv) = snd kv" using v by (auto simp: trim_line_ok trim_plain)
qed

lemma endpoint_settings:
  "list_all setting_ok kvs \<Longrightarrow>
     fold endpoint_line (map setting_line kvs) st = st\<lparr>es_settings := settings_of kvs (es_settings st)\<rparr>"
proof (induction kvs arbitrary: st)
  case (Cons kv kvs)
  then have kv: "setting_ok kv" by simp
  note p = setting_line_props [OF kv]
  have "setting_line kv \<noteq> []" using p(1) by (simp add: line_ok_def)
  then have "endpoint_line (setting_line kv) st = st\<lparr>es_settings := AList.update (fst kv) (snd kv) (es_settings st)\<rparr>"
    using p by (simp add: endpoint_line_def trim_line_ok Let_def case_prod_unfold)
  then show ?case using Cons by (simp add: settings_of_def)
qed (simp add: settings_of_def)

type_synonym endpoint_section = "string \<times> (string \<times> string) list"

definition section_lines :: "endpoint_section \<Rightarrow> string list" where
  "section_lines g = section_line (fst g) # map setting_line (snd g)"

definition section_ok :: "endpoint_section \<Rightarrow> bool" where
  "section_ok g \<longleftrightarrow> newline \<notin> set (fst g) \<and> list_all setting_ok (snd g)"

definition finish_endpoints :: "endpoint_state \<Rightarrow> exchange_endpoint str_map" where
  "finish_endpoints st =
     (case es_current st of Some n \<Rightarrow> save_endpoint n (es_settings st) (es_exchanges st) | None \<Rightarrow> es_exchanges st)"

lemma endpoint_section:
  assumes "section_ok g"
  shows "fold endpoint_line (section_lines g) st =
    \<lparr> es_exchanges = finish_endpoints st, es_current = Some (fst g),
      es_settings = settings_of (snd g) (if es_current st = None then es_settings st else []) \<rparr>"
proof -
  have g: "newline \<notin> set (fst g)" "list_all setting_ok (snd g)" using assms by (simp_all add: section_ok_def)
  note p = section_line_props [OF g(1)]
  have "endpoint_line (section_line (fst g)) st =
    \<lparr> es_exchanges = finish_endpoints st, es_current = Some (fst g),
      es_settings = (if es_current st = None then es_settings st else []) \<rparr>"
    using p by (auto simp: endpoint_line_def trim_line_ok finish_endpoints_def Let_def split: option.splits)
  then show ?thesis using g(2) by (simp add: section_lines_def endpoint_settings)
qed

lemma endpoint_sections:
  assumes "list_all section_ok gs" "es_current st \<noteq> None"
  shows "finish_endpoints (fold endpoint_line (concat (map section_lines gs)) st) =
    fold (\<lambda>g ex. save_endpoint (fst g) (settings_of (snd g) []) ex) gs (finish_endpoints st)"
  using assms
proof (induction gs arbitrary: st)
  case (Cons g gs)
  let ?st1 = "fold endpoint_line (section_lines g) st"
  have st1: "?st1 = \<lparr> es_exchanges = finish_endpoints st, es_current = Some (fst g), es_settings = settings_of (snd g) [] \<rparr>"
    using endpoint_section [of g st] Cons.prems by simp
  then have "es_current ?st1 \<noteq> None" "finish_endpoints ?st1 = save_endpoint (fst g) (settings_of (snd g) []) (finish_endpoints st)"
    by (simp_all add: finish_endpoints_def)
  then show ?case using Cons.IH [of ?st1] Cons.prems(1) by simp
qed simp

text \<open>C19: In an endpoint file every section is stored with its own settings, except that the first one also
  gets what was written before any section; a section that lacks the base URL or the time-out is left
  out. A later section of the same name replaces an earlier one.\<close>

theorem endpoint_config_sections:
  assumes "list_all setting_ok pre" "section_ok g" "list_all section_ok gs"
  shows "parse_endpoint_config (unlines (map setting_line pre @ concat (map section_lines (g # gs)))) =
    Ok \<lparr> en_exchanges = fold (\<lambda>g ex. save_endpoint (fst g) (settings_of (snd g) []) ex) gs
           (save_endpoint (fst g) (settings_of (pre @ snd g) []) []) \<rparr>"
proof -
  let ?st = "\<lparr> es_exchanges = [], es_current = None, es_settings = [] \<rparr>"
  let ?ls = "map setting_line pre @ concat (map section_lines (g # gs))"
  have "\<forall>l \<in> set ?ls. line_ok l"
    using assms by (auto simp: list_all_iff section_ok_def section_lines_def section_line_props setting_line_props)
  then have lines: "lines (unlines ?ls) = ?ls" by (rule lines_unlines)
  let ?st1 = "fold endpoint_line (section_lines g) (fold endpoint_line (map setting_line pre) ?st)"
  have st1: "?st1 = \<lparr> es_exchanges = [], es_current = Some (fst g), es_settings = settings_of (pre @ snd g) [] \<rparr>"
    using endpoint_section [OF assms(2)] by (simp add: endpoint_settings [OF assms(1)] finish_endpoints_def settings_of_def)
  have "fold endpoint_line ?ls ?st = fold endpoint_line (concat (map section_lines gs)) ?st1" by simp
  then have "finish_endpoints (fold endpoint_line ?ls ?st) =
      fold (\<lambda>g ex. save_endpoint (fst g) (settings_of (snd g) []) ex) gs (finish_endpoints ?st1)"
    using endpoint_sections [OF assms(3), of ?st1] st1 by simp
  then show ?thesis
    unfolding st1 parse_endpoint_config_def lines Let_def finish_endpoints_def by (simp only: endpoint_state.simps option.case)
qed

text \<open>The settings before the first section give it its time-out.\<close>

theorem endpoint_config_sections_witness:
  "parse_endpoint_config (unlines (map setting_line [(''timeout_ms'', ''7'')]
      @ concat (map section_lines [(''OkxSpot'', [(''ws_url_base'', ''wss://x'')]), (''OkxSwap'', [(''ws_url_base'', ''wss://y'')])]))) =
    Ok \<lparr> en_exchanges = [(''OkxSpot'', \<lparr> ep_exchange_name = ''OkxSpot'', ep_ws_url_base = ''wss://x'', ep_timeout_ms = 7,
            ep_ping_interval_ms = None, ep_enabled = False \<rparr>)] \<rparr>"
proof -
  have ok: "list_all setting_ok [(''timeout_ms'', ''7'')]" "section_ok (''OkxSpot'', [(''ws_url_base'', ''wss://x'')])"
    "list_all section_ok [(''OkxSwap'', [(''ws_url_base'', ''wss://y'')])]"
    by (simp_all add: section_ok_def setting_ok_def line_ok_def plain_char_def code_of_def newline_def char_of_eq_iff)
  show ?thesis
    using endpoint_config_sections [OF ok]
    by (simp add: settings_of_def save_endpoint_def parse_exchange_settings_def parse_uint_def is_digit_def digit_val_def)
qed

section \<open>The whole configuration\<close>

text \<open>Loading the configuration never fails, whatever the files hold or whether they exist: the UDP port
  fits 16 bits, a given number of threads is positive and fits 64 bits, and without a readable main
  file the defaults are used.\<close>

theorem load_config_total:
  "\<exists>c. load_config env = Ok c \<and> uc_port_number (cf_udp c) < 2 ^ 16
     \<and> pred_option (\<lambda>t. 0 < t \<and> t < 2 ^ 64) (cf_runtime_threads c)
     \<and> mc_interval_secs (cf_metrics c) < 2 ^ 64
     \<and> (case read_config_file env ''config.ini'' of Inr _ \<Rightarrow> True
           | Inl _ \<Rightarrow> cf_udp c = \<lparr> uc_multicast = ''239.255.1.1'', uc_port_number = 55555, uc_interface = ''0.0.0.0'' \<rparr>
               \<and> cf_runtime_threads c = None \<and> \<not> mc_enabled (cf_metrics c))"
proof -
  have bind: "(case Option.bind x (parse_uint bits) of Some v \<Rightarrow> f v | None \<Rightarrow> d) = y \<Longrightarrow>
      (\<And>v. v < 2 ^ bits \<Longrightarrow> P (f v)) \<Longrightarrow> P d \<Longrightarrow> P y" for x bits f d y and P :: "'a \<Rightarrow> bool"
    by (cases x) (auto split: option.splits dest: parse_uint_bound)
  have "(case Option.bind x (parse_uint 16) of Some v \<Rightarrow> v | None \<Rightarrow> 55555) < 2 ^ 16" for x
    by (rule bind [OF refl]) simp_all
  moreover have "(case Option.bind x (parse_uint 64) of Some v \<Rightarrow> v | None \<Rightarrow> 5) < 2 ^ 64" for x
    by (rule bind [OF refl]) simp_all
  moreover have "pred_option (\<lambda>t. 0 < t \<and> t < 2 ^ 64)
      (case Option.bind x (parse_uint 64) of Some v \<Rightarrow> if 0 < v then Some v else None | None \<Rightarrow> None)" for x
    by (rule bind [OF refl]) simp_all
  ultimately show ?thesis
    by (cases "read_config_file env ''config.ini''") (simp_all add: load_config_def Let_def get_or_def)
qed

end
