(* ===== verification/Data_Parser.thy ===== *)
theory Data_Parser
  imports Market_Data Feeder_Config
begin

text \<open>
  \<^verbatim>\<open>src/src/data_parser.rs\<close>: from the bytes of a WebSocket message to standardised data. The JSON reader
  of the crates \<^verbatim>\<open>simd-json\<close> and \<^verbatim>\<open>serde_json\<close> is the parameter \<open>from_slice\<close>; the typed decoding that the
  serde attributes of the Binance structs stand for is written out. Objects have distinct keys, as
  \<^verbatim>\<open>serde_json::Map\<close> does. Arithmetic on timestamps wraps, as in the release build. A panic is the value
  \<open>None\<close> of the whole call. Error texts are English glosses.
\<close>

section \<open>JSON values\<close>

datatype json_number = PosInt u64 | NegInt i64 | Float f64

datatype json =
    JNull
  | JBool bool
  | JNumber json_number
  | JString string
  | JArray "json list"
  | JObject "(string \<times> json) list"

fun json_get :: "json \<Rightarrow> string \<Rightarrow> json option" where
  "json_get (JObject kvs) k = map_of kvs k"
| "json_get _ k = None"

fun as_str :: "json \<Rightarrow> string option" where
  "as_str (JString s) = Some s"
| "as_str _ = None"

fun as_u64 :: "json \<Rightarrow> u64 option" where
  "as_u64 (JNumber (PosInt n)) = Some n"
| "as_u64 _ = None"

fun as_bool :: "json \<Rightarrow> bool option" where
  "as_bool (JBool b) = Some b"
| "as_bool _ = None"

definition get_str :: "json \<Rightarrow> string \<Rightarrow> string option" where
  "get_str v k = Option.bind (json_get v k) as_str"

section \<open>The typed structs\<close>

record binance_depth_update =
  bd_event_type :: string
  bd_event_time :: u64
  bd_symbol :: string
  bd_first_update_id :: u64
  bd_final_update_id :: u64
  bd_bids :: "(string \<times> string) list"
  bd_asks :: "(string \<times> string) list"

record binance_trade =
  bt_event_type :: string
  bt_event_time :: u64
  bt_symbol :: string
  bt_trade_id :: u64
  bt_price :: string
  bt_quantity :: string
  bt_buyer_order_id :: "u64 option"
  bt_seller_order_id :: "u64 option"
  bt_trade_time :: u64
  bt_is_buyer_market_maker :: bool

record binance_agg_trade =
  ba_event_type :: string
  ba_event_time :: u64
  ba_symbol :: string
  ba_agg_trade_id :: "u64 option"
  ba_price :: string
  ba_quantity :: string
  ba_trade_time :: u64
  ba_is_buyer_market_maker :: bool

text \<open>A required field has to be present with its type; \<^verbatim>\<open>Option<u64>\<close> with \<^verbatim>\<open>default\<close> may be absent or null.\<close>

definition req :: "(json \<Rightarrow> 'a option) \<Rightarrow> json \<Rightarrow> string \<Rightarrow> 'a option" where
  "req conv v k = Option.bind (json_get v k) conv"

definition opt_u64 :: "json \<Rightarrow> string \<Rightarrow> u64 option option" where
  "opt_u64 v k =
     (case json_get v k of
        None \<Rightarrow> Some None
      | Some JNull \<Rightarrow> Some None
      | Some x \<Rightarrow> map_option Some (as_u64 x))"

fun as_level :: "json \<Rightarrow> (string \<times> string) option" where
  "as_level (JArray [JString p, JString q]) = Some (p, q)"
| "as_level _ = None"

fun all_some :: "'a option list \<Rightarrow> 'a list option" where
  "all_some [] = Some []"
| "all_some (x # xs) = (case x of None \<Rightarrow> None | Some y \<Rightarrow> map_option (Cons y) (all_some xs))"

fun as_levels :: "json \<Rightarrow> (string \<times> string) list option" where
  "as_levels (JArray xs) = all_some (map as_level xs)"
| "as_levels _ = None"

definition depth_from_value :: "json \<Rightarrow> binance_depth_update option" where
  "depth_from_value v =
     Option.bind (req as_str v ''e'') (\<lambda>e.
     Option.bind (req as_u64 v ''E'') (\<lambda>et.
     Option.bind (req as_str v ''s'') (\<lambda>s.
     Option.bind (req as_u64 v ''U'') (\<lambda>fu.
     Option.bind (req as_u64 v ''u'') (\<lambda>lu.
     Option.bind (req as_levels v ''b'') (\<lambda>b.
     Option.bind (req as_levels v ''a'') (\<lambda>a.
     Some \<lparr> bd_event_type = e, bd_event_time = et, bd_symbol = s, bd_first_update_id = fu,
            bd_final_update_id = lu, bd_bids = b, bd_asks = a \<rparr>)))))))"

definition trade_from_value :: "json \<Rightarrow> binance_trade option" where
  "trade_from_value v =
     Option.bind (req as_str v ''e'') (\<lambda>e.
     Option.bind (req as_u64 v ''E'') (\<lambda>et.
     Option.bind (req as_str v ''s'') (\<lambda>s.
     Option.bind (req as_u64 v ''t'') (\<lambda>t.
     Option.bind (req as_str v ''p'') (\<lambda>p.
     Option.bind (req as_str v ''q'') (\<lambda>q.
     Option.bind (opt_u64 v ''b'') (\<lambda>b.
     Option.bind (opt_u64 v ''a'') (\<lambda>a.
     Option.bind (req as_u64 v ''T'') (\<lambda>tt.
     Option.bind (req as_bool v ''m'') (\<lambda>m.
     Some \<lparr> bt_event_type = e, bt_event_time = et, bt_symbol = s, bt_trade_id = t, bt_price = p,
            bt_quantity = q, bt_buyer_order_id = b, bt_seller_order_id = a, bt_trade_time = tt,
            bt_is_buyer_market_maker = m \<rparr>))))))))))"

definition agg_trade_from_value :: "json \<Rightarrow> binance_agg_trade option" where
  "agg_trade_from_value v =
     Option.bind (req as_str v ''e'') (\<lambda>e.
     Option.bind (req as_u64 v ''E'') (\<lambda>et.
     Option.bind (req as_str v ''s'') (\<lambda>s.
     Option.bind (opt_u64 v ''a'') (\<lambda>a.
     Option.bind (req as_str v ''p'') (\<lambda>p.
     Option.bind (req as_str v ''q'') (\<lambda>q.
     Option.bind (req as_u64 v ''T'') (\<lambda>tt.
     Option.bind (req as_bool v ''m'') (\<lambda>m.
     Some \<lparr> ba_event_type = e, ba_event_time = et, ba_symbol = s, ba_agg_trade_id = a, ba_price = p,
            ba_quantity = q, ba_trade_time = tt, ba_is_buyer_market_maker = m \<rparr>))))))))"

section \<open>Names\<close>

definition normalize_binance_symbol :: "string \<Rightarrow> string" where
  "normalize_binance_symbol symbol =
     (let upper_symbol = to_uppercase symbol; n = length upper_symbol in
      if ends_with upper_symbol ''USDT'' then take (n - 4) upper_symbol @ ''^USDT''
      else if ends_with upper_symbol ''USDC'' then take (n - 4) upper_symbol @ ''^USDC''
      else if ends_with upper_symbol ''BUSD'' then take (n - 4) upper_symbol @ ''^BUSD''
      else if ends_with upper_symbol ''BTC'' then take (n - 3) upper_symbol @ ''^BTC''
      else if ends_with upper_symbol ''ETH'' then take (n - 3) upper_symbol @ ''^ETH''
      else if ends_with upper_symbol ''BNB'' then take (n - 3) upper_symbol @ ''^BNB''
      else symbol)"

definition normalize_exchange_name :: "string \<Rightarrow> string \<Rightarrow> string" where
  "normalize_exchange_name exchange market_type =
     (let low = to_lowercase exchange in
      if low = ''binance'' then
        (if market_type = ''spot'' then ''BinanceSpot''
         else if market_type = ''futures'' then ''BinanceFutures'' else ''BinanceSpot'')
      else if low = ''bybit'' then
        (if market_type = ''spot'' then ''BybitSpot'' else if market_type = ''linear'' then ''BybitLinear''
         else if market_type = ''inverse'' then ''BybitInverse'' else ''BybitSpot'')
      else if low = ''okx'' then
        (if market_type = ''spot'' then ''OkxSpot'' else if market_type = ''swap'' then ''OkxSwap''
         else if market_type = ''futures'' then ''OkxFutures'' else ''OkxSpot'')
      else exchange @ ''_'' @ market_type)"

section \<open>Conversions\<close>

definition parse_price :: "string \<Rightarrow> string \<Rightarrow> f64 result" where
  "parse_price what s = ok_or (parse_f64 s) (JsonParseError what)"

definition millis_to_nanos :: "u64 \<Rightarrow> u64" where
  "millis_to_nanos t = t * 1000000"

fun convert_levels :: "string \<Rightarrow> (string \<times> string) list \<Rightarrow> order_book_level list result" where
  "convert_levels what [] = Ok []"
| "convert_levels what ((p, q) # ls) =
     and_then (parse_price (what @ '' price'') p) (\<lambda>price.
     and_then (parse_price (what @ '' quantity'') q) (\<lambda>quantity.
     and_then (convert_levels what ls) (\<lambda>rest.
       Ok (\<lparr> l_price = price, l_quantity = quantity \<rparr> # rest))))"

definition convert_binance_depth_update :: "binance_depth_update \<Rightarrow> standardized_order_book_update result" where
  "convert_binance_depth_update u =
     and_then (convert_levels ''bid'' (bd_bids u)) (\<lambda>bids.
     and_then (convert_levels ''ask'' (bd_asks u)) (\<lambda>asks.
       Ok \<lparr> o_symbol = normalize_binance_symbol (bd_symbol u),
            o_exchange = normalize_exchange_name ''binance'' ''spot'', o_bids = bids, o_asks = asks,
            o_timestamp = millis_to_nanos (bd_event_time u) \<rparr>))"

definition convert_binance_trade :: "binance_trade \<Rightarrow> standardized_trade result" where
  "convert_binance_trade t =
     and_then (parse_price ''trade price'' (bt_price t)) (\<lambda>price.
     and_then (parse_price ''trade quantity'' (bt_quantity t)) (\<lambda>quantity.
       Ok \<lparr> t_symbol = normalize_binance_symbol (bt_symbol t),
            t_exchange = normalize_exchange_name ''binance'' ''spot'', t_price = price, t_quantity = quantity,
            t_is_buyer_taker = (\<not> bt_is_buyer_market_maker t), t_timestamp = millis_to_nanos (bt_trade_time t) \<rparr>))"

definition convert_binance_agg_trade :: "binance_agg_trade \<Rightarrow> standardized_trade result" where
  "convert_binance_agg_trade t =
     and_then (parse_price ''aggTrade price'' (ba_price t)) (\<lambda>price.
     and_then (parse_price ''aggTrade quantity'' (ba_quantity t)) (\<lambda>quantity.
       Ok \<lparr> t_symbol = normalize_binance_symbol (ba_symbol t),
            t_exchange = normalize_exchange_name ''binance'' ''futures'', t_price = price, t_quantity = quantity,
            t_is_buyer_taker = (\<not> ba_is_buyer_market_maker t), t_timestamp = millis_to_nanos (ba_trade_time t) \<rparr>))"

section \<open>Binance messages\<close>

definition event_time_nanos :: "json \<Rightarrow> u64" where
  "event_time_nanos event = millis_to_nanos (case Option.bind (json_get event ''E'') as_u64 of Some t \<Rightarrow> t | None \<Rightarrow> 0)"

definition parse_mark_price :: "json \<Rightarrow> parsed_data result" where
  "parse_mark_price event =
     and_then (ok_or (get_str event ''s'') (JsonParseError ''symbol missing'')) (\<lambda>symb.
     and_then (ok_or (get_str event ''p'') (JsonParseError ''mark missing'')) (\<lambda>mark.
     and_then (ok_or (get_str event ''i'') (JsonParseError ''index missing'')) (\<lambda>index.
     and_then (ok_or (get_str event ''r'') (JsonParseError ''funding missing'')) (\<lambda>funding.
       let ts = event_time_nanos event;
           symbol_std = normalize_binance_symbol symb;
           exchange = normalize_exchange_name ''binance'' ''futures''
       in and_then (parse_price ''mark'' mark) (\<lambda>mark_f.
          and_then (parse_price ''index'' index) (\<lambda>index_f.
          and_then (parse_price ''funding'' funding) (\<lambda>funding_f.
            Ok (Multi [IndexPrice symbol_std exchange index_f ts, MarkPrice symbol_std exchange mark_f ts,
                       FundingRate symbol_std exchange funding_f ts]))))))))"

definition parse_force_order :: "json \<Rightarrow> parsed_data result" where
  "parse_force_order event =
     and_then (ok_or (json_get event ''o'') (JsonParseError ''forceOrder:o missing'')) (\<lambda>ob.
     and_then (ok_or (get_str ob ''s'') (JsonParseError ''symbol missing'')) (\<lambda>symb.
       let side = (case get_str ob ''S'' of Some x \<Rightarrow> x | None \<Rightarrow> '''');
           price_value = (case json_get ob ''ap'' of Some x \<Rightarrow> Some x | None \<Rightarrow> json_get ob ''p'');
           price = (case Option.bind price_value as_str of Some x \<Rightarrow> x | None \<Rightarrow> ''0'');
           qty = (case get_str ob ''q'' of Some x \<Rightarrow> x | None \<Rightarrow> ''0'');
           ts = event_time_nanos event;
           symbol_std = normalize_binance_symbol symb;
           exchange = normalize_exchange_name ''binance'' ''futures'';
           price_f = (case parse_f64 price of Some x \<Rightarrow> x | None \<Rightarrow> f64_zero);
           qty_f = (case parse_f64 qty of Some x \<Rightarrow> x | None \<Rightarrow> f64_zero);
           is_sell = eq_ignore_ascii_case side ''SELL''
       in Ok (Liquidation symbol_std exchange price_f qty_f is_sell ts)))"

definition event_object :: "json \<Rightarrow> json" where
  "event_object root_value = (case json_get root_value ''data'' of Some data_obj \<Rightarrow> data_obj | None \<Rightarrow> root_value)"

definition parse_binance_event :: "json \<Rightarrow> parsed_data result" where
  "parse_binance_event event =
     and_then (ok_or (get_str event ''e'') (JsonParseError ''event type missing'')) (\<lambda>event_type.
       if event_type = ''depthUpdate'' then
         and_then (ok_or (depth_from_value event) (JsonParseError ''depth update'')) (\<lambda>update.
         and_then (convert_binance_depth_update update) (\<lambda>ob. Ok (OrderBook ob)))
       else if event_type = ''markPriceUpdate'' then parse_mark_price event
       else if event_type = ''forceOrder'' then parse_force_order event
       else if event_type = ''trade'' then
         and_then (ok_or (trade_from_value event) (JsonParseError ''trade'')) (\<lambda>trade.
         and_then (convert_binance_trade trade) (\<lambda>t. Ok (Trade t)))
       else if event_type = ''aggTrade'' then
         and_then (ok_or (agg_trade_from_value event) (JsonParseError ''aggTrade'')) (\<lambda>trade.
         and_then (convert_binance_agg_trade trade) (\<lambda>t.
           Ok (TradeBatch \<lparr> tb_symbol = t_symbol t, tb_exchange = t_exchange t,
                           tb_exchange_timestamp = t_timestamp t, tb_trades = [t] \<rparr>)))
       else Err (JsonParseError ''unsupported event type''))"

definition parse_binance_message :: "(u8 list \<Rightarrow> json option) \<Rightarrow> u8 list \<Rightarrow> parsed_data result" where
  "parse_binance_message from_slice data =
     and_then (ok_or (from_slice data) (JsonParseError ''SIMD JSON'')) (\<lambda>root_value.
       parse_binance_event (event_object root_value))"

section \<open>The default parser\<close>

definition is_char_boundary :: "string \<Rightarrow> nat \<Rightarrow> bool" where
  "is_char_boundary s i \<longleftrightarrow> i = length s \<or> (i < length s \<and> \<not> utf8_cont (code_of (s ! i)))"

text \<open>
  \<open>debug\<close> says whether debug messages are enabled; only then the log arguments, with their slice of the
  text, are evaluated. \<open>now\<close> is the system clock in nanoseconds from the epoch; before it, \<^verbatim>\<open>unwrap\<close>
  panics.
\<close>

definition parse_default_message :: "bool \<Rightarrow> int \<Rightarrow> u8 list \<Rightarrow> parsed_data result option" where
  "parse_default_message debug now data =
     (let raw_text = from_utf8_lossy data in
      if debug \<and> \<not> is_char_boundary raw_text (min 100 (length raw_text)) then None
      else if now < 0 then None
      else Some (Ok (Trade \<lparr> t_symbol = ''UNKNOWN^USDT'', t_exchange = ''Unknown'', t_price = f64_zero,
                            t_quantity = f64_zero, t_is_buyer_taker = False, t_timestamp = of_int now \<rparr>)))"

section \<open>The dispatching parser\<close>

datatype parser_fn = BinanceParser | DefaultParser

record data_parser =
  dp_parsers :: "(string \<times> parser_fn) list"

definition get_parser_for_exchange :: "string \<Rightarrow> parser_fn" where
  "get_parser_for_exchange exchange_name =
     (if starts_with exchange_name ''Binance'' then BinanceParser else DefaultParser)"

definition new_with_config :: "(string list \<Rightarrow> string list) \<Rightarrow> config option \<Rightarrow> data_parser" where
  "new_with_config ord cfg =
     (let parsers = AList.update ''binance'' BinanceParser [] in
      \<lparr> dp_parsers =
          (case cfg of
             Some c \<Rightarrow>
               (case cf_symbol_config c of
                  Some sc \<Rightarrow>
                    fold (\<lambda>exchange_name m. AList.update exchange_name (get_parser_for_exchange exchange_name) m)
                      (get_exchange_names ord sc) parsers
                | None \<Rightarrow> parsers)
           | None \<Rightarrow> parsers) \<rparr>)"

definition data_parser_new :: data_parser where
  "data_parser_new = new_with_config (\<lambda>names. names) None"

fun set_exchange_of :: "string \<Rightarrow> parsed_data \<Rightarrow> parsed_data" where
  "set_exchange_of ex (Trade t) = Trade (t\<lparr>t_exchange := ex\<rparr>)"
| "set_exchange_of ex (TradeBatch b) = TradeBatch (b\<lparr>tb_exchange := ex\<rparr>)"
| "set_exchange_of ex (OrderBook ob) = OrderBook (ob\<lparr>o_exchange := ex\<rparr>)"
| "set_exchange_of ex (IndexPrice symbol _ v ts) = IndexPrice symbol ex v ts"
| "set_exchange_of ex (MarkPrice symbol _ v ts) = MarkPrice symbol ex v ts"
| "set_exchange_of ex (FundingRate symbol _ v ts) = FundingRate symbol ex v ts"
| "set_exchange_of ex (Liquidation symbol _ p q b ts) = Liquidation symbol ex p q b ts"
| "set_exchange_of ex (Multi _) = Multi []"

fun adjust_exchange :: "string \<Rightarrow> parsed_data \<Rightarrow> parsed_data" where
  "adjust_exchange ex (Multi items) = Multi (map (set_exchange_of ex) items)"
| "adjust_exchange ex d = set_exchange_of ex d"

definition parse_message ::
  "(u8 list \<Rightarrow> json option) \<Rightarrow> bool \<Rightarrow> int \<Rightarrow> data_parser \<Rightarrow> string \<Rightarrow> u8 list \<Rightarrow> parsed_data result option"
where
  "parse_message from_slice debug now p exchange data =
     (case map_of (dp_parsers p) exchange of
        None \<Rightarrow> Some (Err (JsonParseError ''unsupported exchange''))
      | Some f \<Rightarrow>
          map_option (\<lambda>r. and_then r (\<lambda>parsed. Ok (adjust_exchange exchange parsed)))
            (case f of
               BinanceParser \<Rightarrow> Some (parse_binance_message from_slice data)
             | DefaultParser \<Rightarrow> parse_default_message debug now data))"

end
