(* ===== verification/Udp_Multicaster.thy ===== *)
theory Udp_Multicaster
  imports Packet_Builder Feeder_Config
begin

text \<open>
  \<^verbatim>\<open>src/src/udp_broadcaster.rs\<close>: sending packets and keeping statistics. What the operating system answers
  to the calls for one packet is the argument \<open>os_answers\<close>; a socket is modelled by whether connecting it
  succeeded, since sending on an unconnected socket without a destination is an error of the operating
  system. The ghost field \<open>um_wire\<close> lists the datagrams that were handed over, with their ports.
\<close>

section \<open>Data\<close>

record udp_multicaster =
  um_target_ip :: "nat list"
  um_target_port :: nat
  um_connected :: bool
  um_multicast_ip :: "nat list"
  um_interface_ip :: "nat list"
  um_sockets_by_port :: "(nat \<times> bool) list"
  um_packets_sent :: u64
  um_bytes_sent :: u64
  um_wire :: "(nat \<times> u8 list) list"

record os_answers =
  os_bind :: "io_error option"
  os_connect :: "io_error option"
  os_send :: "io_error + nat"
  os_send_to :: "io_error + nat"

record udp_stats =
  us_packets_sent :: u64
  us_bytes_sent :: u64

section \<open>Operations\<close>

definition multicaster_new :: "udp_config \<Rightarrow> os_answers \<Rightarrow> udp_multicaster result" where
  "multicaster_new cfg os =
     and_then (ok_or (parse_ipv4 (uc_multicast cfg)) (Other ''invalid multicast address'')) (\<lambda>multicast_ip.
     and_then (ok_or (parse_ipv4 (uc_interface cfg)) (Other ''invalid interface address'')) (\<lambda>interface_ip.
       case os_bind os of
         Some e \<Rightarrow> Err (UdpError e)
       | None \<Rightarrow>
           let is_connected = (os_connect os = None) in
           Ok \<lparr> um_target_ip = multicast_ip, um_target_port = uc_port_number cfg, um_connected = is_connected,
                um_multicast_ip = multicast_ip, um_interface_ip = interface_ip, um_sockets_by_port = [],
                um_packets_sent = 0, um_bytes_sent = 0, um_wire = [] \<rparr>))"

text \<open>The common tail of both sending paths.\<close>

definition finish_send :: "nat \<Rightarrow> udp_packet \<Rightarrow> io_error + nat \<Rightarrow> udp_multicaster \<Rightarrow> unit result \<times> udp_multicaster" where
  "finish_send port packet send_result m =
     (case send_result of
        Inr bytes_sent \<Rightarrow>
          (Ok (), m\<lparr>um_packets_sent := um_packets_sent m + 1,
                    um_bytes_sent := um_bytes_sent m + of_nat bytes_sent,
                    um_wire := um_wire m @ [(port, u_data packet)]\<rparr>)
      | Inl e \<Rightarrow> if e = WouldBlock then (Ok (), m) else (Err (UdpError e), m))"

text \<open>
  \<^verbatim>\<open>send\<close> on the connected socket, or \<^verbatim>\<open>send_to\<close> with the target address, which works without a connection.
\<close>

definition send_packet :: "udp_packet \<Rightarrow> os_answers \<Rightarrow> udp_multicaster \<Rightarrow> unit result \<times> udp_multicaster" where
  "send_packet packet os m =
     (let send_result = (if um_connected m then os_send os else os_send_to os)
      in finish_send (um_target_port m) packet send_result m)"

text \<open>
  \<^verbatim>\<open>send\<close> on a socket of the cache: the operating system refuses it on a socket that was never connected
  (\<^verbatim>\<open>ENOTCONN\<close>, or \<^verbatim>\<open>EDESTADDRREQ\<close> on Linux; neither is \<^verbatim>\<open>WouldBlock\<close>).
\<close>

definition socket_send :: "bool \<Rightarrow> os_answers \<Rightarrow> io_error + nat" where
  "socket_send is_connected os = (if is_connected then os_send os else Inl NotConnected)"

definition send_packet_to_port :: "udp_packet \<Rightarrow> nat \<Rightarrow> os_answers \<Rightarrow> udp_multicaster \<Rightarrow> unit result \<times> udp_multicaster" where
  "send_packet_to_port packet port os m =
     (if port = um_target_port m then send_packet packet os m
      else
        case (if map_of (um_sockets_by_port m) port = None then
                (case os_bind os of
                   None \<Rightarrow> Inr (m\<lparr>um_sockets_by_port := AList.update port (os_connect os = None) (um_sockets_by_port m)\<rparr>)
                 | Some e \<Rightarrow> Inl e)
              else Inr m) of
          Inl e \<Rightarrow> (Err (UdpError e), m)
        | Inr m1 \<Rightarrow>
            (case map_of (um_sockets_by_port m1) port of
               Some sock \<Rightarrow> finish_send port packet (socket_send sock os) m1
             | None \<Rightarrow> (Err (Other ''no socket for the port''), m1)))"

definition get_stats :: "udp_multicaster \<Rightarrow> udp_stats" where
  "get_stats m = \<lparr> us_packets_sent = um_packets_sent m, us_bytes_sent = um_bytes_sent m \<rparr>"

definition reset_stats :: "udp_multicaster \<Rightarrow> udp_multicaster" where
  "reset_stats m = m\<lparr>um_packets_sent := 0, um_bytes_sent := 0\<rparr>"

definition target_address :: "udp_multicaster \<Rightarrow> nat list \<times> nat" where
  "target_address m = (um_target_ip m, um_target_port m)"

definition average_packet_size :: "udp_stats \<Rightarrow> f64" where
  "average_packet_size s =
     (if us_packets_sent s = 0 then f64_zero
      else f64_div (f64_of_u64 (us_bytes_sent s)) (f64_of_u64 (us_packets_sent s)))"

text \<open>What is logged when the multicaster is dropped: packets, bytes and the average size.\<close>

definition drop_report :: "udp_multicaster \<Rightarrow> u64 \<times> u64 \<times> f64" where
  "drop_report m =
     (let stats = get_stats m in (us_packets_sent stats, us_bytes_sent stats, average_packet_size stats))"

end
