(* ===== verification/Connection_Manager.thy ===== *)
theory Connection_Manager
  imports Data_Parser Udp_Multicaster
begin

text \<open>
  \<^verbatim>\<open>src/src/connection_manager.rs\<close>: the sessions. A session is one task; this theory models what one task
  does with the shared builder and multicaster when no other task runs between its steps. The outside
  world is given by arguments: the outcome of every connection attempt with the messages then received,
  the operating system's answers for the \<open>n\<close>-th packet sent, the URL parser, the JSON parser and the clocks.
  Ghost fields record the status events and the sleeps. A panic ends the task.
\<close>

section \<open>The world of a task\<close>

text \<open>The messages of a WebSocket; for a ping, whether sending the answer fails.\<close>

datatype ws_message =
    Text string
  | Binary "u8 list"
  | Ping "nat option"
  | Pong
  | Close
  | Frame
  | WsError nat

record feeder_env =
  fe_build :: build_env
  fe_net :: "nat \<Rightarrow> os_answers"
  fe_from_slice :: "u8 list \<Rightarrow> json option"
  fe_url_ok :: "string \<Rightarrow> bool"
  fe_subscribe :: "ws_message \<Rightarrow> nat option"
  fe_debug :: bool
  fe_now :: "nat \<Rightarrow> int"

record feeder =
  fd_config :: config
  fd_parser :: data_parser
  fd_builder :: packet_builder
  fd_udp :: udp_multicaster
  fd_sends :: nat
  fd_parses :: nat
  fd_events :: "(u8 \<times> u8 \<times> nat \<times> nat) list"
  fd_sleeps :: "nat list"

definition connection_manager_new :: "config \<Rightarrow> data_parser \<Rightarrow> packet_builder \<Rightarrow> udp_multicaster \<Rightarrow> feeder" where
  "connection_manager_new c parser builder udp_broadcaster =
     \<lparr> fd_config = c, fd_parser = parser, fd_builder = builder, fd_udp = udp_broadcaster,
       fd_sends = 0, fd_parses = 0, fd_events = [], fd_sleeps = [] \<rparr>"

text \<open>A connection attempt fails, or gives the messages up to the end of the stream.\<close>

type_synonym attempt = "nat + ws_message list"

datatype 'a outcome = Panicked | Returned "'a result"

section \<open>Sending\<close>

definition fd_send :: "feeder_env \<Rightarrow> (os_answers \<Rightarrow> udp_multicaster \<Rightarrow> unit result \<times> udp_multicaster) \<Rightarrow> feeder
    \<Rightarrow> unit result \<times> feeder" where
  "fd_send env f st =
     (let (r, u) = f (fe_net env (fd_sends st)) (fd_udp st) in (r, st\<lparr>fd_udp := u, fd_sends := Suc (fd_sends st)\<rparr>))"

text \<open>\<^verbatim>\<open>for packet in packets { send(packet)?; }\<close>: an error drops the packets after it.\<close>

fun send_all :: "(udp_packet \<Rightarrow> feeder \<Rightarrow> unit result \<times> feeder) \<Rightarrow> udp_packet list \<Rightarrow> feeder \<Rightarrow> unit result \<times> feeder" where
  "send_all f [] st = (Ok (), st)"
| "send_all f (p # ps) st = (case f p st of (Inl e, st1) \<Rightarrow> (Inl e, st1) | (Inr _, st1) \<Rightarrow> send_all f ps st1)"

definition process_with :: "feeder_env \<Rightarrow> (udp_packet \<Rightarrow> feeder \<Rightarrow> unit result \<times> feeder) \<Rightarrow> string \<Rightarrow> u8 list \<Rightarrow> feeder
    \<Rightarrow> unit outcome \<times> feeder" where
  "process_with env f exchange data st =
     (let parsed = parse_message (fe_from_slice env) (fe_debug env) (fe_now env (fd_parses st)) (fd_parser st) exchange data;
          st = st\<lparr>fd_parses := Suc (fd_parses st)\<rparr>
      in case parsed of
           None \<Rightarrow> (Panicked, st)
         | Some (Inl e) \<Rightarrow> (Returned (Inl e), st)
         | Some (Inr d) \<Rightarrow>
             (case build_packets (fe_build env) d (fd_builder st) of
                (Inl e, b) \<Rightarrow> (Returned (Inl e), st\<lparr>fd_builder := b\<rparr>)
              | (Inr packets, b) \<Rightarrow>
                  (let (r, st1) = send_all f packets (st\<lparr>fd_builder := b\<rparr>) in (Returned r, st1))))"

definition process_message :: "feeder_env \<Rightarrow> string \<Rightarrow> u8 list \<Rightarrow> feeder \<Rightarrow> unit outcome \<times> feeder" where
  "process_message env exchange data st =
     process_with env (\<lambda>p. fd_send env (send_packet p)) exchange data st"

definition process_and_send_to_port :: "feeder_env \<Rightarrow> string \<Rightarrow> u8 list \<Rightarrow> nat \<Rightarrow> feeder \<Rightarrow> unit outcome \<times> feeder" where
  "process_and_send_to_port env exchange data port st =
     process_with env (\<lambda>p. fd_send env (send_packet_to_port p port)) exchange data st"

section \<open>Status events\<close>

definition infer_exchange_id_from_display :: "string \<Rightarrow> u16" where
  "infer_exchange_id_from_display display_name =
     (let low = to_lowercase display_name in
      if contains low ''binance'' then exchange_name_to_id ''binance''
      else if contains low ''okx'' then exchange_name_to_id ''okx''
      else if contains low ''bybit'' then exchange_name_to_id ''bybit''
      else if contains low ''upbit'' then exchange_name_to_id ''upbit''
      else if contains low ''bithumb'' then exchange_name_to_id ''bithumb''
      else if contains low ''coinbase'' then exchange_name_to_id ''coinbase''
      else 0)"

definition send_event_with ::
  "feeder_env \<Rightarrow> (udp_packet \<Rightarrow> feeder \<Rightarrow> unit result \<times> feeder) \<Rightarrow> string \<Rightarrow> u8 \<Rightarrow> u8 \<Rightarrow> nat \<Rightarrow> u64 \<Rightarrow> feeder \<Rightarrow> unit result \<times> feeder"
where
  "send_event_with env f exchange_name previous_status current_status retry_count error_code st =
     (let exchange_id = infer_exchange_id_from_display exchange_name;
          event = ConnectionStatus
            (connection_status_new exchange_id previous_status current_status (of_nat retry_count) error_code)
      in case build_event_packet_with_exchange (fe_build env) event exchange_name (fd_builder st) of
           (Inl e, b) \<Rightarrow> (Inl e, st\<lparr>fd_builder := b\<rparr>)
         | (Inr packet, b) \<Rightarrow> f packet (st\<lparr>fd_builder := b\<rparr>))"

definition send_connection_event :: "feeder_env \<Rightarrow> string \<Rightarrow> u8 \<Rightarrow> u8 \<Rightarrow> nat \<Rightarrow> u64 \<Rightarrow> feeder \<Rightarrow> unit result \<times> feeder" where
  "send_connection_event env exchange_name previous_status current_status retry_count error_code st =
     send_event_with env (\<lambda>p. fd_send env (send_packet p)) exchange_name previous_status current_status retry_count error_code st"

definition send_connection_event_to_port ::
  "feeder_env \<Rightarrow> string \<Rightarrow> u8 \<Rightarrow> u8 \<Rightarrow> nat \<Rightarrow> u64 \<Rightarrow> nat \<Rightarrow> feeder \<Rightarrow> unit result \<times> feeder"
where
  "send_connection_event_to_port env exchange_name previous_status current_status retry_count error_code port st =
     send_event_with env (\<lambda>p. fd_send env (send_packet_to_port p port)) exchange_name previous_status current_status
       retry_count error_code (st\<lparr>fd_events := fd_events st @ [(previous_status, current_status, retry_count, port)]\<rparr>)"

text \<open>\<^verbatim>\<open>let _ = self.send_connection_event_to_port(..).await;\<close>\<close>

definition notify :: "feeder_env \<Rightarrow> string \<Rightarrow> u8 \<Rightarrow> u8 \<Rightarrow> nat \<Rightarrow> nat \<Rightarrow> feeder \<Rightarrow> feeder" where
  "notify env exchange_name previous_status current_status retry_count port st =
     snd (send_connection_event_to_port env exchange_name previous_status current_status retry_count 0 port st)"

section \<open>URLs\<close>

definition build_binance_websocket_url_legacy :: "string \<Rightarrow> string list \<Rightarrow> string result" where
  "build_binance_websocket_url_legacy base_url symbols =
     (let is_futures = contains base_url ''fstream.binance.com'';
          trade_topic = ''trade'';
          depth_topic = (if is_futures then ''depth@0ms'' else ''depth'');
          streams = concat (map (\<lambda>symbol.
            let binance_symbol = to_lowercase (replace symbol ''^'' '''') in
            [binance_symbol @ ''@'' @ trade_topic, binance_symbol @ ''@'' @ depth_topic] @
            (if is_futures then [binance_symbol @ ''@markPrice@1s'', binance_symbol @ ''@forceOrder''] else [])) symbols);
          query = ''streams='' @ join ''/'' streams
      in Ok (if ends_with base_url ''/ws/'' then replace base_url ''/ws/'' ''/stream?'' @ query
         else if ends_with base_url ''/ws'' then replace base_url ''/ws'' ''/stream?'' @ query
         else if ends_with base_url ''/stream'' \<or> ends_with base_url ''/stream/'' then
           base_url @ (if ends_with base_url ''/'' then '''' else ''/'') @ ''?'' @ query
         else base_url @ (if ends_with base_url ''/'' then '''' else ''/'') @ ''stream?'' @ query))"

definition build_default_websocket_url :: "string \<Rightarrow> string list \<Rightarrow> string result" where
  "build_default_websocket_url exchange_name symbols =
     (if exchange_name = ''BinanceSpot'' then build_binance_websocket_url_legacy ''wss://stream.binance.com:9443/ws/'' symbols
      else if exchange_name = ''BinanceFutures'' then build_binance_websocket_url_legacy ''wss://fstream.binance.com/ws/'' symbols
      else Ok ''wss://stream.binance.com:9443/ws/btcusdt@trade'')"

definition build_binance_websocket_url_from_endpoint :: "exchange_endpoint \<Rightarrow> string list \<Rightarrow> string result" where
  "build_binance_websocket_url_from_endpoint endpoint symbols =
     build_binance_websocket_url_legacy (ep_ws_url_base endpoint) symbols"

definition build_okx_websocket_url :: "exchange_endpoint \<Rightarrow> string list \<Rightarrow> string result" where
  "build_okx_websocket_url endpoint symbols = Ok (ep_ws_url_base endpoint)"

definition build_bybit_websocket_url :: "exchange_endpoint \<Rightarrow> string list \<Rightarrow> string result" where
  "build_bybit_websocket_url endpoint symbols = Ok (ep_ws_url_base endpoint)"

definition build_upbit_websocket_url :: "exchange_endpoint \<Rightarrow> string list \<Rightarrow> string result" where
  "build_upbit_websocket_url endpoint symbols = Ok (ep_ws_url_base endpoint)"

definition build_bithumb_websocket_url :: "exchange_endpoint \<Rightarrow> string list \<Rightarrow> string result" where
  "build_bithumb_websocket_url endpoint symbols = Ok (ep_ws_url_base endpoint)"

definition build_coinbase_websocket_url :: "exchange_endpoint \<Rightarrow> string list \<Rightarrow> string result" where
  "build_coinbase_websocket_url endpoint symbols = Ok (ep_ws_url_base endpoint)"

definition build_websocket_url_from_endpoint :: "exchange_endpoint \<Rightarrow> string list \<Rightarrow> string result" where
  "build_websocket_url_from_endpoint endpoint symbols =
     (let name = ep_exchange_name endpoint in
      if starts_with name ''Binance'' then build_binance_websocket_url_from_endpoint endpoint symbols
      else if starts_with name ''Okx'' then build_okx_websocket_url endpoint symbols
      else if starts_with name ''Bybit'' then build_bybit_websocket_url endpoint symbols
      else if starts_with name ''Upbit'' then build_upbit_websocket_url endpoint symbols
      else if starts_with name ''Bithumb'' then build_bithumb_websocket_url endpoint symbols
      else if starts_with name ''Coinbase'' then build_coinbase_websocket_url endpoint symbols
      else Ok (ep_ws_url_base endpoint))"

text \<open>No exchange gets a subscription message yet.\<close>

definition build_subscription_message :: "string \<Rightarrow> string list \<Rightarrow> ws_message option result" where
  "build_subscription_message exchange_name symbols =
     (if exchange_name = ''BinanceSpot'' \<or> exchange_name = ''BinanceFutures'' then Ok None else Ok None)"

definition session_url :: "config \<Rightarrow> string \<Rightarrow> symbol_session \<Rightarrow> string result" where
  "session_url c exchange_name session =
     (case cf_endpoint_config c of
        Some endpoint_config \<Rightarrow>
          (case get_exchange_endpoint endpoint_config exchange_name of
             Some endpoint \<Rightarrow>
               if \<not> ep_enabled endpoint then Err (Other ''exchange disabled'')
               else build_websocket_url_from_endpoint endpoint (se_symbols session)
           | None \<Rightarrow> build_default_websocket_url exchange_name (se_symbols session))
      | None \<Rightarrow> build_default_websocket_url exchange_name (se_symbols session))"

section \<open>One connection\<close>

text \<open>The receive loop of a session. Processing errors are logged; a panic of the parser ends the task.\<close>

fun session_loop :: "feeder_env \<Rightarrow> string \<Rightarrow> nat \<Rightarrow> ws_message list \<Rightarrow> feeder \<Rightarrow> unit outcome \<times> feeder" where
  "session_loop env exchange_name port [] st = (Returned (Err (Other ''connection ended unexpectedly'')), st)"
| "session_loop env exchange_name port (Text text # ms) st =
     (case process_and_send_to_port env exchange_name (as_bytes text) port st of
        (Panicked, st1) \<Rightarrow> (Panicked, st1)
      | (Returned _, st1) \<Rightarrow> session_loop env exchange_name port ms st1)"
| "session_loop env exchange_name port (Binary data # ms) st =
     (case process_and_send_to_port env exchange_name data port st of
        (Panicked, st1) \<Rightarrow> (Panicked, st1)
      | (Returned _, st1) \<Rightarrow> session_loop env exchange_name port ms st1)"
| "session_loop env exchange_name port (Close # ms) st =
     (Returned (Err (Other ''connection ended unexpectedly'')),
      notify env exchange_name CONNECTION_STATUS_CONNECTED CONNECTION_STATUS_DISCONNECTED 0 port st)"
| "session_loop env exchange_name port (Ping pong_error # ms) st =
     (case pong_error of
        Some e \<Rightarrow> (Returned (Err (WebSocketError e)), st)
      | None \<Rightarrow> session_loop env exchange_name port ms st)"
| "session_loop env exchange_name port (Pong # ms) st = session_loop env exchange_name port ms st"
| "session_loop env exchange_name port (Frame # ms) st = session_loop env exchange_name port ms st"
| "session_loop env exchange_name port (WsError e # ms) st =
     (Returned (Err (WebSocketError e)),
      notify env exchange_name CONNECTION_STATUS_CONNECTED CONNECTION_STATUS_DISCONNECTED 0 port st)"

definition connect_to_symbol_session ::
  "feeder_env \<Rightarrow> string \<Rightarrow> symbol_session \<Rightarrow> attempt \<Rightarrow> feeder \<Rightarrow> unit outcome \<times> feeder"
where
  "connect_to_symbol_session env exchange_name session attempt st =
     (case session_url (fd_config st) exchange_name session of
        Inl e \<Rightarrow> (Returned (Inl e), st)
      | Inr ws_url \<Rightarrow>
          if \<not> fe_url_ok env ws_url then (Returned (Err (UrlParseError 0)), st)
          else case attempt of
                 Inl e \<Rightarrow> (Returned (Err (WebSocketError e)), st)
               | Inr messages \<Rightarrow>
                   (case build_subscription_message exchange_name (se_symbols session) of
                      Inl e \<Rightarrow> (Returned (Inl e), st)
                    | Inr (Some subscription_msg) \<Rightarrow>
                        (case fe_subscribe env subscription_msg of
                           Some e \<Rightarrow> (Returned (Err (WebSocketError e)), st)
                         | None \<Rightarrow> session_loop env exchange_name (se_port session) messages st)
                    | Inr None \<Rightarrow> session_loop env exchange_name (se_port session) messages st))"

fun exchange_loop :: "feeder_env \<Rightarrow> string \<Rightarrow> ws_message list \<Rightarrow> feeder \<Rightarrow> unit outcome \<times> feeder" where
  "exchange_loop env name [] st = (Returned (Err (Other ''connection ended'')), st)"
| "exchange_loop env name (Text text # ms) st =
     (case process_message env name (as_bytes text) st of
        (Panicked, st1) \<Rightarrow> (Panicked, st1) | (Returned _, st1) \<Rightarrow> exchange_loop env name ms st1)"
| "exchange_loop env name (Binary data # ms) st =
     (case process_message env name data st of
        (Panicked, st1) \<Rightarrow> (Panicked, st1) | (Returned _, st1) \<Rightarrow> exchange_loop env name ms st1)"
| "exchange_loop env name (Ping pong_error # ms) st =
     (case pong_error of
        Some e \<Rightarrow> (Returned (Err (Other ''connection ended'')), st)
      | None \<Rightarrow> exchange_loop env name ms st)"
| "exchange_loop env name (Pong # ms) st = exchange_loop env name ms st"
| "exchange_loop env name (Close # ms) st = (Returned (Err (Other ''connection ended'')), st)"
| "exchange_loop env name (Frame # ms) st = exchange_loop env name ms st"
| "exchange_loop env name (WsError e # ms) st = (Returned (Err (Other ''connection ended'')), st)"

definition connect_to_exchange :: "feeder_env \<Rightarrow> exchange_config \<Rightarrow> attempt \<Rightarrow> feeder \<Rightarrow> unit outcome \<times> feeder" where
  "connect_to_exchange env ec attempt st =
     (if \<not> fe_url_ok env (ec_ws_url ec) then (Returned (Err (UrlParseError 0)), st)
      else case attempt of
             Inl e \<Rightarrow> (Returned (Err (WebSocketError e)), st)
           | Inr messages \<Rightarrow> exchange_loop env (ec_name ec) messages st)"

section \<open>Reconnection\<close>

text \<open>The delay in milliseconds.\<close>

definition calculate_backoff_delay :: "nat \<Rightarrow> nat" where
  "calculate_backoff_delay retry_count =
     (let base_delay = 1000; max_delay = 60000 in
      if retry_count = 0 then base_delay else min (base_delay * 2 ^ min retry_count 6) max_delay)"

definition MAX_RETRY_COUNT :: nat where
  "MAX_RETRY_COUNT = 10"

definition sleep :: "nat \<Rightarrow> feeder \<Rightarrow> feeder" where
  "sleep delay st = st\<lparr>fd_sleeps := fd_sleeps st @ [delay]\<rparr>"

text \<open>
  The loop of a session from the \<open>n\<close>-th attempt on. It is a partial function: its result is \<open>None\<close> when it
  never returns. \<open>attempts n\<close> is what happens at the \<open>n\<close>-th attempt.
\<close>

partial_function (option) manage_symbol_session ::
  "feeder_env \<Rightarrow> string \<Rightarrow> symbol_session \<Rightarrow> (nat \<Rightarrow> attempt) \<Rightarrow> nat \<Rightarrow> nat \<Rightarrow> feeder \<Rightarrow> (unit outcome \<times> feeder) option"
where
  "manage_symbol_session env exchange_name session attempts n retry_count st =
     (let st0 = notify env exchange_name CONNECTION_STATUS_DISCONNECTED CONNECTION_STATUS_CONNECTING retry_count (se_port session) st
      in case connect_to_symbol_session env exchange_name session (attempts n) st0 of
           (Panicked, st1) \<Rightarrow> Some (Panicked, st1)
         | (Returned (Inr _), st1) \<Rightarrow>
             manage_symbol_session env exchange_name session attempts (Suc n) 0
               (notify env exchange_name CONNECTION_STATUS_CONNECTING CONNECTION_STATUS_CONNECTED retry_count (se_port session) st1)
         | (Returned (Inl e), st1) \<Rightarrow>
             if MAX_RETRY_COUNT \<le> retry_count + 1 then
               Some (Returned (Err (Other ''maximal number of retries exceeded'')),
                 notify env exchange_name CONNECTION_STATUS_RECONNECTING CONNECTION_STATUS_FAILED (retry_count + 1) (se_port session) st1)
             else
               manage_symbol_session env exchange_name session attempts (Suc n) (retry_count + 1)
                 (sleep (calculate_backoff_delay (retry_count + 1 - 1))
                   (notify env exchange_name CONNECTION_STATUS_CONNECTED CONNECTION_STATUS_RECONNECTING (retry_count + 1) (se_port session) st1)))"

partial_function (option) manage_exchange_connection ::
  "feeder_env \<Rightarrow> exchange_config \<Rightarrow> (nat \<Rightarrow> attempt) \<Rightarrow> nat \<Rightarrow> nat \<Rightarrow> feeder \<Rightarrow> (unit outcome \<times> feeder) option"
where
  "manage_exchange_connection env ec attempts n retry_count st =
     (case connect_to_exchange env ec (attempts n) st of
        (Panicked, st1) \<Rightarrow> Some (Panicked, st1)
      | (Returned (Inr _), st1) \<Rightarrow> manage_exchange_connection env ec attempts (Suc n) 0 st1
      | (Returned (Inl e), st1) \<Rightarrow>
          if MAX_RETRY_COUNT \<le> retry_count + 1 then
            Some (Returned (Err (Other ''maximal number of retries exceeded'')), st1)
          else
            manage_exchange_connection env ec attempts (Suc n) (retry_count + 1)
              (sleep (calculate_backoff_delay (retry_count + 1 - 1)) st1))"

section \<open>All sessions\<close>

datatype task = SymbolTask string nat symbol_session | ExchangeTask exchange_config

definition spawned_tasks :: "(string list \<Rightarrow> string list) \<Rightarrow> config \<Rightarrow> task list" where
  "spawned_tasks ord c =
     (case cf_symbol_config c of
        Some sc \<Rightarrow>
          concat (map (\<lambda>exchange_name.
            case get_exchange_sessions sc exchange_name of
              Some sessions \<Rightarrow> map (\<lambda>(i, session). SymbolTask exchange_name i session) (enumerate 0 sessions)
            | None \<Rightarrow> []) (get_exchange_names ord sc))
      | None \<Rightarrow> map ExchangeTask (filter ec_enabled (cf_exchanges c)))"

text \<open>What a task does when it is run alone; \<open>attempts\<close> is what its connection attempts give.\<close>

definition run_task :: "feeder_env \<Rightarrow> task \<Rightarrow> (nat \<Rightarrow> attempt) \<Rightarrow> feeder \<Rightarrow> (unit outcome \<times> feeder) option" where
  "run_task env tsk attempts st =
     (case tsk of
        SymbolTask exchange_name session_idx session \<Rightarrow> manage_symbol_session env exchange_name session attempts 0 0 st
      | ExchangeTask ec \<Rightarrow> manage_exchange_connection env ec attempts 0 0 st)"

text \<open>
  \<^verbatim>\<open>run\<close> waits for the tasks, each of which has panicked or returned; only a panic is an error of the join
  handle, and it is logged. The result comes with the number of log lines.
\<close>

fun join_step :: "unit outcome \<Rightarrow> nat \<Rightarrow> nat" where
  "join_step Panicked logged = logged + 1"
| "join_step (Returned _) logged = logged"

definition run_result :: "unit outcome list \<Rightarrow> unit result \<times> nat" where
  "run_result joined = (let logged = fold join_step joined 0 in (Ok (), logged))"

end
