(* ===== verification/Feeder_Main.thy ===== *)
theory Feeder_Main
  imports Connection_Manager
begin

text \<open>
  \<^verbatim>\<open>src/src/main.rs\<close>: the set-up of logging and of the runtime, the command line argument, the start of the
  components, the metrics task, the wait for the end, and the whole program that they make up. A line of
  the log is a value. The file system, the runtime builder, the operating system and the order in which
  the signal, the timer and the connection manager happen are parameters.
\<close>

section \<open>Arguments and start\<close>

definition parse_timeout_arg :: "string list \<Rightarrow> nat option" where
  "parse_timeout_arg args =
     (if 2 \<le> length args then
        (case parse_uint 64 (args ! 1) of
           Some seconds \<Rightarrow> if 0 < seconds then Some seconds else None
         | None \<Rightarrow> None)
      else None)"

text \<open>The number of worker threads that the runtime is given, \<open>None\<close> for its default.\<close>

definition worker_threads :: "config \<Rightarrow> nat option" where
  "worker_threads c =
     (case cf_runtime_threads c of Some t \<Rightarrow> if 0 < t then Some t else None | None \<Rightarrow> None)"

definition start_feeder :: "(string list \<Rightarrow> string list) \<Rightarrow> os_answers \<Rightarrow> config \<Rightarrow> feeder result" where
  "start_feeder ord os c =
     and_then (multicaster_new (cf_udp c) os) (\<lambda>udp_broadcaster.
       let builder = packet_builder_new;
           parser = new_with_config ord (Some c)
       in Ok (connection_manager_new c parser builder udp_broadcaster))"

section \<open>What the start reports\<close>

datatype start_line =
    NoSymbolConfig
  | SymbolConfigFound nat
  | ExchangeSessions string nat nat nat \<comment> \<open>sessions, those for BTC, the others\<close>
  | NoEndpointConfig
  | EndpointConfigFound nat nat
  | EndpointLine string string nat
  | NoEnabledExchange

definition symbol_report :: "(string list \<Rightarrow> string list) \<Rightarrow> config \<Rightarrow> start_line list" where
  "symbol_report ord c =
     (case cf_symbol_config c of
        Some symbol_config \<Rightarrow>
          SymbolConfigFound (length (get_exchange_names ord symbol_config)) #
          concat (map (\<lambda>exchange_name.
            case get_exchange_sessions symbol_config exchange_name of
              Some sessions \<Rightarrow>
                let session_count = length sessions;
                    btc_sessions = length (filter se_is_btc_session sessions);
                    regular_sessions = session_count - btc_sessions
                in [ExchangeSessions exchange_name session_count btc_sessions regular_sessions]
            | None \<Rightarrow> []) (get_exchange_names ord symbol_config))
      | None \<Rightarrow> [NoSymbolConfig])"

definition endpoint_report :: "(string list \<Rightarrow> string list) \<Rightarrow> config \<Rightarrow> start_line list" where
  "endpoint_report ord c =
     (case cf_endpoint_config c of
        Some endpoint_config \<Rightarrow>
          let total_exchanges = length (get_all_exchange_names ord endpoint_config);
              enabled_exchanges = get_enabled_exchange_names ord endpoint_config
          in EndpointConfigFound total_exchanges (length enabled_exchanges) #
             concat (map (\<lambda>exchange_name.
               case get_exchange_endpoint endpoint_config exchange_name of
                 Some endpoint \<Rightarrow> [EndpointLine exchange_name (ep_ws_url_base endpoint) (ep_timeout_ms endpoint)]
               | None \<Rightarrow> []) enabled_exchanges) @
             (if enabled_exchanges = [] then [NoEnabledExchange] else [])
      | None \<Rightarrow> [NoEndpointConfig])"

section \<open>The metrics task\<close>

record metrics_state =
  ms_prev_packets :: u64
  ms_prev_bytes :: u64

text \<open>A sample has the CPU use of the process, if the system knows the process, and the statistics.\<close>

record metrics_line =
  ml_cpu :: f64
  ml_packets :: u64
  ml_bytes :: u64
  ml_pps :: f64
  ml_kbps :: f64
  ml_avg_packet :: f64

definition u64_saturating_sub :: "u64 \<Rightarrow> u64 \<Rightarrow> u64" where
  "u64_saturating_sub a b = (if b \<le> a then a - b else 0)"

definition metrics_interval :: "metrics_config \<Rightarrow> u64" where
  "metrics_interval mc = of_nat (max (mc_interval_secs mc) 1)"

definition metrics_start :: metrics_state where
  "metrics_start = \<lparr> ms_prev_packets = 0, ms_prev_bytes = 0 \<rparr>"

definition metrics_step :: "u64 \<Rightarrow> f64 option \<Rightarrow> udp_stats \<Rightarrow> metrics_state \<Rightarrow> metrics_line \<times> metrics_state" where
  "metrics_step interval_secs usage stats st =
     (let cpu_percent = (case usage of Some u \<Rightarrow> u | None \<Rightarrow> f64_zero);
          d_packets = u64_saturating_sub (us_packets_sent stats) (ms_prev_packets st);
          d_bytes = u64_saturating_sub (us_bytes_sent stats) (ms_prev_bytes st);
          st = st\<lparr>ms_prev_packets := us_packets_sent stats\<rparr>;
          st = st\<lparr>ms_prev_bytes := us_bytes_sent stats\<rparr>;
          pps = f64_div (f64_of_u64 d_packets) (f64_of_u64 interval_secs);
          kbps = f64_div (f64_div (f64_of_u64 d_bytes) (f64_of_u64 interval_secs)) (f64_of_int 1024)
      in (\<lparr> ml_cpu = cpu_percent, ml_packets = d_packets, ml_bytes = d_bytes, ml_pps = pps, ml_kbps = kbps,
            ml_avg_packet = average_packet_size stats \<rparr>, st))"

fun metrics_loop :: "u64 \<Rightarrow> (f64 option \<times> udp_stats) list \<Rightarrow> metrics_state \<Rightarrow> metrics_line list \<times> metrics_state" where
  "metrics_loop interval_secs [] st = ([], st)"
| "metrics_loop interval_secs ((usage, stats) # rest) st =
     (let (l, st1) = metrics_step interval_secs usage stats st; (ls, st2) = metrics_loop interval_secs rest st1
      in (l # ls, st2))"

section \<open>The end\<close>

text \<open>The exit code that the connection task forces on the process, if any.\<close>

definition connection_task :: "unit result \<Rightarrow> nat option" where
  "connection_task run_outcome = (case run_outcome of Inl e \<Rightarrow> Some 1 | Inr _ \<Rightarrow> None)"

text \<open>
  The wait at the end. The events are in the order in which they happen; without a time-out there is no
  timer. The result is the exit code that the connection task forced, or the line before the normal end.
\<close>

datatype stop_event = InterruptSignal | TimerElapsed | ManagerReturned "unit result" | ManagerPanicked

datatype stop_line = SignalReceived | TimerExpired nat | ManagerFinished | ManagerError

fun wait_for_stop :: "nat option \<Rightarrow> stop_event list \<Rightarrow> (nat + stop_line) option" where
  "wait_for_stop timeout [] = None"
| "wait_for_stop timeout (InterruptSignal # es) = Some (Inr SignalReceived)"
| "wait_for_stop timeout (TimerElapsed # es) =
     (case timeout of Some t \<Rightarrow> Some (Inr (TimerExpired t)) | None \<Rightarrow> wait_for_stop timeout es)"
| "wait_for_stop timeout (ManagerReturned r # es) =
     (case connection_task r of Some code \<Rightarrow> Some (Inl code) | None \<Rightarrow> Some (Inr ManagerFinished))"
| "wait_for_stop timeout (ManagerPanicked # es) = Some (Inr ManagerError)"

section \<open>Logging\<close>

text \<open>
  Paths by their components: whether the path is absolute, and its parts, without the empty ones and
  without those that are a single dot, except at the start of a relative path.
\<close>

type_synonym path = "bool \<times> string list"

definition path_of :: "string \<Rightarrow> path" where
  "path_of p =
     (let absolute = starts_with p ''/''; parts = filter (\<lambda>c. c \<noteq> []) (split_on CHR ''/'' p)
      in (absolute, case parts of [] \<Rightarrow> []
            | c # cs \<Rightarrow> (if absolute \<and> c = ''.'' then [] else [c]) @ filter (\<lambda>c. c \<noteq> ''.'') cs))"

definition path_parent :: "path \<Rightarrow> path option" where
  "path_parent p = (if snd p = [] then None else Some (fst p, butlast (snd p)))"

datatype file_call = CreateDirAll path | CreateFile string

record logger =
  lg_filter :: string
  lg_modules :: "(string \<times> string) list"
  lg_target :: "string option" \<comment> \<open>\<open>None\<close> for the standard error stream\<close>

text \<open>\<open>rust_log\<close> is the variable that \<^verbatim>\<open>env_logger\<close> reads; \<open>create\<close> says whether a file can be created.\<close>

definition logger_setup :: "string option \<Rightarrow> (string \<Rightarrow> bool) \<Rightarrow> config \<Rightarrow> file_call list \<times> logger" where
  "logger_setup rust_log create c =
     (let lgr = \<lparr> lg_filter = (case rust_log of Some f \<Rightarrow> f | None \<Rightarrow> lc_level (cf_logging c)), lg_modules = [], lg_target = None \<rparr>;
          lgr = lgr\<lparr>lg_modules := lg_modules lgr @ [(''tokio_tungstenite'', ''info''), (''tungstenite'', ''info'')]\<rparr>
      in case lc_file_path (cf_logging c) of
           Some path \<Rightarrow>
             let dir = (case path_parent (path_of path) of Some d \<Rightarrow> d | None \<Rightarrow> path_of ''.'')
             in ([CreateDirAll dir, CreateFile path], if create path then lgr\<lparr>lg_target := Some path\<rparr> else lgr)
         | None \<Rightarrow> ([], lgr))"

section \<open>The program\<close>

datatype main_line =
    RuntimeThreads "nat option"
  | ZeroTimeout
  | BadTimeout string
  | FeederStarting
  | StopsAfter nat
  | RunsForever
  | ConfigurationLoaded
  | StartReport start_line
  | ComponentsReady
  | ConnectionsStarted
  | ManagerFatal
  | StoppedBy stop_line
  | FeederDone

definition timeout_warning :: "string list \<Rightarrow> main_line list" where
  "timeout_warning args =
     (if 2 \<le> length args then
        (case parse_uint 64 (args ! 1) of
           Some seconds \<Rightarrow> if 0 < seconds then [] else [ZeroTimeout]
         | None \<Rightarrow> [BadTimeout (args ! 1)])
      else [])"

datatype main_error = ConfigFailed crypto_feeder_error | RuntimeFailed string | StartFailed crypto_feeder_error

datatype process_end = MainFailed main_error | ForcedExit nat | Completed

text \<open>What was started: the shared components, the tasks of the connection manager and the metrics task.\<close>

record started =
  sd_feeder :: feeder
  sd_tasks :: "task list"
  sd_metrics :: "u64 option"

definition metrics_task :: "config \<Rightarrow> u64 option" where
  "metrics_task c = (if mc_enabled (cf_metrics c) then Some (metrics_interval (cf_metrics c)) else None)"

text \<open>
  \<^verbatim>\<open>async_main\<close>: the log, what was started, and how it ended, or \<open>None\<close> while nothing of \<open>events\<close> ends it.
\<close>

definition async_main ::
  "(string list \<Rightarrow> string list) \<Rightarrow> os_answers \<Rightarrow> string list \<Rightarrow> config \<Rightarrow> stop_event list
     \<Rightarrow> main_line list \<times> started option \<times> process_end option" where
  "async_main ord os args c events =
     (let timeout_seconds = parse_timeout_arg args;
          begun = timeout_warning args @ [FeederStarting]
            @ [case timeout_seconds of Some t \<Rightarrow> StopsAfter t | None \<Rightarrow> RunsForever] @ [ConfigurationLoaded]
            @ map StartReport (symbol_report ord c) @ map StartReport (endpoint_report ord c)
      in case start_feeder ord os c of
           Inl e \<Rightarrow> (begun, None, Some (MainFailed (StartFailed e)))
         | Inr st \<Rightarrow>
             let begun = begun @ [ComponentsReady];
                 running = \<lparr> sd_feeder = st, sd_tasks = spawned_tasks ord c, sd_metrics = metrics_task c \<rparr>;
                 begun = begun @ [ConnectionsStarted]
             in (case wait_for_stop timeout_seconds events of
                   None \<Rightarrow> (begun, Some running, None)
                 | Some (Inl code) \<Rightarrow> (begun @ [ManagerFatal], Some running, Some (ForcedExit code))
                 | Some (Inr line) \<Rightarrow> (begun @ [StoppedBy line, FeederDone], Some running, Some Completed)))"

text \<open>The world of the program; \<open>me_runtime\<close> gives the error of building a runtime with so many threads.\<close>

record main_env =
  me_config :: config_env
  me_rust_log :: "string option"
  me_create :: "string \<Rightarrow> bool"
  me_runtime :: "nat option \<Rightarrow> string option"
  me_order :: "string list \<Rightarrow> string list"
  me_os :: os_answers

text \<open>A run of the program: the logger and the files it made, the log, what was started and how it ended.\<close>

record main_run =
  mr_logger :: "(file_call list \<times> logger) option"
  mr_lines :: "main_line list"
  mr_started :: "started option"
  mr_end :: "process_end option"

definition feeder_main :: "main_env \<Rightarrow> string list \<Rightarrow> stop_event list \<Rightarrow> main_run" where
  "feeder_main env args events =
     (case load_config (me_config env) of
        Inl e \<Rightarrow> \<lparr> mr_logger = None, mr_lines = [], mr_started = None, mr_end = Some (MainFailed (ConfigFailed e)) \<rparr>
      | Inr c \<Rightarrow>
          let logging_to = Some (logger_setup (me_rust_log env) (me_create env) c);
              threads = worker_threads c
          in case me_runtime env threads of
               Some e \<Rightarrow>
                 \<lparr> mr_logger = logging_to, mr_lines = [RuntimeThreads threads], mr_started = None,
                   mr_end = Some (MainFailed (RuntimeFailed e)) \<rparr>
             | None \<Rightarrow>
                 let (ls, running, r) = async_main (me_order env) (me_os env) args c events
                 in \<lparr> mr_logger = logging_to, mr_lines = RuntimeThreads threads # ls, mr_started = running, mr_end = r \<rparr>)"

end
