(* ===== verification/Tool_Properties.thy ===== *)
theory Tool_Properties
  imports Udp_Counter Feed_Wire
begin

text \<open>
  The two receiving tools: what the decoder reports for any datagram, what its statistics and the
  counts of the counter mean, and that both accept every packet of the builder.
\<close>

section \<open>Receiving\<close>

lemma well_formed_fits:
  assumes "well_formed q p"
  shows "67 \<le> length (u_data p)" "length (u_data p) \<le> 1347"
    "h_message_type (header_read (u_data p)) \<in> {0, 1} \<Longrightarrow>
      67 + 16 * unat (item_count (header_read (u_data p))) \<le> length (u_data p)"
  using assms
  by (auto simp: well_formed_def item_size_def message_types header_from_bytes_def split: if_splits)

lemma decode_well_formed:
  assumes "well_formed q p"
  shows "snd (fst (on_datagram (u_data p) now st)) = Inr ()"
proof -
  have "take 1500 (u_data p) = u_data p" using well_formed_fits(2) [OF assms] by simp
  then show ?thesis
    using well_formed_fits [OF assms]
    by (auto simp: on_datagram_def Let_def decode_packet_result)
qed


text \<open>C14: Every packet that the builder makes from any parsed data is handled by the decoder without an
  error and is counted by the counter tool.\<close>

theorem built_packets_accepted:
  "\<exists>ps s'. build_packets env d s = (Ok ps, s')
     \<and> list_all (\<lambda>p. snd (fst (on_datagram (u_data p) now st)) = Inr ()) ps
     \<and> c_total (counter_loop (map (\<lambda>p. Datagram (u_data p)) ps)) = of_nat (length ps)"
proof -
  obtain ps s' where b: "build_packets env d s = (Ok ps, s')"
      and w: "\<forall>i < length ps. well_formed (pb_sequence_counter s + of_nat i) (ps ! i)"
    using emits_build_packets [of s env d] unfolding emits_def by blast
  have wf: "\<exists>q. well_formed q p" if "p \<in> set ps" for p
    using w that by (auto simp: in_set_conv_nth)
  have "\<forall>p \<in> set ps. 67 \<le> length (u_data p)" using wf well_formed_fits(1) by blast
  then have "c_total (fold counter_step (map (\<lambda>p. Datagram (u_data p)) ps) c) = c_total c + of_nat (length ps)" for c
    by (induction ps arbitrary: c) (simp_all add: Let_def)
  moreover have "list_all (\<lambda>p. snd (fst (on_datagram (u_data p) now st)) = Inr ()) ps"
    using wf decode_well_formed unfolding list_all_iff by blast
  ultimately show ?thesis using b by (simp add: counter_loop_def counter_new_def)
qed

section \<open>Statistics of the decoder\<close>

definition sized_header :: "u8 list \<Rightarrow> packet_header option" where
  "sized_header d = header_from_bytes (take 1500 d)"

definition items_of_type :: "u8 \<Rightarrow> u8 list \<Rightarrow> nat" where
  "items_of_type mt d =
     (case sized_header d of
        Some h \<Rightarrow> if h_message_type h = mt then unat (item_count h) else 0
      | None \<Rightarrow> 0)"

definition has_type :: "u8 \<Rightarrow> u8 list \<Rightarrow> bool" where
  "has_type mt d \<longleftrightarrow> (case sized_header d of Some h \<Rightarrow> h_message_type h = mt | None \<Rightarrow> False)"

lemma stats_decode_packet:
  fixes st :: decoder_state and data :: "u8 list" and now :: nat
  defines "r \<equiv> fst (snd (decode_packet data now st))"
  shows "total_packets r = total_packets (fst st)" "total_bytes r = total_bytes (fst st)"
    "orderbook_packets r = orderbook_packets (fst st)
       + (if 67 \<le> length data \<and> h_message_type (header_read data) = 0 then 1 else 0)"
    "orderbook_items r = orderbook_items (fst st)
       + (if 67 \<le> length data \<and> h_message_type (header_read data) = 0 then ucast (item_count (header_read data)) else 0)"
    "tradetick_packets r = tradetick_packets (fst st)
       + (if 67 \<le> length data \<and> h_message_type (header_read data) = 1 then 1 else 0)"
    "tradetick_items r = tradetick_items (fst st)
       + (if 67 \<le> length data \<and> h_message_type (header_read data) = 1 then ucast (item_count (header_read data)) else 0)"
  unfolding r_def
  by (cases st; simp add: decode_packet_def Let_def split: prod.splits sum.splits if_splits)+

lemma stats_on_datagram:
  fixes st :: decoder_state and d :: "u8 list" and now :: nat
  defines "r \<equiv> fst (snd (on_datagram d now st))"
  shows "total_packets r = total_packets (fst st) + 1"
    "total_bytes r = total_bytes (fst st) + of_nat (min 1500 (length d))"
    "orderbook_packets r = orderbook_packets (fst st) + of_nat (if has_type 0 d then 1 else 0)"
    "orderbook_items r = orderbook_items (fst st) + of_nat (items_of_type 0 d)"
    "tradetick_packets r = tradetick_packets (fst st) + of_nat (if has_type 1 d then 1 else 0)"
    "tradetick_items r = tradetick_items (fst st) + of_nat (items_of_type 1 d)"
  unfolding r_def
  by (simp_all add: on_datagram_def Let_def stats_decode_packet has_type_def items_of_type_def sized_header_def
      header_from_bytes_def min.commute)

text \<open>C15: After any datagrams the statistics of the decoder are the number of datagrams, their bytes as far
  as the buffer keeps them, and for both item types the number of packets and the sum of the item
  counts in their headers, all modulo \<open>2^64\<close>.\<close>

theorem decoder_statistics:
  "fst (receive_loop (map (\<lambda>(d, t). Received d t) ds) (stats_new, m)) =
     \<lparr> total_packets = of_nat (length ds),
       total_bytes = of_nat (sum_list (map (\<lambda>(d, t). min 1500 (length d)) ds)),
       orderbook_packets = of_nat (length (filter (\<lambda>(d, t). has_type 0 d) ds)),
       tradetick_packets = of_nat (length (filter (\<lambda>(d, t). has_type 1 d) ds)),
       orderbook_items = of_nat (sum_list (map (\<lambda>(d, t). items_of_type 0 d) ds)),
       tradetick_items = of_nat (sum_list (map (\<lambda>(d, t). items_of_type 1 d) ds)) \<rparr>"
proof -
  have "fst (receive_loop (map (\<lambda>(d, t). Received d t) ds) st) =
     \<lparr> total_packets = total_packets (fst st) + of_nat (length ds),
       total_bytes = total_bytes (fst st) + of_nat (sum_list (map (\<lambda>(d, t). min 1500 (length d)) ds)),
       orderbook_packets = orderbook_packets (fst st) + of_nat (length (filter (\<lambda>(d, t). has_type 0 d) ds)),
       tradetick_packets = tradetick_packets (fst st) + of_nat (length (filter (\<lambda>(d, t). has_type 1 d) ds)),
       orderbook_items = orderbook_items (fst st) + of_nat (sum_list (map (\<lambda>(d, t). items_of_type 0 d) ds)),
       tradetick_items = tradetick_items (fst st) + of_nat (sum_list (map (\<lambda>(d, t). items_of_type 1 d) ds)) \<rparr>"
    for st :: decoder_state
  proof (induction ds arbitrary: st)
    case (Cons x ds)
    obtain d t where x: "x = (d, t)" by (cases x)
    show ?case using Cons.IH [of "snd (on_datagram d t st)"]
      by (simp add: x stats_on_datagram)
  qed simp
  then show ?thesis by (simp add: stats_new_def)
qed

section \<open>The counter\<close>

lemma counter_step_eq:
  "count_of mt (counter_step (Datagram d) c) = count_of mt c + of_nat (if has_type mt d then 1 else 0)"
  "c_total (counter_step (Datagram d) c) = c_total c + of_nat (if 67 \<le> length d then 1 else 0)"
  by (auto simp: count_of_def has_type_def sized_header_def header_from_bytes_def Let_def)

lemma counter_loop_counts:
  "count_of mt (counter_loop (map Datagram ds)) = of_nat (length (filter (has_type mt) ds))"
  "c_total (counter_loop (map Datagram ds)) = of_nat (length (filter (\<lambda>d. 67 \<le> length d) ds))"
proof -
  have "count_of mt (fold counter_step (map Datagram ds) c) = count_of mt c + of_nat (length (filter (has_type mt) ds))"
    "c_total (fold counter_step (map Datagram ds) c) = c_total c + of_nat (length (filter (\<lambda>d. 67 \<le> length d) ds))" for c
    by (induction ds arbitrary: c) (simp_all add: counter_step_eq del: counter_step.simps)
  then show "count_of mt (counter_loop (map Datagram ds)) = of_nat (length (filter (has_type mt) ds))"
    "c_total (counter_loop (map Datagram ds)) = of_nat (length (filter (\<lambda>d. 67 \<le> length d) ds))"
    by (simp_all add: counter_loop_def counter_new_def count_of_def)
qed

definition counted_elsewhere :: "u8 list \<Rightarrow> bool" where
  "counted_elsewhere d \<longleftrightarrow> 67 \<le> length d \<and> \<not> has_type 0 d \<and> \<not> has_type 1 d \<and> \<not> has_type 101 d"

lemma of_nat_u64_mono: "a \<le> b \<Longrightarrow> b < 2 ^ 64 \<Longrightarrow> (of_nat a :: u64) \<le> of_nat b"
  by (simp add: word_le_nat_alt unat_of_nat_small)

lemma partition_counts:
  "length (filter (\<lambda>d. 67 \<le> length d) ds) = length (filter counted_elsewhere ds)
     + (length (filter (has_type 0) ds) + length (filter (has_type 1) ds) + length (filter (has_type 101) ds))"
  by (induction ds) (auto simp: counted_elsewhere_def has_type_def sized_header_def header_from_bytes_def)

text \<open>For fewer than \<open>2^64\<close> datagrams, the counter's count for a message type is the number of datagrams
  with a header of this type, and the line of other types is the number of the remaining datagrams with
  a header: order books, trades and connection events are excluded, nothing is counted twice.\<close>

theorem counter_totals:
  assumes "length ds < 2 ^ 64"
  shows "unat (count_of mt (counter_loop (map Datagram ds))) = length (filter (has_type mt) ds)
     \<and> unat (other_total (counter_loop (map Datagram ds))) = length (filter counted_elsewhere ds)"
proof -
  have le: "length (filter P ds) < 2 ^ 64" for P :: "u8 list \<Rightarrow> bool"
    using assms length_filter_le [of P ds] by linarith
  let ?a = "length (filter (has_type 0) ds) + length (filter (has_type 1) ds) + length (filter (has_type 101) ds)"
  let ?t = "length (filter (\<lambda>d. 67 \<le> length d) ds)"
  have sum: "?t = length (filter counted_elsewhere ds) + ?a" by (rule partition_counts)
  have other: "other_total (counter_loop (map Datagram ds)) =
      (if of_nat ?a \<le> (of_nat ?t :: u64) then of_nat ?t - of_nat ?a else 0)"
    by (simp add: other_total_def excluded_def saturating_sub_def counter_loop_counts)
  have "?a \<le> ?t" unfolding sum by (rule le_add2)
  then have "(of_nat ?a :: u64) \<le> of_nat ?t" by (rule of_nat_u64_mono) (rule le)
  moreover have "(of_nat ?t :: u64) - of_nat ?a = of_nat (length (filter counted_elsewhere ds))"
    unfolding sum by simp
  ultimately show ?thesis using le by (simp add: other counter_loop_counts unat_of_nat_small)
qed

definition sample_datagram :: "u8 \<Rightarrow> u8 list" where
  "sample_datagram mt = header_to_bytes (set_packet_info mt 0 True header_new)"

theorem counter_totals_witness:
  "unat (count_of 101 (counter_loop (map Datagram [sample_datagram 101, sample_datagram 3]))) =
     length (filter (has_type 101) [sample_datagram 101, sample_datagram 3])"
  using counter_totals [of "[sample_datagram 101, sample_datagram 3]" 101] by simp

text \<open>C39: Whatever is received until the deadline, the counts that the counter tool prints for the message types
  add up to the printed total, modulo \<open>2^64\<close>; the types are listed in rising order, each once, and only those
  that were received.\<close>

theorem counter_report_adds_up:
  "cr_total (counter_summary (counter_until deadline rs counter_new)) =
     sum_list (map snd (cr_counts (counter_summary (counter_until deadline rs counter_new))))
   \<and> sorted_wrt (<) (map fst (cr_counts (counter_summary (counter_until deadline rs counter_new))))
   \<and> list_all (\<lambda>(k, n). c_counts (counter_until deadline rs counter_new) k = Some n)
       (cr_counts (counter_summary (counter_until deadline rs counter_new)))"
proof -
  let ?c = "counter_until deadline rs counter_new"
  have "balanced ?c" by (rule balanced_until [OF balanced_new])
  then have "cr_total (counter_summary ?c) = sum_list (map snd (cr_counts (counter_summary ?c)))"
    unfolding summary_counts by (simp add: balanced_def counter_summary_def)
  moreover have "sorted_wrt (<) (map fst (cr_counts (counter_summary ?c)))"
    by (simp add: counter_summary_def comp_def counted_types_def sorted_wrt_filter all_types_sorted)
  moreover have "list_all (\<lambda>(k, n). c_counts ?c k = Some n) (cr_counts (counter_summary ?c))"
    by (auto simp: counter_summary_def counted_types_def list_all_iff count_of_def)
  ultimately show ?thesis by simp
qed

end
