(* ===== verification/Event_Properties.thy ===== *)
theory Event_Properties
  imports Feed_Wire
begin

text \<open>
  System events on the wire, the exchange identifiers they use, and the payload pool of the builder.
\<close>

section \<open>Events\<close>

text \<open>How a receiver reads the sixteen bytes after the header, by message type.\<close>

definition read_event :: "u8 \<Rightarrow> u8 list \<Rightarrow> system_event option" where
  "read_event mt bs =
     (if mt = MESSAGE_TYPE_SYSTEM_HEARTBEAT then Some (Heartbeat (heartbeat_read bs))
      else if mt = MESSAGE_TYPE_CONNECTION_STATUS then Some (ConnectionStatus (connection_status_read bs))
      else if mt = MESSAGE_TYPE_SUBSCRIPTION_STATUS then Some (SubscriptionStatus (subscription_status_read bs))
      else if mt = MESSAGE_TYPE_SYSTEM_STATS then Some (SystemStats (system_stats_read bs))
      else if mt = MESSAGE_TYPE_ERROR_EVENT then Some (ErrorEvent (error_event_read bs))
      else None)"

lemma read_event_payload: "event_valid e \<Longrightarrow> read_event (get_message_type e) (get_payload_bytes e) = Some e"
  using heartbeat_codec.dec_enc [of _ "[]"] connection_status_codec.dec_enc [of _ "[]"]
    subscription_status_codec.dec_enc [of _ "[]"] system_stats_codec.dec_enc [of _ "[]"] error_event_codec.dec_enc [of _ "[]"]
  by (cases e) (simp_all add: read_event_def event_types)

text \<open>C16: A system event makes exactly one packet of 83 bytes, marked as the last, with one item; the names
  and the type in the header are those of the event and the given exchange, both timestamps are one
  reading of the clock, and a receiver reads the whole event back from the payload.\<close>

theorem event_packet_roundtrip:
  assumes "event_valid e"
  shows "\<exists>p s'. build_event_packet_with_exchange env e display s = (Ok p, s')
     \<and> pb_sequence_counter s' = pb_sequence_counter s + 1
     \<and> u_size p = 83 \<and> length (u_data p) = 83 \<and> frames [p] = [(True, 1)]
     \<and> labels p = (take 19 (filter name_char (get_symbol e)), take 19 (filter name_char display),
         get_message_type e, nanos_at env (pb_clock_reads s))
     \<and> h_local_timestamp (header_read (u_data p)) = nanos_at env (pb_clock_reads s)
     \<and> read_event (get_message_type e) (drop 67 (u_data p)) = Some e"
proof -
  let ?h = "spec_header env (get_symbol e) display (get_message_type e)
          (nanos_at env (pb_clock_reads s)) (pb_sequence_counter s) (pb_clock_reads s)"
  obtain s' where b: "build_event_packet_with_exchange env e display s =
      (Ok (flat_packet (counted True [()] ?h) [get_payload_bytes e]), s')" "advanced 1 s s'"
    using build_event_eq [OF assms] by blast
  have "length (u_data (flat_packet (counted True [()] ?h) [get_payload_bytes e])) = 83"
    using assms by (simp add: length_flat_packet)
  then show ?thesis
    using b assms by (simp add: frames_single labels_single read_event_payload advanced_def)
qed

theorem event_packet_roundtrip_witness:
  "\<exists>p s'. build_event_packet_with_exchange
        \<lparr> clk = (\<lambda>n. int n), ts_order = (\<lambda>_ ks. ks), key_order = (\<lambda>_ ks. ks) \<rparr>
        (SubscriptionStatus (subscription_status_new 1 2 3 ''BTC^USDT'')) ''BinanceSpot'' packet_builder_new = (Ok p, s')
     \<and> length (u_data p) = 83"
proof -
  have "event_valid (SubscriptionStatus (subscription_status_new 1 2 3 ''BTC^USDT''))" by simp
  from event_packet_roundtrip [OF this,
      of "\<lparr> clk = (\<lambda>n. int n), ts_order = (\<lambda>_ ks. ks), key_order = (\<lambda>_ ks. ks) \<rparr>" "''BinanceSpot''" packet_builder_new]
  show ?thesis by blast
qed

text \<open>The names of exchange identifiers read back: the identifiers 1 to 6 name exchanges whose name
  gives the identifier again, in any mixture of cases, and every other identifier is shown as unknown,
  whose identifier is 0.\<close>

theorem exchange_id_roundtrip:
  "exchange_name_to_id (to_uppercase (exchange_of_id i)) = (if i \<in> {1, 2, 3, 4, 5, 6} then i else 0)
     \<and> exchange_name_to_id (exchange_of_id i) = (if i \<in> {1, 2, 3, 4, 5, 6} then i else 0)"
proof -
  have "exchange_name_to_id (to_uppercase n) = i \<and> exchange_name_to_id n = i"
    if "(n, i) \<in> {(''binance'', 1), (''okx'', 2), (''bybit'', 3), (''upbit'', 4), (''bithumb'', 5), (''coinbase'', 6),
      (''unknown'', 0)}" for n and i :: u16
    using that
    by (auto simp: exchange_name_to_id_def exchange_ids to_lowercase_def to_uppercase_def ascii_lower_def ascii_upper_def
        code_of_def char_of_eq_iff)
  then show ?thesis by (simp add: exchange_of_id_def exchange_ids)
qed

section \<open>The payload pool\<close>

lemma acquire_buffer_pool: "pp_queue (snd (acquire_buffer n p)) = tl (pp_queue p)"
  by (simp add: acquire_buffer_def Let_def split: list.splits)

lemma try_collect_pool:
  assumes "\<And>x s. pp_queue (pb_payload_pool (snd (body x s))) = tl (pp_queue (pb_payload_pool s))"
    and "try_collect body xs s = (Inr ys, s')"
  shows "pp_queue (pb_payload_pool s') = drop (length ys) (pp_queue (pb_payload_pool s))"
  using assms(2)
proof (induction xs arbitrary: s ys)
  case (Cons x xs)
  obtain y s1 zs where "body x s = (Inr y, s1)" "try_collect body xs s1 = (Inr zs, s')" "ys = y # zs"
    using Cons.prems by (auto split: prod.splits sum.splits)
  then show ?case using Cons.IH [of s1 zs] assms(1) [of x s] by (simp add: drop_Suc)
qed simp

text \<open>C17: Every packet of an order book takes a buffer out of the payload pool, as long as there is one, and
  none is ever put back: after as many packets as the pool had buffers, every packet allocates.\<close>

theorem order_book_drains_pool:
  "\<exists>ps s'. build_order_book_packets env ob s = (Ok ps, s')
     \<and> pp_queue (pb_payload_pool s') = drop (length ps) (pp_queue (pb_payload_pool s))"
proof -
  obtain ps s' where b: "build_order_book_packets env ob s = (Ok ps, s')"
    using emits_order_book [of s env ob] unfolding emits_def by blast
  have "pp_queue (pb_payload_pool s') = drop (length ps) (pp_queue (pb_payload_pool s))"
  proof (cases "all_book_items ob = []")
    case True
    then show ?thesis using b by (simp add: build_order_book_Nil)
  next
    case False
    show ?thesis
      using False b [unfolded build_order_book_packets_def Let_def all_book_items_def [symmetric]]
      unfolding if_not_P [OF False]
      by (elim try_collect_pool [rotated])
        (simp add: case_prod_unfold setup_header_eq acquire_buffer_pool)
  qed
  then show ?thesis using b by blast
qed

end
