(* ===== verification/Parser_Properties.thy ===== *)
theory Parser_Properties
  imports Data_Parser Feed_Wire
begin

text \<open>
  The parser: which exchange name its data carries, which inputs it accepts, how symbols are
  normalised, when it panics, and the packets that a mark price update becomes.
\<close>

section \<open>Exchange names\<close>

fun exchange_of :: "parsed_data \<Rightarrow> string" where
  "exchange_of (Trade t) = t_exchange t"
| "exchange_of (TradeBatch b) = tb_exchange b"
| "exchange_of (OrderBook ob) = o_exchange ob"
| "exchange_of (IndexPrice _ ex _ _) = ex"
| "exchange_of (MarkPrice _ ex _ _) = ex"
| "exchange_of (FundingRate _ ex _ _) = ex"
| "exchange_of (Liquidation _ ex _ _ _ _) = ex"
| "exchange_of (Multi _) = []"

text \<open>The data in the order in which it is sent.\<close>

fun flat_data :: "parsed_data \<Rightarrow> parsed_data list" where
  "flat_data (Multi items) = concat (map flat_data items)"
| "flat_data d = [d]"

lemma flat_set_exchange: "x \<in> set (flat_data (set_exchange_of ex d)) \<Longrightarrow> exchange_of x = ex"
  by (cases d) auto

lemma flat_adjust: "list_all (\<lambda>x. exchange_of x = ex) (flat_data (adjust_exchange ex d))"
  using flat_set_exchange by (cases d) (auto simp: list_all_iff)

text \<open>C20: Whatever a message says, everything parsed from it carries the name of the exchange whose session
  received it, and only for exchanges that have a parser anything is parsed.\<close>

theorem parsed_exchange:
  assumes "parse_message from_slice debug now p exchange data = Some (Ok d)"
  shows "exchange \<in> fst ` set (dp_parsers p) \<and> list_all (\<lambda>x. exchange_of x = exchange) (flat_data d)"
  using assms flat_adjust [of exchange]
  by (auto simp: parse_message_def map_of_eq_None_iff split: option.splits dest!: map_of_SomeD intro!: rev_image_eqI)

definition sample_mark_price :: json where
  "sample_mark_price = JObject [(''stream'', JString ''btcusdt@markPrice@1s''), (''data'', JObject
     [(''e'', JString ''markPriceUpdate''), (''E'', JNumber (PosInt 1700000000000)), (''s'', JString ''BTCUSDT''),
      (''p'', JString ''42000''), (''i'', JString ''42001''), (''r'', JString ''1'')])]"

lemma parse_sample:
  "parse_binance_message (\<lambda>_. Some sample_mark_price) [] = Ok (Multi
     [IndexPrice ''BTC^USDT'' ''BinanceFutures'' (f64_of_int 42001) 1700000000000000000,
      MarkPrice ''BTC^USDT'' ''BinanceFutures'' (f64_of_int 42000) 1700000000000000000,
      FundingRate ''BTC^USDT'' ''BinanceFutures'' (f64_of_int 1) 1700000000000000000])"
proof -
  have "parse_f64 ''42000'' = Some (f64_of_int 42000)" "parse_f64 ''42001'' = Some (f64_of_int 42001)"
    "parse_f64 ''1'' = Some (f64_of_int 1)"
    by (simp_all add: parse_eval f64_eval)
  moreover have "normalize_binance_symbol ''BTCUSDT'' = ''BTC^USDT''" by code_simp
  moreover have "normalize_exchange_name ''binance'' ''futures'' = ''BinanceFutures''" by code_simp
  ultimately show ?thesis
    by (simp add: parse_binance_message_def sample_mark_price_def event_object_def parse_binance_event_def
        get_str_def parse_mark_price_def parse_price_def event_time_nanos_def millis_to_nanos_def Let_def)
qed

definition sample_parser :: data_parser where
  "sample_parser = \<lparr> dp_parsers = [(''binance'', BinanceParser), (''BinanceFutures'', BinanceParser)] \<rparr>"

theorem parsed_exchange_witness:
  "\<exists>d. parse_message (\<lambda>_. Some sample_mark_price) False 0 sample_parser ''binance'' [] = Some (Ok d)
     \<and> length (flat_data d) = 3 \<and> list_all (\<lambda>x. exchange_of x = ''binance'') (flat_data d)"
proof -
  let ?d = "Multi
     [IndexPrice ''BTC^USDT'' ''binance'' (f64_of_int 42001) 1700000000000000000,
      MarkPrice ''BTC^USDT'' ''binance'' (f64_of_int 42000) 1700000000000000000,
      FundingRate ''BTC^USDT'' ''binance'' (f64_of_int 1) 1700000000000000000]"
  have d: "parse_message (\<lambda>_. Some sample_mark_price) False 0 sample_parser ''binance'' [] = Some (Ok ?d)"
    by (simp add: parse_message_def sample_parser_def parse_sample)
  moreover have "length (flat_data ?d) = 3" by simp
  ultimately show ?thesis using parsed_exchange [OF d] by blast
qed

section \<open>Depth updates\<close>

lemma convert_levels_iff:
  "convert_levels what ls = Ok ys \<longleftrightarrow>
     map Some ys = map (\<lambda>(p, q). Option.bind (parse_f64 p) (\<lambda>price. map_option (\<lambda>quantity.
       \<lparr> l_price = price, l_quantity = quantity \<rparr>) (parse_f64 q))) ls"
proof (induction ls arbitrary: ys)
  case (Cons l ls)
  obtain p q where l: "l = (p, q)" by (cases l)
  show ?case
    using Cons.IH
    by (cases ys; cases "parse_f64 p"; cases "parse_f64 q") (auto simp: l parse_price_def)
qed auto

text \<open>C21: A depth update is converted exactly when all its prices and quantities are floating point texts;
  then every level is kept in order with the values of its texts, the symbol is normalised and the time
  is turned from milliseconds into nanoseconds.\<close>

theorem depth_conversion:
  "convert_binance_depth_update u = Ok ob \<longleftrightarrow>
     (let level = (\<lambda>(p, q). Option.bind (parse_f64 p) (\<lambda>price. map_option (\<lambda>quantity.
                     \<lparr> l_price = price, l_quantity = quantity \<rparr>) (parse_f64 q)))
      in map Some (o_bids ob) = map level (bd_bids u) \<and> map Some (o_asks ob) = map level (bd_asks u)
         \<and> o_symbol ob = normalize_binance_symbol (bd_symbol u) \<and> o_exchange ob = ''BinanceSpot''
         \<and> o_timestamp ob = bd_event_time u * 1000000)"
proof -
  have ex: "normalize_exchange_name ''binance'' ''spot'' = ''BinanceSpot''" by code_simp
  show ?thesis
    unfolding convert_binance_depth_update_def and_then_Inr_iff convert_levels_iff Let_def ex millis_to_nanos_def
    by (cases ob) auto
qed

section \<open>Symbols\<close>

text \<open>The quote currencies that are recognised.\<close>

definition quotes :: "string list" where
  "quotes = [''USDT'', ''USDC'', ''BUSD'', ''BTC'', ''ETH'', ''BNB'']"

lemma ends_with_append [simp]: "ends_with (b @ q) q"
  by (simp add: ends_with_def suffix_def)

lemma ends_with_take: "ends_with s q \<Longrightarrow> take (length s - length q) s @ q = s"
  by (auto simp: ends_with_def suffix_def)

lemma upper_caret: "ascii_upper c = CHR ''^'' \<longleftrightarrow> c = CHR ''^''"
proof -
  have "code_of (ascii_upper c) = 94 \<longleftrightarrow> code_of c = 94"
    by (auto simp: ascii_upper_def code_of_def)
  moreover have "code_of CHR ''^'' = 94" by (simp add: code_of_def)
  ultimately show ?thesis by (metis code_of_inj)
qed

lemma lower_upper: "ascii_lower (ascii_upper c) = ascii_lower c"
  by (auto simp: ascii_lower_def ascii_upper_def code_of_def Let_def)

lemma normalize_find:
  "normalize_binance_symbol s =
     (case find (ends_with (to_uppercase s)) quotes of
        None \<Rightarrow> s
      | Some q \<Rightarrow> take (length (to_uppercase s) - length q) (to_uppercase s) @ ''^'' @ q)"
  by (simp add: normalize_binance_symbol_def Let_def quotes_def eval_nat_numeral)

lemma normalize_split:
  "normalize_binance_symbol s = s \<or>
   (\<exists>q \<in> set quotes. \<exists>b. to_uppercase s = b @ q \<and> normalize_binance_symbol s = b @ ''^'' @ q)"
proof (cases "find (ends_with (to_uppercase s)) quotes")
  case None
  then show ?thesis by (simp add: normalize_find)
next
  case (Some q)
  then have q: "q \<in> set quotes" "ends_with (to_uppercase s) q" by (auto simp: find_Some_iff)
  have "to_uppercase s = take (length (to_uppercase s) - length q) (to_uppercase s) @ q"
    using ends_with_take [OF q(2)] by simp
  then show ?thesis using q(1) Some unfolding normalize_find by (metis option.case(2))
qed

text \<open>No quote currency is the end of another one: their last three characters differ.\<close>

lemma ends_with_last3: "ends_with s q \<Longrightarrow> 3 \<le> length q \<Longrightarrow> drop (length s - 3) s = drop (length q - 3) q"
  by (auto simp: ends_with_def suffix_def)

lemma quotes_last3: "distinct (map (\<lambda>q. drop (length q - 3) q) quotes)" "list_all (\<lambda>q. 3 \<le> length q) quotes"
  by code_simp+

lemma ends_with_quote:
  assumes "q \<in> set quotes" "q' \<in> set quotes" "ends_with (b @ q) q'"
  shows "q' = q"
proof -
  have len: "3 \<le> length q" "3 \<le> length q'" using quotes_last3(2) assms(1,2) by (simp_all add: list_all_iff)
  have "drop (length q - 3) q = drop (length q' - 3) q'"
    using ends_with_last3 [OF ends_with_append [of b q] len(1)] ends_with_last3 [OF assms(3) len(2)] by simp
  then show ?thesis using quotes_last3(1) assms(1,2) by (auto simp: distinct_map dest: inj_onD)
qed

lemma normalize_quote:
  assumes "q \<in> set quotes" "to_uppercase s = b @ q"
  shows "normalize_binance_symbol s = b @ ''^'' @ q"
proof -
  have "find (ends_with (b @ q)) quotes = Some q"
  proof (cases "find (ends_with (b @ q)) quotes")
    case None
    then show ?thesis using assms(1) ends_with_append [of b q] by (auto simp: find_None_iff)
  next
    case (Some q')
    then show ?thesis using ends_with_quote [OF assms(1), of q' b] by (auto simp: find_Some_iff)
  qed
  then show ?thesis by (simp add: normalize_find assms(2))
qed



text \<open>A pair of a base, in any case, and a recognised quote currency is normalised to the upper-case base,
  a caret and the quote.\<close>

theorem normalized_pair:
  "list_all (\<lambda>q. normalize_binance_symbol (b @ q) = to_uppercase b @ ''^'' @ q
      \<and> normalize_binance_symbol (b @ to_lowercase q) = to_uppercase b @ ''^'' @ q) quotes"
proof -
  have up: "to_uppercase (b @ q) = to_uppercase b @ q \<and> to_uppercase (b @ to_lowercase q) = to_uppercase b @ q"
    if "q \<in> set quotes" for q
    using that by (auto simp: quotes_def to_uppercase_def to_lowercase_def ascii_upper_def ascii_lower_def code_of_def char_of_eq_iff)
  then have "normalize_binance_symbol (b @ q) = to_uppercase b @ ''^'' @ q
      \<and> normalize_binance_symbol (b @ to_lowercase q) = to_uppercase b @ ''^'' @ q" if "q \<in> set quotes" for q
    using that normalize_quote by blast
  then show ?thesis by (simp add: list_all_iff)
qed

section \<open>Panics\<close>

text \<open>Parsing a message panics exactly when the exchange has the default parser and either the clock is
  before 1970 or debug messages are enabled and byte 100 of the text is inside a character. The
  Binance parser never panics, on any bytes.\<close>

theorem parser_panics:
  "parse_message from_slice debug now p exchange data = None \<longleftrightarrow>
     map_of (dp_parsers p) exchange = Some DefaultParser \<and>
       (now < 0 \<or> debug \<and> \<not> is_char_boundary (from_utf8_lossy data) (min 100 (length (from_utf8_lossy data))))"
  by (auto simp: parse_message_def parse_default_message_def Let_def split: option.splits parser_fn.splits)

section \<open>Mark price messages\<close>

lemma single_built:
  assumes "mt \<in> {MESSAGE_TYPE_INDEX_PRICE, MESSAGE_TYPE_MARK_PRICE, MESSAGE_TYPE_FUNDING_RATE}"
  shows "\<exists>p s'. single_packet (build_single_value_packet env symbol exchange mt ts v s) = (Ok [p], s')
     \<and> frames [p] = [(True, 1)]
     \<and> labels p = (take 19 (filter name_char symbol), take 19 (filter name_char exchange), mt, ts)
     \<and> of_le_bytes (take 8 (drop 67 (u_data p))) = v
     \<and> h_sequence_number (header_read (u_data p)) = pb_sequence_counter s
     \<and> pb_sequence_counter s' = pb_sequence_counter s + 1"
  using build_single_value_eq [OF assms, of env symbol exchange ts v s]
  by (auto simp: frames_single labels_single advanced_def)

lemma try_extend_Cons:
  "f x s = (Ok ps, s1) \<Longrightarrow> try_extend f xs s1 = (Ok qs, s2) \<Longrightarrow> try_extend f (x # xs) s = (Ok (ps @ qs), s2)"
  by (auto simp: try_extend_def split: prod.splits sum.splits)

lemma try_extend_Nil [simp]: "try_extend f [] s = (Ok [], s)"
  by (simp add: try_extend_def)

definition value_of :: "udp_packet \<Rightarrow> i64" where
  "value_of p = of_le_bytes (take 8 (drop 67 (u_data p)))"

definition mark_price_data :: "string \<Rightarrow> f64 \<Rightarrow> f64 \<Rightarrow> f64 \<Rightarrow> u64 \<Rightarrow> parsed_data" where
  "mark_price_data symb i m f ts = Multi [IndexPrice symb ''BinanceFutures'' i ts,
     MarkPrice symb ''BinanceFutures'' m ts, FundingRate symb ''BinanceFutures'' f ts]"

lemma mark_price_parsed:
  assumes "parse_binance_event event = Ok d" "get_str event ''e'' = Some ''markPriceUpdate''"
  obtains symb i m f where
    "d = mark_price_data (normalize_binance_symbol symb) i m f (event_time_nanos event)"
    "get_str event ''s'' = Some symb" "Option.bind (get_str event ''i'') parse_f64 = Some i"
    "Option.bind (get_str event ''p'') parse_f64 = Some m" "Option.bind (get_str event ''r'') parse_f64 = Some f"
proof -
  have "normalize_exchange_name ''binance'' ''futures'' = ''BinanceFutures''" by code_simp
  moreover have "parse_mark_price event = Ok d" using assms by (simp add: parse_binance_event_def)
  ultimately show ?thesis using that by (auto simp: parse_mark_price_def parse_price_def Let_def mark_price_data_def)
qed

text \<open>C37: A mark price message becomes three packets with consecutive numbers: index price, mark price and
  funding rate, with the texts of the fields \<^verbatim>\<open>i\<close>, \<^verbatim>\<open>p\<close> and \<^verbatim>\<open>r\<close> scaled. Every one of the three is marked
  as the last packet of its message.\<close>

theorem mark_price_packets:
  assumes "parse_binance_event event = Ok d" "get_str event ''e'' = Some ''markPriceUpdate''"
  shows "\<exists>ps s' i m f. build_packets env (adjust_exchange ex d) s = (Ok ps, s')
     \<and> Option.bind (get_str event ''i'') parse_f64 = Some i \<and> Option.bind (get_str event ''p'') parse_f64 = Some m
     \<and> Option.bind (get_str event ''r'') parse_f64 = Some f
     \<and> map value_of ps = map (scaled_by PRICE_SCALE) [i, m, f]
     \<and> frames ps = [(True, 1), (True, 1), (True, 1)]
     \<and> map (\<lambda>p. h_message_type (header_read (u_data p))) ps = [2, 3, 4]
     \<and> map (\<lambda>p. h_sequence_number (header_read (u_data p))) ps =
         [pb_sequence_counter s, pb_sequence_counter s + 1, pb_sequence_counter s + 2]"
proof -
  obtain sy i m f where d: "d = mark_price_data (normalize_binance_symbol sy) i m f (event_time_nanos event)"
    and vals: "Option.bind (get_str event ''i'') parse_f64 = Some i" "Option.bind (get_str event ''p'') parse_f64 = Some m"
      "Option.bind (get_str event ''r'') parse_f64 = Some f"
    using mark_price_parsed [OF assms] by metis
  define symb where "symb = normalize_binance_symbol sy"
  define ts where "ts = event_time_nanos event"
  let ?b = "\<lambda>mt v s. single_packet (build_single_value_packet env symb ex mt ts (scaled_by PRICE_SCALE v) s)"
  obtain p1 s1 where 1: "?b MESSAGE_TYPE_INDEX_PRICE i s = (Ok [p1], s1)" "frames [p1] = [(True, 1)]"
      "labels p1 = (take 19 (filter name_char symb), take 19 (filter name_char ex), MESSAGE_TYPE_INDEX_PRICE, ts)"
      "value_of p1 = scaled_by PRICE_SCALE i" "h_sequence_number (header_read (u_data p1)) = pb_sequence_counter s"
      "pb_sequence_counter s1 = pb_sequence_counter s + 1"
    using single_built [of MESSAGE_TYPE_INDEX_PRICE env symb ex ts "scaled_by PRICE_SCALE i" s] by (auto simp: value_of_def)
  obtain p2 s2 where 2: "?b MESSAGE_TYPE_MARK_PRICE m s1 = (Ok [p2], s2)" "frames [p2] = [(True, 1)]"
      "labels p2 = (take 19 (filter name_char symb), take 19 (filter name_char ex), MESSAGE_TYPE_MARK_PRICE, ts)"
      "value_of p2 = scaled_by PRICE_SCALE m" "h_sequence_number (header_read (u_data p2)) = pb_sequence_counter s1"
      "pb_sequence_counter s2 = pb_sequence_counter s1 + 1"
    using single_built [of MESSAGE_TYPE_MARK_PRICE env symb ex ts "scaled_by PRICE_SCALE m" s1] by (auto simp: value_of_def)
  obtain p3 s3 where 3: "?b MESSAGE_TYPE_FUNDING_RATE f s2 = (Ok [p3], s3)" "frames [p3] = [(True, 1)]"
      "labels p3 = (take 19 (filter name_char symb), take 19 (filter name_char ex), MESSAGE_TYPE_FUNDING_RATE, ts)"
      "value_of p3 = scaled_by PRICE_SCALE f" "h_sequence_number (header_read (u_data p3)) = pb_sequence_counter s2"
      "pb_sequence_counter s3 = pb_sequence_counter s2 + 1"
    using single_built [of MESSAGE_TYPE_FUNDING_RATE env symb ex ts "scaled_by PRICE_SCALE f" s2] by (auto simp: value_of_def)
  have "build_packets env (adjust_exchange ex d) s = (Ok ([p1] @ [p2] @ [p3] @ []), s3)"
    unfolding d mark_price_data_def symb_def [symmetric] ts_def [symmetric] adjust_exchange.simps build_packets.simps list.map set_exchange_of.simps
    by (rule try_extend_Cons [where ?s1.0 = s1, OF _ try_extend_Cons [where ?s1.0 = s2, OF _ try_extend_Cons [OF _ try_extend_Nil]]])
      (simp_all add: 1(1) 2(1) 3(1) Let_def)
  moreover have "h_message_type (header_read (u_data p)) = mt" if "labels p = (a, b, mt, c)" for p a b mt c
    using that by (simp add: labels_def Let_def)
  ultimately show ?thesis
    using 1 2 3 vals
    by (intro exI [of _ "[p1, p2, p3]"] exI [of _ s3] exI [of _ i] exI [of _ m] exI [of _ f])
      (simp add: frames_def message_types)
qed

theorem mark_price_packets_witness:
  "\<exists>ps s'. build_packets \<lparr> clk = (\<lambda>n. int n), ts_order = (\<lambda>_ ks. ks), key_order = (\<lambda>_ ks. ks) \<rparr>
       (Multi [IndexPrice ''BTC^USDT'' ''BinanceFutures'' (f64_of_int 42001) 1700000000000000000,
               MarkPrice ''BTC^USDT'' ''BinanceFutures'' (f64_of_int 42000) 1700000000000000000,
               FundingRate ''BTC^USDT'' ''BinanceFutures'' (f64_of_int 1) 1700000000000000000]) packet_builder_new = (Ok ps, s')
     \<and> frames ps = [(True, 1), (True, 1), (True, 1)]"
proof -
  have e: "parse_binance_event (event_object sample_mark_price) = Ok (Multi
     [IndexPrice ''BTC^USDT'' ''BinanceFutures'' (f64_of_int 42001) 1700000000000000000,
      MarkPrice ''BTC^USDT'' ''BinanceFutures'' (f64_of_int 42000) 1700000000000000000,
      FundingRate ''BTC^USDT'' ''BinanceFutures'' (f64_of_int 1) 1700000000000000000])"
    using parse_sample by (simp add: parse_binance_message_def)
  have t: "get_str (event_object sample_mark_price) ''e'' = Some ''markPriceUpdate''"
    by (simp add: get_str_def event_object_def sample_mark_price_def)
  show ?thesis
    using mark_price_packets [OF e t, of "\<lparr> clk = (\<lambda>n. int n), ts_order = (\<lambda>_ ks. ks), key_order = (\<lambda>_ ks. ks) \<rparr>"
        "''BinanceFutures''" packet_builder_new] by auto
qed

end
