(* ===== verification/Udp_Properties.thy ===== *)
theory Udp_Properties
  imports Udp_Multicaster "HOL-Library.Sublist"
begin

text \<open>
  What sending does to the wire, the statistics and the cached sockets.
\<close>

section \<open>One send\<close>

definition whole_datagram :: "udp_packet \<Rightarrow> os_answers \<Rightarrow> bool" where
  "whole_datagram p os \<longleftrightarrow> os_send os \<in> Inl ` UNIV \<union> {Inr (length (u_data p))}
     \<and> os_send_to os \<in> Inl ` UNIV \<union> {Inr (length (u_data p))}"

lemmas send_defs = send_packet_to_port_def send_packet_def finish_send_def socket_send_def

lemma finish_send_frame [simp]:
  "um_target_port (snd (finish_send port p r m)) = um_target_port m"
  "um_sockets_by_port (snd (finish_send port p r m)) = um_sockets_by_port m"
  by (simp_all add: finish_send_def split: sum.splits)

text \<open>What has been counted beyond the wire does not change.\<close>

definition packets_off :: "udp_multicaster \<Rightarrow> u64" where
  "packets_off m = um_packets_sent m - of_nat (length (um_wire m))"

definition bytes_off :: "udp_multicaster \<Rightarrow> u64" where
  "bytes_off m = um_bytes_sent m - of_nat (sum_list (map (length \<circ> snd) (um_wire m)))"

lemma off_sockets [simp]:
  "packets_off (m\<lparr>um_sockets_by_port := ss\<rparr>) = packets_off m" "bytes_off (m\<lparr>um_sockets_by_port := ss\<rparr>) = bytes_off m"
  by (simp_all add: packets_off_def bytes_off_def)

lemma finish_send_off:
  "packets_off (snd (finish_send port p r m)) = packets_off m"
  "r \<in> Inl ` UNIV \<union> {Inr (length (u_data p))} \<Longrightarrow> bytes_off (snd (finish_send port p r m)) = bytes_off m"
  by (auto simp: finish_send_def packets_off_def bytes_off_def split: sum.splits)

lemma finish_send_wire: "um_wire (snd (finish_send port p r m)) \<in> {um_wire m, um_wire m @ [(port, u_data p)]}"
  by (simp add: finish_send_def split: sum.splits)

text \<open>A send either changes nothing or is the common tail, after adding a socket for the port if it had none.\<close>

lemma send_cases:
  obtains (failed) e where "send_packet_to_port p port os m = (Err e, m)"
  | (sent) r ss where "send_packet_to_port p port os m = finish_send port p r (m\<lparr>um_sockets_by_port := ss\<rparr>)"
      "r \<in> {os_send os, os_send_to os, Inl NotConnected}" "map_of (um_sockets_by_port m) \<subseteq>\<^sub>m map_of ss"
proof -
  consider "port = um_target_port m" | sock where "port \<noteq> um_target_port m" "map_of (um_sockets_by_port m) port = Some sock"
    | (False) "port \<noteq> um_target_port m" "map_of (um_sockets_by_port m) port = None" by fastforce
  then show ?thesis
  proof cases
    case 1
    then show ?thesis
      by (intro sent [of "if um_connected m then os_send os else os_send_to os" "um_sockets_by_port m"])
        (simp_all add: send_packet_to_port_def send_packet_def)
  next
    case 2
    then show ?thesis
      by (intro sent [of "socket_send sock os" "um_sockets_by_port m"])
        (simp_all add: send_packet_to_port_def socket_send_def)
  next
    case False
    show ?thesis
    proof (cases "os_bind os")
      case None
      have "map_of (um_sockets_by_port m) \<subseteq>\<^sub>m map_of (AList.update port (os_connect os = None) (um_sockets_by_port m))"
        using False by (auto simp: map_le_def update_conv')
      then show ?thesis
        using False None by (intro sent [of "socket_send (os_connect os = None) os"
              "AList.update port (os_connect os = None) (um_sockets_by_port m)"])
          (simp_all add: send_packet_to_port_def socket_send_def update_conv')
    next
      case (Some e)
      then show ?thesis using False by (intro failed [of "UdpError e"]) (simp add: send_packet_to_port_def)
    qed
  qed
qed

lemma send_wire:
  "um_wire (snd (send_packet_to_port p port os m)) \<in> {um_wire m, um_wire m @ [(port, u_data p)]}"
  using finish_send_wire by (cases rule: send_cases [of p port os m]) (simp, metis udp_multicaster.select_convs(9) udp_multicaster.update_convs(6) udp_multicaster.surjective)

lemma send_off:
  "packets_off (snd (send_packet_to_port p port os m)) = packets_off m"
  "whole_datagram p os \<Longrightarrow> bytes_off (snd (send_packet_to_port p port os m)) = bytes_off m"
proof -
  show "packets_off (snd (send_packet_to_port p port os m)) = packets_off m"
    by (cases rule: send_cases [of p port os m]) (simp_all add: finish_send_off)
  show "bytes_off (snd (send_packet_to_port p port os m)) = bytes_off m" if "whole_datagram p os"
    using that by (cases rule: send_cases [of p port os m]) (auto simp: finish_send_off whole_datagram_def)
qed

text \<open>A socket, once in the cache, stays there as it is; the target address never changes.\<close>

lemma send_frame:
  "um_target_port (snd (send_packet_to_port p port os m)) = um_target_port m"
  "map_of (um_sockets_by_port m) \<subseteq>\<^sub>m map_of (um_sockets_by_port (snd (send_packet_to_port p port os m)))"
  by (cases rule: send_cases [of p port os m]; simp)+

lemma send_broken:
  assumes "port \<noteq> um_target_port m" "map_of (um_sockets_by_port m) port = Some False"
  shows "send_packet_to_port p port os m = (Err (UdpError NotConnected), m)"
  using assms by (simp add: send_defs)

section \<open>Many sends\<close>

type_synonym send_order = "udp_packet \<times> nat \<times> os_answers"

fun send_many :: "send_order list \<Rightarrow> udp_multicaster \<Rightarrow> udp_multicaster" where
  "send_many [] m = m"
| "send_many ((p, port, os) # xs) m = send_many xs (snd (send_packet_to_port p port os m))"

lemma send_many_frame:
  "um_target_port (send_many xs m) = um_target_port m"
  "map_of (um_sockets_by_port m) \<subseteq>\<^sub>m map_of (um_sockets_by_port (send_many xs m))"
proof -
  show "um_target_port (send_many xs m) = um_target_port m"
    by (induction xs m rule: send_many.induct) (simp_all add: send_frame)
  show "map_of (um_sockets_by_port m) \<subseteq>\<^sub>m map_of (um_sockets_by_port (send_many xs m))"
    by (induction xs m rule: send_many.induct) (auto intro: map_le_trans send_frame(2))
qed

lemma send_many_off:
  "packets_off (send_many xs m) = packets_off m"
  "list_all (\<lambda>(p, port, os). whole_datagram p os) xs \<Longrightarrow> bytes_off (send_many xs m) = bytes_off m"
  by (induction xs m rule: send_many.induct) (simp_all add: send_off)

lemma send_many_wire:
  "\<exists>ws. um_wire (send_many xs m) = um_wire m @ ws \<and> subseq ws (map (\<lambda>(p, port, os). (port, u_data p)) xs)"
proof (induction xs m rule: send_many.induct)
  case (2 p port os xs m)
  then obtain ws where ws: "um_wire (send_many ((p, port, os) # xs) m) = um_wire (snd (send_packet_to_port p port os m)) @ ws"
      "subseq ws (map (\<lambda>(p, port, os). (port, u_data p)) xs)" by auto
  then have "subseq ws ((port, u_data p) # map (\<lambda>(p, port, os). (port, u_data p)) xs)"
    "subseq ((port, u_data p) # ws) ((port, u_data p) # map (\<lambda>(p, port, os). (port, u_data p)) xs)"
    by (auto intro: list_emb_Cons)
  moreover have "um_wire (send_many ((p, port, os) # xs) m) \<in> {um_wire m @ ws, um_wire m @ (port, u_data p) # ws}"
    using ws(1) send_wire [of p port os m] by auto
  ultimately show ?case by auto
qed simp

section \<open>Properties\<close>

text \<open>C23: The statistics of a new multicaster are those of its wire: after any sends, for which the operating
  system takes whole datagrams, the packet count and the byte count are the number and the total
  length of the datagrams handed over, modulo \<open>2^64\<close>; these are, in order, some of the packets, each on the
  port it was sent to.\<close>

theorem multicaster_statistics:
  assumes "multicaster_new cfg os = Ok m0" "list_all (\<lambda>(p, port, os). whole_datagram p os) xs"
  shows "get_stats (send_many xs m0) =
      \<lparr> us_packets_sent = of_nat (length (um_wire (send_many xs m0))),
        us_bytes_sent = of_nat (sum_list (map (length \<circ> snd) (um_wire (send_many xs m0)))) \<rparr>
    \<and> subseq (um_wire (send_many xs m0)) (map (\<lambda>(p, port, os). (port, u_data p)) xs)"
proof -
  have "um_wire m0 = [] \<and> um_packets_sent m0 = 0 \<and> um_bytes_sent m0 = 0"
    using assms(1) by (auto simp: multicaster_new_def Let_def split: option.splits)
  then show ?thesis
    using send_many_off(1) [of xs m0] send_many_off(2) [OF assms(2), of m0] send_many_wire [of xs m0]
    by (simp add: get_stats_def packets_off_def bytes_off_def)
qed

definition sample_udp :: udp_config where
  "sample_udp = \<lparr> uc_multicast = ''239.255.1.1'', uc_port_number = 55555, uc_interface = ''0.0.0.0'' \<rparr>"

definition good_os :: "nat \<Rightarrow> os_answers" where
  "good_os n = \<lparr> os_bind = None, os_connect = None, os_send = Inr n, os_send_to = Inr n \<rparr>"

text \<open>A port is usable unless its socket of the cache failed to connect.\<close>

definition usable :: "nat \<Rightarrow> udp_multicaster \<Rightarrow> bool" where
  "usable port m \<longleftrightarrow> port = um_target_port m \<or> map_of (um_sockets_by_port m) port \<noteq> Some False"

lemma send_good:
  assumes "usable port m"
  shows "\<exists>m'. send_packet_to_port p port (good_os k) m = (Ok (), m') \<and> um_wire m' = um_wire m @ [(port, u_data p)]
     \<and> (\<forall>q. usable q m \<longrightarrow> usable q m')"
proof -
  consider "port = um_target_port m" | "port \<noteq> um_target_port m" "map_of (um_sockets_by_port m) port = None"
    | "port \<noteq> um_target_port m" "map_of (um_sockets_by_port m) port = Some True"
    using assms unfolding usable_def by (metis (full_types) option.exhaust)
  then show ?thesis by cases (simp_all add: send_defs good_os_def usable_def update_conv')
qed

definition sample_multicaster :: udp_multicaster where
  "sample_multicaster = \<lparr> um_target_ip = [239, 255, 1, 1], um_target_port = 55555, um_connected = True,
     um_multicast_ip = [239, 255, 1, 1], um_interface_ip = [0, 0, 0, 0], um_sockets_by_port = [],
     um_packets_sent = 0, um_bytes_sent = 0, um_wire = [] \<rparr>"

lemma sample_new: "multicaster_new sample_udp (good_os 0) = Ok sample_multicaster"
proof -
  have "parse_ipv4 ''239.255.1.1'' = Some [239, 255, 1, 1]" "parse_ipv4 ''0.0.0.0'' = Some [0, 0, 0, 0]"
    by code_simp+
  then show ?thesis by (simp add: multicaster_new_def sample_udp_def good_os_def sample_multicaster_def)
qed

theorem multicaster_statistics_witness:
  "get_stats (send_many [(\<lparr> u_data = [1, 2, 3], u_size = 3 \<rparr>, 55556, good_os 3)] sample_multicaster) =
      \<lparr> us_packets_sent = 1, us_bytes_sent = 3 \<rparr>"
proof -
  have w: "list_all (\<lambda>(p, port, os). whole_datagram p os) [(\<lparr> u_data = [1, 2, 3], u_size = 3 \<rparr>, 55556, good_os 3)]"
    by (simp add: whole_datagram_def good_os_def)
  show ?thesis using multicaster_statistics [OF sample_new w]
    by (simp add: send_defs sample_multicaster_def good_os_def)
qed

text \<open>C24: When the first connect for a port of its own fails, this send and every later one to the port fails,
  whatever the operating system would answer then and whatever is sent in between: the unconnected
  socket is kept for the port and used without a destination.\<close>

theorem failed_connect_is_final:
  assumes "port \<noteq> um_target_port m" "map_of (um_sockets_by_port m) port = None"
    and "os_bind os = None" "os_connect os = Some e"
  shows "fst (send_packet_to_port p port os m) = Err (UdpError NotConnected)
     \<and> send_packet_to_port p' port os' (send_many xs (snd (send_packet_to_port p port os m))) =
         (Err (UdpError NotConnected), send_many xs (snd (send_packet_to_port p port os m)))"
proof -
  let ?m1 = "m\<lparr>um_sockets_by_port := AList.update port False (um_sockets_by_port m)\<rparr>"
  have first: "send_packet_to_port p port os m = (Err (UdpError NotConnected), ?m1)"
    using assms by (simp add: send_defs update_conv')
  have "map_of (um_sockets_by_port (send_many xs ?m1)) port = Some False"
    using send_many_frame(2) [of ?m1 xs] by (auto simp: map_le_def update_conv')
  then show ?thesis
    using assms(1) send_broken [of port "send_many xs ?m1"] by (simp add: first send_many_frame(1))
qed

theorem failed_connect_is_final_witness:
  "fst (send_packet_to_port \<lparr> u_data = [], u_size = 0 \<rparr> 55556 (good_os 0)
     (snd (send_packet_to_port \<lparr> u_data = [], u_size = 0 \<rparr> 55556 ((good_os 0)\<lparr>os_connect := Some (OtherIo 101)\<rparr>)
        sample_multicaster))) = Err (UdpError NotConnected)"
  using failed_connect_is_final [of 55556 sample_multicaster "(good_os 0)\<lparr>os_connect := Some (OtherIo 101)\<rparr>" "OtherIo 101"
      "\<lparr> u_data = [], u_size = 0 \<rparr>" "\<lparr> u_data = [], u_size = 0 \<rparr>" "good_os 0" "[]"]
  by (simp add: sample_multicaster_def good_os_def)

end
