(* ===== verification/Session_Laws.thy ===== *)
theory Session_Laws
  imports Connection_Manager Udp_Properties Packet_Laws Decoder
begin

text \<open>
  The contract of a session with the shared components. A relation between the states before and
  after is kept by a whole session when it is reflexive and transitive and holds for the few
  operations that a session uses; the locales state this once, and the interpretations give the wire,
  the status events and the unchanged parts.
\<close>

section \<open>One connection never ends well\<close>

lemma session_loop_not_Ok: "fst (session_loop env name port ms st) \<noteq> Returned (Inr ())"
  by (induction env name port ms st rule: session_loop.induct) (auto split: prod.splits outcome.splits option.splits)

lemma connect_not_Ok: "fst (connect_to_symbol_session env name session att st) \<noteq> Returned (Inr ())"
  by (auto simp: connect_to_symbol_session_def session_loop_not_Ok split: sum.splits option.splits)

lemma exchange_loop_not_Ok: "fst (exchange_loop env name ms st) \<noteq> Returned (Inr ())"
  by (induction env name ms st rule: exchange_loop.induct) (auto split: prod.splits outcome.splits option.splits)

lemma connect_exchange_not_Ok: "fst (connect_to_exchange env ec att st) \<noteq> Returned (Inr ())"
  by (auto simp: connect_to_exchange_def exchange_loop_not_Ok split: sum.splits)

text \<open>So a session either panics, gives up, or sleeps and tries again.\<close>

definition announced :: "feeder_env \<Rightarrow> string \<Rightarrow> symbol_session \<Rightarrow> nat \<Rightarrow> feeder \<Rightarrow> feeder" where
  "announced env name session rc st =
     notify env name CONNECTION_STATUS_DISCONNECTED CONNECTION_STATUS_CONNECTING rc (se_port session) st"

definition given_up :: "feeder_env \<Rightarrow> string \<Rightarrow> symbol_session \<Rightarrow> nat \<Rightarrow> feeder \<Rightarrow> feeder" where
  "given_up env name session rc st =
     notify env name CONNECTION_STATUS_RECONNECTING CONNECTION_STATUS_FAILED (rc + 1) (se_port session) st"

definition backed_off :: "feeder_env \<Rightarrow> string \<Rightarrow> symbol_session \<Rightarrow> nat \<Rightarrow> feeder \<Rightarrow> feeder" where
  "backed_off env name session rc st =
     sleep (calculate_backoff_delay rc)
       (notify env name CONNECTION_STATUS_CONNECTED CONNECTION_STATUS_RECONNECTING (rc + 1) (se_port session) st)"

lemma manage_session_step:
  "manage_symbol_session env name session attempts n rc st =
     (let (r, st1) = connect_to_symbol_session env name session (attempts n) (announced env name session rc st) in
      if r = Panicked then Some (Panicked, st1)
      else if MAX_RETRY_COUNT \<le> rc + 1 then
        Some (Returned (Err (Other ''maximal number of retries exceeded'')), given_up env name session rc st1)
      else manage_symbol_session env name session attempts (Suc n) (rc + 1) (backed_off env name session rc st1))"
  using connect_not_Ok [of env name session "attempts n" "announced env name session rc st"]
  by (subst manage_symbol_session.simps)
    (auto simp: announced_def given_up_def backed_off_def Let_def split: prod.splits outcome.splits sum.splits)

lemma manage_exchange_step:
  "manage_exchange_connection env ec attempts n rc st =
     (let (r, st1) = connect_to_exchange env ec (attempts n) st in
      if r = Panicked then Some (Panicked, st1)
      else if MAX_RETRY_COUNT \<le> rc + 1 then
        Some (Returned (Err (Other ''maximal number of retries exceeded'')), st1)
      else manage_exchange_connection env ec attempts (Suc n) (rc + 1) (sleep (calculate_backoff_delay rc) st1))"
  using connect_exchange_not_Ok [of env ec "attempts n" st]
  by (subst manage_exchange_connection.simps) (auto simp: Let_def split: prod.splits outcome.splits sum.splits)

section \<open>The contract\<close>

locale message_relation =
  fixes R :: "feeder \<Rightarrow> feeder \<Rightarrow> bool" and env :: feeder_env and name :: string and port :: nat
  assumes refl: "R st st"
    and trans: "R st1 st2 \<Longrightarrow> R st2 st3 \<Longrightarrow> R st1 st3"
    and process: "R st (snd (process_and_send_to_port env name data port st))"

text \<open>The status changes that a session announces.\<close>

definition announcements :: "(u8 \<times> u8) set" where
  "announcements = {(CONNECTION_STATUS_DISCONNECTED, CONNECTION_STATUS_CONNECTING),
     (CONNECTION_STATUS_CONNECTED, CONNECTION_STATUS_DISCONNECTED),
     (CONNECTION_STATUS_CONNECTED, CONNECTION_STATUS_RECONNECTING),
     (CONNECTION_STATUS_RECONNECTING, CONNECTION_STATUS_FAILED)}"

locale connection_relation = message_relation +
  assumes announce: "(a, b) \<in> announcements \<Longrightarrow> R st (notify env name a b k port st)"

context connection_relation
begin

lemma loop: "R st (snd (session_loop env name port ms st))"
proof -
  have "e = env \<Longrightarrow> nm = name \<Longrightarrow> pt = port \<Longrightarrow> R st (snd (session_loop e nm pt ms st))" for e nm pt
  proof (induction e nm pt ms st rule: session_loop.induct)
    case (2 e nm pt str ms st)
    then show ?case using process [of st "as_bytes str"]
      by (auto split: prod.splits outcome.splits dest: trans)
  next
    case (3 e nm pt data ms st)
    then show ?case using process [of st data] by (auto split: prod.splits outcome.splits dest: trans)
  qed (auto simp: refl announcements_def intro: announce split: option.splits)
  then show ?thesis by simp
qed

lemma connected:
  assumes "se_port session = port"
  shows "R st (snd (connect_to_symbol_session env name session att st))"
  using assms loop refl by (auto simp: connect_to_symbol_session_def split: sum.splits option.splits)

end

locale session_relation = connection_relation +
  assumes slept: "R st (sleep d st)"

context session_relation
begin

lemma managed:
  assumes "se_port session = port"
  shows "\<exists>r st'. manage_symbol_session env name session attempts n rc st = Some (r, st') \<and> R st st'"
proof (induction "MAX_RETRY_COUNT - rc" arbitrary: n rc st rule: less_induct)
  case less
  obtain r st1 where c: "connect_to_symbol_session env name session (attempts n) (announced env name session rc st) = (r, st1)"
    by (cases "connect_to_symbol_session env name session (attempts n) (announced env name session rc st)")
  have "R st (announced env name session rc st)"
    unfolding announced_def assms by (rule announce) (simp add: announcements_def)
  then have st1: "R st st1" using connected [OF assms, of "announced env name session rc st" "attempts n"] c trans by auto
  have up: "R st1 (given_up env name session rc st1)"
    unfolding given_up_def assms by (rule announce) (simp add: announcements_def)
  have off: "R st1 (backed_off env name session rc st1)"
    unfolding backed_off_def assms by (rule trans [OF announce slept]) (simp add: announcements_def)
  show ?case
  proof (cases "r = Panicked \<or> MAX_RETRY_COUNT \<le> rc + 1")
    case True
    then show ?thesis using c st1 trans [OF st1 up] by (subst manage_session_step) auto
  next
    case False
    then have "MAX_RETRY_COUNT - (rc + 1) < MAX_RETRY_COUNT - rc" by auto
    from less [OF this, of "Suc n" "backed_off env name session rc st1"] obtain r' st' where
      "manage_symbol_session env name session attempts (Suc n) (rc + 1) (backed_off env name session rc st1) = Some (r', st')"
      "R (backed_off env name session rc st1) st'" by auto
    then show ?thesis using c False trans [OF trans [OF st1 off]] by (subst manage_session_step) auto
  qed
qed

end

section \<open>The wire\<close>

definition seq_of :: "u8 list \<Rightarrow> u64" where
  "seq_of d = h_sequence_number (header_read d)"

definition numbers :: "u64 \<Rightarrow> nat \<Rightarrow> u64 list" where
  "numbers q n = map (\<lambda>i. q + of_nat i) [0..<n]"

lemma numbers_0 [simp]: "numbers q 0 = []"
  by (simp add: numbers_def)

lemma numbers_add: "numbers q (m + n) = numbers q m @ numbers (q + of_nat m) n"
  by (induction n) (simp_all add: numbers_def add.assoc)

lemma well_formed_seq: "well_formed q p \<Longrightarrow> seq_of (u_data p) = q"
  by (auto simp: well_formed_def seq_of_def header_from_bytes_def split: if_splits)

lemma emitted_numbers:
  assumes "\<forall>i < length ps. well_formed (q + of_nat i) (ps ! i)"
  shows "map (seq_of \<circ> u_data) ps = numbers q (length ps)"
  using assms by (intro nth_equalityI) (simp_all add: numbers_def well_formed_seq)

text \<open>A datagram is intact when it is a well-formed packet.\<close>

definition intact :: "u8 list \<Rightarrow> bool" where
  "intact d \<longleftrightarrow> well_formed (seq_of d) \<lparr> u_data = d, u_size = length d \<rparr>"

lemma well_formed_intact: "well_formed q p \<Longrightarrow> intact (u_data p)"
proof -
  assume w: "well_formed q p"
  then have "\<lparr> u_data = u_data p, u_size = length (u_data p) \<rparr> = p" by (cases p) (simp add: well_formed_def)
  then show ?thesis using w well_formed_seq [OF w] by (simp add: intact_def)
qed

text \<open>
  Between two states of a task on a port, \<open>n\<close> numbers were taken, consecutively, and intact datagrams
  with some of these numbers, in order, went to the port; nothing else went to the wire.
\<close>

definition grows :: "nat \<Rightarrow> feeder \<Rightarrow> feeder \<Rightarrow> bool" where
  "grows port st st' \<longleftrightarrow> (\<exists>n ws.
     pb_sequence_counter (fd_builder st') = pb_sequence_counter (fd_builder st) + of_nat n
     \<and> um_wire (fd_udp st') = um_wire (fd_udp st) @ map (Pair port) ws
     \<and> subseq (map seq_of ws) (numbers (pb_sequence_counter (fd_builder st)) n) \<and> list_all intact ws)"

lemma growsI:
  "pb_sequence_counter (fd_builder st') = pb_sequence_counter (fd_builder st) + of_nat n \<Longrightarrow>
   um_wire (fd_udp st') = um_wire (fd_udp st) @ map (Pair port) ws \<Longrightarrow>
   subseq (map seq_of ws) (numbers (pb_sequence_counter (fd_builder st)) n) \<Longrightarrow> list_all intact ws \<Longrightarrow> grows port st st'"
  unfolding grows_def by blast

lemma grows_same:
  "fd_builder st' = fd_builder st \<Longrightarrow> fd_udp st' = fd_udp st \<Longrightarrow> grows port st st'"
  by (rule growsI [of _ _ 0 _ "[]"]) simp_all

lemma grows_trans: "grows port a b \<Longrightarrow> grows port b c \<Longrightarrow> grows port a c"
proof -
  assume "grows port a b" "grows port b c"
  then obtain m vs n ws where
    "pb_sequence_counter (fd_builder b) = pb_sequence_counter (fd_builder a) + of_nat m"
    "um_wire (fd_udp b) = um_wire (fd_udp a) @ map (Pair port) vs"
    "subseq (map seq_of vs) (numbers (pb_sequence_counter (fd_builder a)) m)" "list_all intact vs"
    "pb_sequence_counter (fd_builder c) = pb_sequence_counter (fd_builder b) + of_nat n"
    "um_wire (fd_udp c) = um_wire (fd_udp b) @ map (Pair port) ws"
    "subseq (map seq_of ws) (numbers (pb_sequence_counter (fd_builder b)) n)" "list_all intact ws"
    unfolding grows_def by blast
  then show "grows port a c"
    by (intro growsI [of _ _ "m + n" _ "vs @ ws"]) (simp_all add: numbers_add list_emb_append_mono add.assoc)
qed

section \<open>Sending\<close>

text \<open>Sending changes the multicaster and the number of sends only.\<close>

lemma fd_send_frame:
  "fd_send env f st = (fst (f (fe_net env (fd_sends st)) (fd_udp st)),
     st\<lparr>fd_udp := snd (f (fe_net env (fd_sends st)) (fd_udp st)), fd_sends := Suc (fd_sends st)\<rparr>)"
  by (simp add: fd_send_def case_prod_unfold Let_def)

abbreviation send_on_port :: "feeder_env \<Rightarrow> nat \<Rightarrow> udp_packet \<Rightarrow> feeder \<Rightarrow> unit result \<times> feeder" where
  "send_on_port env port p \<equiv> fd_send env (send_packet_to_port p port)"

text \<open>The parts of the state that sending leaves alone.\<close>

definition rest_of :: "feeder \<Rightarrow> config \<times> data_parser \<times> packet_builder \<times> nat \<times> (u8 \<times> u8 \<times> nat \<times> nat) list \<times> nat list \<times> nat" where
  "rest_of st = (fd_config st, fd_parser st, fd_builder st, fd_parses st, fd_events st, fd_sleeps st, um_target_port (fd_udp st))"

lemma send_on_port_effect:
  "rest_of (snd (send_on_port env port p st)) = rest_of st"
  "\<exists>ws. um_wire (fd_udp (snd (send_on_port env port p st))) = um_wire (fd_udp st) @ map (Pair port) ws
     \<and> subseq ws [u_data p]"
proof -
  let ?w = "um_wire (fd_udp (snd (send_on_port env port p st)))"
  show "rest_of (snd (send_on_port env port p st)) = rest_of st" by (simp add: fd_send_frame rest_of_def send_frame(1))
  have "?w \<in> {um_wire (fd_udp st) @ map (Pair port) [], um_wire (fd_udp st) @ map (Pair port) [u_data p]}"
    using send_wire [of p port "fe_net env (fd_sends st)" "fd_udp st"] by (simp add: fd_send_frame)
  then show "\<exists>ws. ?w = um_wire (fd_udp st) @ map (Pair port) ws \<and> subseq ws [u_data p]"
    by (metis insertE singletonD list_emb_Nil subseq_order.refl)
qed

lemma send_all_effect:
  "rest_of (snd (send_all (send_on_port env port) ps st)) = rest_of st
   \<and> (\<exists>ws. um_wire (fd_udp (snd (send_all (send_on_port env port) ps st))) = um_wire (fd_udp st) @ map (Pair port) ws
        \<and> subseq ws (map u_data ps))"
proof (induction ps arbitrary: st)
  case (Cons p ps)
  obtain r st1 where s: "send_on_port env port p st = (r, st1)" by (cases "send_on_port env port p st")
  obtain ws where one: "rest_of st1 = rest_of st" "um_wire (fd_udp st1) = um_wire (fd_udp st) @ map (Pair port) ws"
      "subseq ws [u_data p]"
    using send_on_port_effect [where env = env and port = port and p = p and st = st] s by auto
  show ?case
  proof (cases r)
    case (Inl e)
    have "subseq ws (map u_data (p # ps))" using one(3) by (auto elim: subseq_order.trans)
    then show ?thesis using one s Inl by auto
  next
    case (Inr u)
    obtain vs where "rest_of (snd (send_all (send_on_port env port) ps st1)) = rest_of st1"
        "um_wire (fd_udp (snd (send_all (send_on_port env port) ps st1))) = um_wire (fd_udp st1) @ map (Pair port) vs"
        "subseq vs (map u_data ps)"
      using Cons.IH [of st1] by auto
    moreover from this have "subseq (ws @ vs) (map u_data (p # ps))"
      using list_emb_append_mono [OF one(3), of vs "map u_data ps"] by simp
    ultimately show ?thesis using one s Inr by (intro conjI exI [of _ "ws @ vs"]) simp_all
  qed
qed simp

section \<open>A network that takes everything\<close>

lemma send_all_good:
  assumes "fe_net env = (\<lambda>_. good_os k)" "usable port (fd_udp st)"
  shows "\<exists>st'. send_all (send_on_port env port) ps st = (Ok (), st')
     \<and> um_wire (fd_udp st') = um_wire (fd_udp st) @ map (\<lambda>p. (port, u_data p)) ps
     \<and> (\<forall>q. usable q (fd_udp st) \<longrightarrow> usable q (fd_udp st'))"
  using assms(2)
proof (induction ps arbitrary: st)
  case (Cons p ps)
  obtain m where m: "send_packet_to_port p port (good_os k) (fd_udp st) = (Ok (), m)"
     "um_wire m = um_wire (fd_udp st) @ [(port, u_data p)]" "\<forall>q. usable q (fd_udp st) \<longrightarrow> usable q m"
    using send_good [OF Cons.prems] by blast
  let ?st = "st\<lparr>fd_udp := m, fd_sends := Suc (fd_sends st)\<rparr>"
  have s: "send_on_port env port p st = (Ok (), ?st)" by (simp add: fd_send_frame assms(1) m(1))
  have "usable port (fd_udp ?st)" using m(3) Cons.prems by simp
  from Cons.IH [OF this] show ?case using m(2,3) s by auto
qed auto

section \<open>One message and one event\<close>

text \<open>The effect on the wire and the counters, and what is left alone.\<close>

definition quiet :: "nat \<Rightarrow> feeder \<Rightarrow> feeder \<Rightarrow> bool" where
  "quiet port st st' \<longleftrightarrow> fd_config st' = fd_config st \<and> fd_parser st' = fd_parser st
     \<and> fd_events st' = fd_events st \<and> fd_sleeps st' = fd_sleeps st \<and> um_target_port (fd_udp st') = um_target_port (fd_udp st)"

lemma rest_of_eq:
  "rest_of st' = rest_of st \<longleftrightarrow> fd_config st' = fd_config st \<and> fd_parser st' = fd_parser st \<and> fd_builder st' = fd_builder st
     \<and> fd_parses st' = fd_parses st \<and> fd_events st' = fd_events st \<and> fd_sleeps st' = fd_sleeps st
     \<and> um_target_port (fd_udp st') = um_target_port (fd_udp st)"
  by (simp add: rest_of_def)

lemma built_and_sent:
  assumes "\<forall>i < length ps. well_formed (pb_sequence_counter (fd_builder st) + of_nat i) (ps ! i)"
    and "pb_sequence_counter b = pb_sequence_counter (fd_builder st) + of_nat (length ps)"
  shows "grows port st (snd (send_all (send_on_port env port) ps (st\<lparr>fd_builder := b\<rparr>)))"
    "quiet port st (snd (send_all (send_on_port env port) ps (st\<lparr>fd_builder := b\<rparr>)))"
proof -
  obtain ws where e: "rest_of (snd (send_all (send_on_port env port) ps (st\<lparr>fd_builder := b\<rparr>))) = rest_of (st\<lparr>fd_builder := b\<rparr>)"
      "um_wire (fd_udp (snd (send_all (send_on_port env port) ps (st\<lparr>fd_builder := b\<rparr>)))) = um_wire (fd_udp st) @ map (Pair port) ws"
      "subseq ws (map u_data ps)"
    using send_all_effect [where env = env and port = port and ps = ps and st = "st\<lparr>fd_builder := b\<rparr>"] by auto
  have "subseq (map seq_of ws) (numbers (pb_sequence_counter (fd_builder st)) (length ps))"
    using subseq_map [OF e(3), of seq_of] emitted_numbers [OF assms(1)] by simp
  moreover have "list_all intact (map u_data ps)"
    using assms(1) well_formed_intact by (auto simp: list_all_length)
  then have "list_all intact ws" using e(3) unfolding list_all_iff by (blast dest: list_emb_set)
  ultimately show "grows port st (snd (send_all (send_on_port env port) ps (st\<lparr>fd_builder := b\<rparr>)))"
    using e(1,2) assms(2) by (intro growsI [of _ _ "length ps" _ ws]) (simp_all add: rest_of_eq)
  show "quiet port st (snd (send_all (send_on_port env port) ps (st\<lparr>fd_builder := b\<rparr>)))"
    using e(1) by (simp add: rest_of_eq quiet_def)
qed

lemma process_effect:
  "grows port st (snd (process_and_send_to_port env name data port st))
   \<and> quiet port st (snd (process_and_send_to_port env name data port st))"
proof -
  let ?st = "st\<lparr>fd_parses := Suc (fd_parses st)\<rparr>"
  have g: "grows port ?st s \<Longrightarrow> grows port st s" for s by (simp add: grows_def)
  have q: "quiet port ?st s \<Longrightarrow> quiet port st s" for s by (simp add: quiet_def)
  have same: "grows port st ?st \<and> quiet port st ?st" by (simp add: grows_same quiet_def)
  have built: "grows port st (snd (let (r, st1) = send_all (send_on_port env port) ps (?st\<lparr>fd_builder := b\<rparr>) in (Returned r, st1)))
      \<and> quiet port st (snd (let (r, st1) = send_all (send_on_port env port) ps (?st\<lparr>fd_builder := b\<rparr>) in (Returned r, st1)))"
    if "build_packets (fe_build env) d (fd_builder ?st) = (Inr ps, b)" for d ps b
  proof -
    have "\<forall>i < length ps. well_formed (pb_sequence_counter (fd_builder ?st) + of_nat i) (ps ! i)"
      "pb_sequence_counter b = pb_sequence_counter (fd_builder ?st) + of_nat (length ps)"
      using emits_build_packets [of "fd_builder ?st" "fe_build env" d] that by (auto simp: emits_def advanced_def)
    from built_and_sent [OF this] show ?thesis using g q by (simp add: case_prod_unfold Let_def)
  qed
  have ok: "\<exists>ps b. build_packets (fe_build env) d (fd_builder st) = (Inr ps, b)" for d
    using emits_build_packets [of "fd_builder st" "fe_build env" d] by (auto simp: emits_def)
  show ?thesis
  proof (cases "parse_message (fe_from_slice env) (fe_debug env) (fe_now env (fd_parses st)) (fd_parser st) name data")
    case None
    then show ?thesis using same by (simp add: process_and_send_to_port_def process_with_def Let_def)
  next
    case (Some p)
    show ?thesis
    proof (cases p)
      case (Inl e)
      then show ?thesis using Some same by (simp add: process_and_send_to_port_def process_with_def Let_def)
    next
      case (Inr d)
      then show ?thesis using Some ok [of d] built
        by (fastforce simp: process_and_send_to_port_def process_with_def Let_def)
    qed
  qed
qed

lemma notify_built:
  obtains p s' where "advanced 1 (fd_builder st) s'" "well_formed (pb_sequence_counter (fd_builder st)) p"
    "notify env name a b k port st =
       snd (send_all (send_on_port env port) [p] (st\<lparr>fd_events := fd_events st @ [(a, b, k, port)], fd_builder := s'\<rparr>))"
proof -
  let ?e = "ConnectionStatus (connection_status_new (infer_exchange_id_from_display name) a b (of_nat k) 0)"
  obtain r s' where r: "build_event_packet_with_exchange (fe_build env) ?e name (fd_builder st) = (r, s')"
    by (cases "build_event_packet_with_exchange (fe_build env) ?e name (fd_builder st)")
  have em: "emits (fd_builder st) (and_then r (\<lambda>pkt. Ok [pkt]), s')"
    using emits_event [of ?e "fd_builder st" "fe_build env" name] unfolding r single_packet.simps by simp
  then obtain p where rp: "r = Ok p" by (cases r) (auto simp: emits_def)
  note p = r [unfolded rp]
  have "advanced 1 (fd_builder st) s'" "well_formed (pb_sequence_counter (fd_builder st)) p"
    using em by (simp_all add: rp emits_def)
  moreover have "notify env name a b k port st =
      snd (send_all (send_on_port env port) [p] (st\<lparr>fd_events := fd_events st @ [(a, b, k, port)], fd_builder := s'\<rparr>))"
    using p by (simp add: notify_def send_connection_event_to_port_def send_event_with_def Let_def split: prod.splits sum.splits)
  ultimately show ?thesis by (rule that)
qed

text \<open>A status event takes one number; it is recorded whether or not it reaches the wire.\<close>

lemma notify_effect:
  "grows port st (notify env name a b k port st)"
  "fd_config (notify env name a b k port st) = fd_config st"
  "fd_parser (notify env name a b k port st) = fd_parser st"
  "fd_sleeps (notify env name a b k port st) = fd_sleeps st"
  "fd_events (notify env name a b k port st) = fd_events st @ [(a, b, k, port)]"
  "um_target_port (fd_udp (notify env name a b k port st)) = um_target_port (fd_udp st)"
proof -
  let ?st = "st\<lparr>fd_events := fd_events st @ [(a, b, k, port)]\<rparr>"
  obtain p s' where adv: "advanced 1 (fd_builder st) s'" "well_formed (pb_sequence_counter (fd_builder st)) p"
    and n: "notify env name a b k port st = snd (send_all (send_on_port env port) [p] (?st\<lparr>fd_builder := s'\<rparr>))"
    by (rule notify_built [of st env name a b k port])
  have one: "\<forall>i < length [p]. well_formed (pb_sequence_counter (fd_builder ?st) + of_nat i) ([p] ! i)"
    "pb_sequence_counter s' = pb_sequence_counter (fd_builder ?st) + of_nat (length [p])"
    using adv by (simp_all add: advanced_def)
  have e: "grows port ?st (notify env name a b k port st)" "quiet port ?st (notify env name a b k port st)"
    unfolding n using built_and_sent [OF one, where env = env and port = port] .
  then show "grows port st (notify env name a b k port st)" by (simp add: grows_def)
  show "fd_config (notify env name a b k port st) = fd_config st"
    "fd_parser (notify env name a b k port st) = fd_parser st"
    "fd_sleeps (notify env name a b k port st) = fd_sleeps st"
    "fd_events (notify env name a b k port st) = fd_events st @ [(a, b, k, port)]"
    "um_target_port (fd_udp (notify env name a b k port st)) = um_target_port (fd_udp st)"
    using e(2) by (simp_all add: quiet_def)
qed

section \<open>The port of the configuration\<close>

text \<open>
  A whole exchange sends to the port of the configuration through the operations without a port. They are
  the operations with this port, so its messages are those of a session with this port.
\<close>

lemma send_all_default:
  "um_target_port (fd_udp st) = port \<Longrightarrow>
   send_all (\<lambda>p. fd_send env (send_packet p)) ps st = send_all (send_on_port env port) ps st"
proof (induction ps arbitrary: st)
  case (Cons p ps)
  obtain r st1 where one: "send_on_port env port p st = (r, st1)" by (cases "send_on_port env port p st")
  then have same: "fd_send env (send_packet p) st = (r, st1)"
    using Cons.prems by (simp add: fd_send_def send_packet_to_port_def)
  have "um_target_port (fd_udp st1) = port"
    using Cons.prems one send_frame(1) by (auto simp: fd_send_frame)
  then show ?case using Cons.IH by (simp add: one same split: sum.split)
qed simp

lemma process_message_default:
  "process_message env name data st = process_and_send_to_port env name data (um_target_port (fd_udp st)) st"
  unfolding process_message_def process_and_send_to_port_def process_with_def Let_def
  by (simp add: send_all_default split: option.split sum.split prod.split)

text \<open>The contract of a whole exchange with the shared components: it announces nothing.\<close>

locale exchange_relation =
  fixes R :: "feeder \<Rightarrow> feeder \<Rightarrow> bool" and env :: feeder_env and ec :: exchange_config
  assumes refl: "R st st"
    and trans: "R st1 st2 \<Longrightarrow> R st2 st3 \<Longrightarrow> R st1 st3"
    and process: "R st (snd (process_message env (ec_name ec) data st))"
    and slept: "R st (sleep d st)"

context exchange_relation
begin

lemma loop: "R st (snd (exchange_loop env (ec_name ec) ms st))"
proof -
  have "e = env \<Longrightarrow> nm = ec_name ec \<Longrightarrow> R st (snd (exchange_loop e nm ms st))" for e nm
  proof (induction e nm ms st rule: exchange_loop.induct)
    case (2 e nm str ms st)
    then show ?case using process [of st "as_bytes str"] by (auto split: prod.splits outcome.splits dest: trans)
  next
    case (3 e nm data ms st)
    then show ?case using process [of st data] by (auto split: prod.splits outcome.splits dest: trans)
  qed (auto simp: refl split: option.splits)
  then show ?thesis by simp
qed

lemma connected: "R st (snd (connect_to_exchange env ec att st))"
  using loop refl by (auto simp: connect_to_exchange_def split: sum.splits)

lemma managed: "\<exists>r st'. manage_exchange_connection env ec attempts n rc st = Some (r, st') \<and> R st st'"
proof (induction "MAX_RETRY_COUNT - rc" arbitrary: n rc st rule: less_induct)
  case less
  obtain r st1 where c: "connect_to_exchange env ec (attempts n) st = (r, st1)" by (cases "connect_to_exchange env ec (attempts n) st")
  then have st1: "R st st1" using connected [of st "attempts n"] by simp
  show ?case
  proof (cases "r = Panicked \<or> MAX_RETRY_COUNT \<le> rc + 1")
    case True
    then show ?thesis using c st1 by (subst manage_exchange_step) auto
  next
    case False
    then have "MAX_RETRY_COUNT - (rc + 1) < MAX_RETRY_COUNT - rc" by auto
    from less [OF this, of "Suc n" "sleep (calculate_backoff_delay rc) st1"] obtain r' st' where
      "manage_exchange_connection env ec attempts (Suc n) (rc + 1) (sleep (calculate_backoff_delay rc) st1) = Some (r', st')"
      "R (sleep (calculate_backoff_delay rc) st1) st'" by auto
    then show ?thesis using c False trans [OF trans [OF st1 slept]] by (subst manage_exchange_step) auto
  qed
qed

end

end
