(* ===== verification/Session_Properties.thy ===== *)
theory Session_Properties
  imports Session_Laws
begin

text \<open>
  The properties of one session: it always comes to an end, what it sends, and what it tells about its
  connection.
\<close>

section \<open>The relations kept by a session\<close>

definition tells :: "nat \<Rightarrow> feeder \<Rightarrow> feeder \<Rightarrow> bool" where
  "tells port st st' \<longleftrightarrow> fd_config st' = fd_config st \<and> fd_parser st' = fd_parser st
     \<and> (\<exists>es. fd_events st' = fd_events st @ es \<and> list_all (\<lambda>(a, b, k, p). (a, b) \<in> announcements \<and> p = port) es)"

lemma tells_trans:
  assumes "tells port a b" "tells port b c"
  shows "tells port a c"
proof -
  let ?ok = "\<lambda>(a, b, k, p). (a, b) \<in> announcements \<and> p = port"
  obtain es fs where "fd_events b = fd_events a @ es" "list_all ?ok es" "fd_events c = fd_events b @ fs" "list_all ?ok fs"
    using assms unfolding tells_def by blast
  then have "fd_events c = fd_events a @ (es @ fs) \<and> list_all ?ok (es @ fs)" by simp
  moreover have "fd_config c = fd_config a" "fd_parser c = fd_parser a" using assms by (simp_all add: tells_def)
  ultimately show ?thesis unfolding tells_def by blast
qed

interpretation wire: session_relation "grows port" env name port for port env name
proof unfold_locales
  show "grows port st st" for st by (rule grows_same) simp_all
  show "grows port a b \<Longrightarrow> grows port b c \<Longrightarrow> grows port a c" for a b c by (rule grows_trans)
  show "grows port st (snd (process_and_send_to_port env name data port st))" for st data
    using process_effect by blast
  show "grows port st (notify env name a b k port st)" for a b st k by (rule notify_effect)
  show "grows port st (sleep d st)" for st d by (rule grows_same) (simp_all add: sleep_def)
qed

interpretation story: session_relation "tells port" env name port for port env name
proof unfold_locales
  show "tells port st st" for st by (simp add: tells_def)
  show "tells port a b \<Longrightarrow> tells port b c \<Longrightarrow> tells port a c" for a b c by (rule tells_trans)
  show "tells port st (snd (process_and_send_to_port env name data port st))" for st data
    using process_effect [of port st env name data] by (simp add: tells_def quiet_def)
  show "tells port st (notify env name a b k port st)" if "(a, b) \<in> announcements" for a b st k
    using that by (simp add: tells_def notify_effect)
  show "tells port st (sleep d st)" for st d by (simp add: tells_def sleep_def)
qed

text \<open>A connection does not sleep.\<close>

definition awake :: "feeder \<Rightarrow> feeder \<Rightarrow> bool" where
  "awake st st' \<longleftrightarrow> fd_sleeps st' = fd_sleeps st"

interpretation awake: connection_relation awake env name port for port env name
proof unfold_locales
  show "awake st (snd (process_and_send_to_port env name data port st))" for st data
    using process_effect [of port st env name data] by (simp add: awake_def quiet_def)
qed (simp_all add: awake_def notify_effect)

section \<open>The end of a session\<close>

definition give_up_error :: crypto_feeder_error where
  "give_up_error = Other ''maximal number of retries exceeded''"

lemma session_sleeps:
  assumes "rc < MAX_RETRY_COUNT"
  shows "\<exists>r st' ds. manage_symbol_session env name session attempts n rc st = Some (r, st')
     \<and> fd_sleeps st' = fd_sleeps st @ ds
     \<and> (r = Panicked \<and> prefix ds (map calculate_backoff_delay [rc..<MAX_RETRY_COUNT - 1])
        \<or> r = Returned (Err give_up_error) \<and> ds = map calculate_backoff_delay [rc..<MAX_RETRY_COUNT - 1])"
  using assms
proof (induction "MAX_RETRY_COUNT - rc" arbitrary: n rc st rule: less_induct)
  case less
  obtain r st1 where c: "connect_to_symbol_session env name session (attempts n) (announced env name session rc st) = (r, st1)"
    by (cases "connect_to_symbol_session env name session (attempts n) (announced env name session rc st)")
  have s1: "fd_sleeps st1 = fd_sleeps st"
    using awake.connected [of session "se_port session" "announced env name session rc st" env name "attempts n"] c
    by (simp add: awake_def announced_def notify_effect)
  consider "r = Panicked" | "r \<noteq> Panicked" "MAX_RETRY_COUNT \<le> rc + 1" | (again) "r \<noteq> Panicked" "rc + 1 < MAX_RETRY_COUNT"
    by linarith
  then show ?case
  proof cases
    case again
    let ?st2 = "backed_off env name session rc st1"
    have "MAX_RETRY_COUNT - (rc + 1) < MAX_RETRY_COUNT - rc" using again by auto
    from less.hyps [OF this again(2), of "Suc n" ?st2] obtain r' st' ds where ih:
      "manage_symbol_session env name session attempts (Suc n) (rc + 1) ?st2 = Some (r', st')"
      "fd_sleeps st' = fd_sleeps ?st2 @ ds"
      "r' = Panicked \<and> prefix ds (map calculate_backoff_delay [rc + 1..<MAX_RETRY_COUNT - 1])
        \<or> r' = Returned (Err give_up_error) \<and> ds = map calculate_backoff_delay [rc + 1..<MAX_RETRY_COUNT - 1]" by blast
    have "[rc..<MAX_RETRY_COUNT - 1] = rc # [rc + 1..<MAX_RETRY_COUNT - 1]" using again by (simp add: upt_conv_Cons)
    moreover have "fd_sleeps ?st2 = fd_sleeps st @ [calculate_backoff_delay rc]"
      using s1 by (simp add: backed_off_def sleep_def notify_effect)
    moreover have "manage_symbol_session env name session attempts n rc st = Some (r', st')"
      using ih(1) c again by (subst manage_session_step) auto
    ultimately show ?thesis
      using ih(2,3) by (intro exI [of _ r'] exI [of _ st'] exI [of _ "calculate_backoff_delay rc # ds"]) auto
  next
    case 1
    then have "manage_symbol_session env name session attempts n rc st = Some (Panicked, st1)"
      using c by (subst manage_session_step) simp
    then show ?thesis using s1 by (intro exI [of _ Panicked] exI [of _ st1] exI [of _ "[]"]) simp
  next
    case 2
    then have "manage_symbol_session env name session attempts n rc st =
        Some (Returned (Err give_up_error), given_up env name session rc st1)"
      using c by (subst manage_session_step) (simp add: give_up_error_def)
    moreover have "[rc..<MAX_RETRY_COUNT - 1] = []" using 2 by simp
    moreover have "fd_sleeps (given_up env name session rc st1) = fd_sleeps st" using s1 by (simp add: given_up_def notify_effect)
    ultimately show ?thesis by (metis append_Nil2 list.simps(8))
  qed
qed


text \<open>Everything a session sends goes to its own port. The sequence numbers of its datagrams are, in order,
  some of the consecutive numbers that it took from the counter, so on a port they never repeat or go
  back while the counter does not wrap; datagrams that were lost on the way are gaps.\<close>

theorem session_wire:
  "\<exists>r st' n ws. manage_symbol_session env name session attempts k rc st = Some (r, st')
     \<and> pb_sequence_counter (fd_builder st') = pb_sequence_counter (fd_builder st) + of_nat n
     \<and> um_wire (fd_udp st') = um_wire (fd_udp st) @ map (Pair (se_port session)) ws
     \<and> subseq (map seq_of ws) (map (\<lambda>i. pb_sequence_counter (fd_builder st) + of_nat i) [0..<n])"
proof -
  obtain r st' where "manage_symbol_session env name session attempts k rc st = Some (r, st')" "grows (se_port session) st st'"
    using wire.managed [OF refl] by blast
  then show ?thesis unfolding grows_def numbers_def by blast
qed

text \<open>C26: A session never announces that it is connected. Its status events, all on its port, are only
  connecting after disconnected, disconnected or reconnecting after connected, and failed after
  reconnecting.\<close>

theorem session_never_connected:
  "\<exists>r st' es. manage_symbol_session env name session attempts k rc st = Some (r, st')
     \<and> fd_events st' = fd_events st @ es
     \<and> list_all (\<lambda>(a, b, n, p). (a, b) \<in> {(CONNECTION_STATUS_DISCONNECTED, CONNECTION_STATUS_CONNECTING),
          (CONNECTION_STATUS_CONNECTED, CONNECTION_STATUS_DISCONNECTED), (CONNECTION_STATUS_CONNECTED, CONNECTION_STATUS_RECONNECTING),
          (CONNECTION_STATUS_RECONNECTING, CONNECTION_STATUS_FAILED)} \<and> p = se_port session) es
     \<and> list_all (\<lambda>(a, b, n, p). b \<noteq> CONNECTION_STATUS_CONNECTED) es"
proof -
  obtain r st' where m: "manage_symbol_session env name session attempts k rc st = Some (r, st')" "tells (se_port session) st st'"
    using story.managed [OF refl] by blast
  then obtain es where es: "fd_events st' = fd_events st @ es"
      "list_all (\<lambda>(a, b, k, p). (a, b) \<in> announcements \<and> p = se_port session) es"
    by (auto simp: tells_def)
  have "list_all (\<lambda>(a, b, n, p). b \<noteq> CONNECTION_STATUS_CONNECTED) es"
    using es(2) by (auto simp: list_all_iff announcements_def connection_statuses)
  then show ?thesis using m(1) es unfolding announcements_def by blast
qed

section \<open>An unreachable exchange\<close>

definition story_of :: "nat \<Rightarrow> nat \<Rightarrow> (u8 \<times> u8 \<times> nat \<times> nat) list" where
  "story_of port rc =
     [(CONNECTION_STATUS_DISCONNECTED, CONNECTION_STATUS_CONNECTING, rc, port),
      (if rc + 1 < MAX_RETRY_COUNT then (CONNECTION_STATUS_CONNECTED, CONNECTION_STATUS_RECONNECTING, rc + 1, port)
       else (CONNECTION_STATUS_RECONNECTING, CONNECTION_STATUS_FAILED, rc + 1, port))]"

lemma connect_unreachable:
  "\<exists>e'. connect_to_symbol_session env name session (Inl e) st = (Returned (Err e'), st)"
  by (auto simp: connect_to_symbol_session_def split: sum.splits)

lemma unreachable_story:
  assumes "rc < MAX_RETRY_COUNT"
  shows "\<exists>st'. manage_symbol_session env name session (\<lambda>i. Inl (e i)) n rc st = Some (Returned (Err give_up_error), st')
     \<and> fd_events st' = fd_events st @ concat (map (story_of (se_port session)) [rc..<MAX_RETRY_COUNT])"
  using assms
proof (induction "MAX_RETRY_COUNT - rc" arbitrary: n rc st rule: less_induct)
  case less
  let ?st1 = "announced env name session rc st"
  obtain e' where c: "connect_to_symbol_session env name session (Inl (e n)) ?st1 = (Returned (Err e'), ?st1)"
    using connect_unreachable by blast
  have upt: "[rc..<MAX_RETRY_COUNT] = rc # [rc + 1..<MAX_RETRY_COUNT]" using less.prems by (simp add: upt_conv_Cons)
  show ?case
  proof (cases "rc + 1 < MAX_RETRY_COUNT")
    case True
    have "MAX_RETRY_COUNT - (rc + 1) < MAX_RETRY_COUNT - rc" using True by auto
    from less.hyps [OF this True, of "Suc n" "backed_off env name session rc ?st1"] obtain st' where ih:
      "manage_symbol_session env name session (\<lambda>i. Inl (e i)) (Suc n) (rc + 1) (backed_off env name session rc ?st1)
         = Some (Returned (Err give_up_error), st')"
      "fd_events st' = fd_events (backed_off env name session rc ?st1)
         @ concat (map (story_of (se_port session)) [rc + 1..<MAX_RETRY_COUNT])" by blast
    have "manage_symbol_session env name session (\<lambda>i. Inl (e i)) n rc st = Some (Returned (Err give_up_error), st')"
      using ih(1) c True by (subst manage_session_step) auto
    then show ?thesis
      using ih(2) True unfolding upt by (simp add: story_of_def backed_off_def sleep_def announced_def notify_effect)
  next
    case False
    then have "manage_symbol_session env name session (\<lambda>i. Inl (e i)) n rc st =
        Some (Returned (Err give_up_error), given_up env name session rc ?st1)"
      using c by (subst manage_session_step) (auto simp: give_up_error_def)
    moreover have "[rc + 1..<MAX_RETRY_COUNT] = []" using False by simp
    ultimately show ?thesis
      using False unfolding upt by (simp add: story_of_def given_up_def announced_def notify_effect)
  qed
qed

text \<open>C27: When no connection attempt succeeds, a session announces ten times that it is connecting and nine times
  that it is reconnecting from a connection that it never had, with the retry count going up, and at
  last that it has failed.\<close>

theorem unreachable_exchange_events:
  "\<exists>st'. manage_symbol_session env name session (\<lambda>i. Inl (e i)) 0 0 st = Some (Returned (Err give_up_error), st')
     \<and> fd_events st' = fd_events st
         @ concat (map (\<lambda>i. [(CONNECTION_STATUS_DISCONNECTED, CONNECTION_STATUS_CONNECTING, i, se_port session),
                             (CONNECTION_STATUS_CONNECTED, CONNECTION_STATUS_RECONNECTING, i + 1, se_port session)]) [0..<9])
         @ [(CONNECTION_STATUS_DISCONNECTED, CONNECTION_STATUS_CONNECTING, 9, se_port session),
            (CONNECTION_STATUS_RECONNECTING, CONNECTION_STATUS_FAILED, 10, se_port session)]"
proof -
  let ?p = "se_port session"
  let ?again = "\<lambda>i. [(CONNECTION_STATUS_DISCONNECTED, CONNECTION_STATUS_CONNECTING, i, ?p),
                     (CONNECTION_STATUS_CONNECTED, CONNECTION_STATUS_RECONNECTING, i + 1, ?p)]"
  have "map (story_of ?p) [0..<9] = map ?again [0..<9]"
    by (simp add: story_of_def MAX_RETRY_COUNT_def)
  moreover have "story_of ?p 9 = [(CONNECTION_STATUS_DISCONNECTED, CONNECTION_STATUS_CONNECTING, 9, ?p),
      (CONNECTION_STATUS_RECONNECTING, CONNECTION_STATUS_FAILED, 10, ?p)]"
    by (simp add: story_of_def MAX_RETRY_COUNT_def)
  moreover have "[0..<MAX_RETRY_COUNT] = [0..<9] @ [9]"
    using upt_Suc_append [of 0 9] by (simp add: MAX_RETRY_COUNT_def)
  ultimately have "concat (map (story_of ?p) [0..<MAX_RETRY_COUNT]) = concat (map ?again [0..<9])
      @ [(CONNECTION_STATUS_DISCONNECTED, CONNECTION_STATUS_CONNECTING, 9, ?p),
         (CONNECTION_STATUS_RECONNECTING, CONNECTION_STATUS_FAILED, 10, ?p)]"
    by (simp only: map_append concat_append list.map concat.simps append_Nil2)
  then show ?thesis using unreachable_story [of 0 env name session e 0 st] by (simp only:) (simp add: MAX_RETRY_COUNT_def)
qed

section \<open>The other connections and the end of the program\<close>

lemma exchange_terminates:
  "\<exists>r st'. manage_exchange_connection env ec attempts n rc st = Some (r, st') \<and> r \<in> {Panicked, Returned (Err give_up_error)}"
proof (induction "MAX_RETRY_COUNT - rc" arbitrary: n rc st rule: less_induct)
  case less
  obtain r st1 where c: "connect_to_exchange env ec (attempts n) st = (r, st1)"
    by (cases "connect_to_exchange env ec (attempts n) st")
  show ?case
  proof (cases "r = Panicked \<or> MAX_RETRY_COUNT \<le> rc + 1")
    case True
    then show ?thesis using c by (subst manage_exchange_step) (auto simp: give_up_error_def)
  next
    case False
    then have "MAX_RETRY_COUNT - (rc + 1) < MAX_RETRY_COUNT - rc" by auto
    from less [OF this, of "Suc n" "sleep (calculate_backoff_delay rc) st1"] show ?thesis
      using c False by (subst manage_exchange_step) auto
  qed
qed

end
