(* ===== verification/Interleaving.thy ===== *)
theory Interleaving
  imports Session_Properties
begin

text \<open>
  Several sessions at once. The tasks of \<^verbatim>\<open>ConnectionManager::run\<close> share one packet builder and one
  multicaster; the only steps that touch what they share are the atomic \<^verbatim>\<open>fetch_add\<close> of the sequence
  counter, once for each packet while the packets of a message or event are built, and the sends, one
  for each packet in order. A state of the step relation holds for every task what it is doing; any task
  may move next.
\<close>

section \<open>Steps\<close>

datatype phase =
    Waiting
  | Building nat "u64 list" \<comment> \<open>packets still to build, numbers taken so far\<close>
  | Sending "u64 list"

record shared =
  sh_builder :: packet_builder
  sh_phase :: "nat \<Rightarrow> phase"
  sh_wire :: "(nat \<times> nat \<times> u64) list" \<comment> \<open>task, port, sequence number\<close>
  sh_taken :: "(nat \<times> u64) list" \<comment> \<open>ghost: which task took which number\<close>

definition shared_start :: shared where
  "shared_start = \<lparr> sh_builder = packet_builder_new, sh_phase = (\<lambda>_. Waiting), sh_wire = [], sh_taken = [] \<rparr>"

definition set_phase :: "nat \<Rightarrow> phase \<Rightarrow> shared \<Rightarrow> shared" where
  "set_phase i p s = s\<lparr>sh_phase := (sh_phase s)(i := p)\<rparr>"

text \<open>A send may succeed, lose the packet (\<^verbatim>\<open>WouldBlock\<close>), or fail, which drops the rest.\<close>

inductive feeder_step :: "(nat \<Rightarrow> nat) \<Rightarrow> shared \<Rightarrow> shared \<Rightarrow> bool" for port where
  receive: "sh_phase s i = Waiting \<Longrightarrow> feeder_step port s (set_phase i (Building n []) s)"
| number: "sh_phase s i = Building (Suc n) qs \<Longrightarrow> fetch_add (sh_builder s) = (q, b) \<Longrightarrow>
    feeder_step port s ((set_phase i (Building n (qs @ [q])) s)\<lparr>sh_builder := b, sh_taken := sh_taken s @ [(i, q)]\<rparr>)"
| built: "sh_phase s i = Building 0 qs \<Longrightarrow> feeder_step port s (set_phase i (Sending qs) s)"
| put: "sh_phase s i = Sending (q # qs) \<Longrightarrow>
    feeder_step port s ((set_phase i (Sending qs) s)\<lparr>sh_wire := sh_wire s @ [(i, port i, q)]\<rparr>)"
| lose: "sh_phase s i = Sending (q # qs) \<Longrightarrow> feeder_step port s (set_phase i (Sending qs) s)"
| fail: "sh_phase s i = Sending (q # qs) \<Longrightarrow> feeder_step port s (set_phase i Waiting s)"
| sent: "sh_phase s i = Sending [] \<Longrightarrow> feeder_step port s (set_phase i Waiting s)"

inductive_cases feeder_stepE: "feeder_step port s t"

inductive reachable :: "(nat \<Rightarrow> nat) \<Rightarrow> shared \<Rightarrow> bool" for port where
  start: "reachable port shared_start"
| step: "reachable port s \<Longrightarrow> feeder_step port s t \<Longrightarrow> reachable port t"

lemma set_phase_simps [simp]:
  "sh_phase (set_phase i p s) = (sh_phase s)(i := p)" "sh_wire (set_phase i p s) = sh_wire s"
  "sh_taken (set_phase i p s) = sh_taken s" "sh_builder (set_phase i p s) = sh_builder s"
  by (simp_all add: set_phase_def)

section \<open>The invariant\<close>

fun held :: "phase \<Rightarrow> u64 list" where
  "held Waiting = []"
| "held (Building n qs) = qs"
| "held (Sending qs) = qs"

definition taken_by :: "nat \<Rightarrow> shared \<Rightarrow> u64 list" where
  "taken_by i s = map snd (filter (\<lambda>x. fst x = i) (sh_taken s))"

definition sent_by :: "nat \<Rightarrow> shared \<Rightarrow> u64 list" where
  "sent_by i s = map (\<lambda>(j, p, q). q) (filter (\<lambda>x. fst x = i) (sh_wire s))"

text \<open>
  All numbers come from the counter, consecutively; what a task has sent and still holds is, in order,
  some of what it took; everything on the wire has the port of its task.
\<close>

definition sound :: "(nat \<Rightarrow> nat) \<Rightarrow> shared \<Rightarrow> bool" where
  "sound port s \<longleftrightarrow> map snd (sh_taken s) = numbers 1 (length (sh_taken s))
     \<and> pb_sequence_counter (sh_builder s) = 1 + of_nat (length (sh_taken s))
     \<and> (\<forall>i. subseq (sent_by i s @ held (sh_phase s i)) (taken_by i s))
     \<and> (\<forall>(i, p, q) \<in> set (sh_wire s). p = port i)"

lemma sent_taken_simps [simp]:
  "sent_by i (set_phase j p s) = sent_by i s" "taken_by i (set_phase j p s) = taken_by i s"
  "taken_by i (s\<lparr>sh_builder := b\<rparr>) = taken_by i s" "sent_by i (s\<lparr>sh_builder := b\<rparr>) = sent_by i s"
  "sent_by i (s\<lparr>sh_taken := tk\<rparr>) = sent_by i s" "taken_by i (s\<lparr>sh_wire := w\<rparr>) = taken_by i s"
  by (simp_all add: sent_by_def taken_by_def)

lemma subseq_drop_mid:
  assumes "subseq (xs @ q # qs) ys"
  shows "subseq (xs @ qs) ys"
proof -
  have "subseq (xs @ qs) (xs @ q # qs)"
    by (rule list_emb_append_mono [OF subseq_order.refl list_emb_Cons [OF subseq_order.refl]])
  then show ?thesis using assms by (rule subseq_order.trans)
qed

lemma subseq_drop_end:
  assumes "subseq (xs @ qs) ys"
  shows "subseq xs ys"
proof -
  have "subseq (xs @ []) (xs @ qs)" by (rule list_emb_append_mono [OF subseq_order.refl list_emb_Nil])
  then show ?thesis using subseq_order.trans [OF _ assms] by simp
qed

lemma sound_phase: "sound port s \<Longrightarrow> subseq (sent_by i s @ held (sh_phase s i)) (taken_by i s)"
  by (simp add: sound_def)

lemma numbers_Suc: "numbers q (Suc n) = numbers q n @ [q + of_nat n]"
  by (simp add: numbers_def)

lemma sound_step: "feeder_step port s t \<Longrightarrow> sound port s \<Longrightarrow> sound port t"
proof (induction rule: feeder_step.induct)
  case (number s i n qs q b)
  let ?t = "(set_phase i (Building n (qs @ [q])) s)\<lparr>sh_builder := b, sh_taken := sh_taken s @ [(i, q)]\<rparr>"
  have q: "q = 1 + of_nat (length (sh_taken s))" "pb_sequence_counter b = q + 1"
    using number by (auto simp: sound_def fetch_add_def)
  have old: "subseq (sent_by j s @ held (sh_phase s j)) (taken_by j s)" for j using number.prems by (simp add: sound_def)
  have t: "taken_by j ?t = taken_by j s @ (if j = i then [q] else [])" "sent_by j ?t = sent_by j s" for j
    by (simp_all add: taken_by_def sent_by_def)
  have "subseq (sent_by j ?t @ held (sh_phase ?t j)) (taken_by j ?t)" for j
  proof (cases "j = i")
    case True
    have "subseq ((sent_by i s @ qs) @ [q]) (taken_by i s @ [q])"
      using old [of i] number.hyps(1) unfolding subseq_append by simp
    then show ?thesis using True unfolding t by simp
  next
    case False
    then show ?thesis using old [of j] unfolding t by simp
  qed
  moreover have "map snd (sh_taken ?t) = numbers 1 (length (sh_taken ?t))"
    using number.prems q(1) by (simp add: sound_def numbers_Suc)
  moreover have "pb_sequence_counter (sh_builder ?t) = 1 + of_nat (length (sh_taken ?t))" using q by simp
  moreover have "\<forall>(j, p, q) \<in> set (sh_wire ?t). p = port j" using number.prems by (simp add: sound_def)
  ultimately show ?case unfolding sound_def by blast
next
  case (lose s i q qs)
  have "subseq (sent_by i s @ q # qs) (taken_by i s)" using sound_phase [OF lose.prems, of i] lose.hyps by simp
  then have "subseq (sent_by i s @ qs) (taken_by i s)" by (rule subseq_drop_mid)
  then show ?case using lose.prems by (simp add: sound_def)
next
  case (fail s i q qs)
  have "subseq (sent_by i s @ q # qs) (taken_by i s)" using sound_phase [OF fail.prems, of i] fail.hyps by simp
  then have "subseq (sent_by i s) (taken_by i s)" by (rule subseq_drop_end)
  then show ?case using fail.prems by (simp add: sound_def)
next
  case (receive s i n)
  then show ?case using sound_phase [OF receive.prems, of i] by (simp add: sound_def)
next
  case (built s i qs)
  then show ?case using sound_phase [OF built.prems, of i] by (simp add: sound_def)
next
  case (put s i q qs)
  let ?t = "(set_phase i (Sending qs) s)\<lparr>sh_wire := sh_wire s @ [(i, port i, q)]\<rparr>"
  have t: "sent_by j ?t = sent_by j s @ (if j = i then [q] else [])" "taken_by j ?t = taken_by j s" for j
    by (simp_all add: sent_by_def taken_by_def)
  have "subseq (sent_by j ?t @ held (sh_phase ?t j)) (taken_by j ?t)" for j
    using sound_phase [OF put.prems, of j] put.hyps unfolding t by (cases "j = i") simp_all
  then show ?case using put.prems by (simp add: sound_def)
next
  case (sent s i)
  then show ?case using sound_phase [OF sent.prems, of i] by (simp add: sound_def)
qed

lemma reachable_sound: "reachable port s \<Longrightarrow> sound port s"
proof (induction rule: reachable.induct)
  case start
  show ?case by (simp add: sound_def shared_start_def packet_builder_new_def sent_by_def taken_by_def)
next
  case (step s t)
  then show ?case by (blast intro: sound_step)
qed

section \<open>Uniqueness and order\<close>

lemma numbers_strict:
  assumes "n < 2 ^ 64"
  shows "sorted_wrt (<) (map unat (numbers 1 n))"
proof -
  have "unat (1 + of_nat i :: u64) = Suc i" if "i < n" for i
    using that assms unat_of_nat_small [of "Suc i", where 'a = 64] by simp
  then have "map unat (numbers 1 n) = map Suc [0..<n]" by (simp add: numbers_def)
  then show ?thesis by (simp add: sorted_wrt_map)
qed

lemma subseq_elem: "subseq xs ys \<Longrightarrow> x \<in> set xs \<Longrightarrow> x \<in> set ys"
  by (erule list_emb_set, assumption) simp

lemma sorted_wrt_subseq: "subseq xs ys \<Longrightarrow> sorted_wrt P ys \<Longrightarrow> sorted_wrt P xs"
  by (induction rule: list_emb.induct) (auto dest: subseq_elem)

lemma taken_by_subseq: "subseq (taken_by i s) (map snd (sh_taken s))"
  unfolding taken_by_def by (intro subseq_map subseq_filter_left)

lemma sent_strict:
  assumes "sound port s" "length (sh_taken s) < 2 ^ 64"
  shows "sorted_wrt (<) (map unat (sent_by i s))"
proof -
  have "subseq (sent_by i s) (taken_by i s)" using assms(1) subseq_drop_end unfolding sound_def by blast
  then have "subseq (sent_by i s) (map snd (sh_taken s))" using taken_by_subseq by (rule subseq_order.trans)
  then have "subseq (map unat (sent_by i s)) (map unat (numbers 1 (length (sh_taken s))))"
    using assms(1) unfolding sound_def by (metis subseq_map)
  then show ?thesis using numbers_strict [OF assms(2)] by (rule sorted_wrt_subseq)
qed

lemma distinct_by_parts:
  assumes "\<And>i. distinct (map g (filter (\<lambda>x. f x = i) xs))" "\<And>x y. x \<in> set xs \<Longrightarrow> y \<in> set xs \<Longrightarrow> g x = g y \<Longrightarrow> f x = f y"
  shows "distinct (map g xs)"
  using assms
proof (induction xs)
  case (Cons x xs)
  have "distinct (map g (filter (\<lambda>x. f x = i) xs))" for i using Cons.prems(1) [of i] by (auto split: if_splits)
  then have "distinct (map g xs)" by (rule Cons.IH) (use Cons.prems(2) in auto)
  moreover have "g x \<notin> g ` set xs"
  proof
    assume "g x \<in> g ` set xs"
    then obtain y where "y \<in> set xs" "g y = g x" by auto
    moreover from this have "f y = f x" using Cons.prems(2) by simp
    ultimately show False using Cons.prems(1) [of "f x"] by (auto simp: image_iff)
  qed
  ultimately show ?case by simp
qed simp


text \<open>Two sessions, one message each: the first takes the numbers 1 and 3, the second the number 2.\<close>

definition two_ports :: "nat \<Rightarrow> nat" where
  "two_ports i = (if i = 0 then 55556 else 55557)"

lemma reachable_run: "(feeder_step port)\<^sup>*\<^sup>* s t \<Longrightarrow> reachable port s \<Longrightarrow> reachable port t"
  by (induction rule: rtranclp_induct) (auto intro: reachable.step)

lemma interleaved_run:
  "\<exists>s. reachable two_ports s \<and> sh_phase s = (\<lambda>_. Waiting)
     \<and> sh_wire s = [(0, 55556, 1), (0, 55556, 3), (1, 55557, 2)] \<and> sh_taken s = [(0, 1), (1, 2), (0, 3)]"
proof -
  let ?take = "\<lambda>i n qs q s. (set_phase i (Building n (qs @ [q])) s)\<lparr>sh_builder := (sh_builder s)\<lparr>pb_sequence_counter := q + 1\<rparr>,
      sh_taken := sh_taken s @ [(i, q)]\<rparr>"
  let ?put = "\<lambda>i q qs s. (set_phase i (Sending qs) s)\<lparr>sh_wire := sh_wire s @ [(i, two_ports i, q)]\<rparr>"
  have take: "feeder_step two_ports s (?take i n qs q s)"
    if "sh_phase s i = Building (Suc n) qs" "pb_sequence_counter (sh_builder s) = q" for s i n qs q
    using feeder_step.number [OF that(1)] that(2) by (simp add: fetch_add_def)
  let ?s1 = "set_phase 0 (Building (Suc (Suc 0)) []) shared_start"
  let ?s2 = "set_phase 1 (Building (Suc 0) []) ?s1"
  let ?s3 = "?take 0 (Suc 0) [] 1 ?s2" let ?s4 = "?take 1 0 [] 2 ?s3" let ?s5 = "?take 0 0 [1] 3 ?s4"
  let ?s6 = "set_phase 0 (Sending [1, 3]) ?s5" let ?s7 = "set_phase 1 (Sending [2]) ?s6"
  let ?s8 = "?put 0 1 [3] ?s7" let ?s9 = "?put 0 3 [] ?s8" let ?s10 = "set_phase 0 Waiting ?s9"
  let ?s11 = "?put 1 2 [] ?s10" let ?s12 = "set_phase 1 Waiting ?s11"
  have "feeder_step two_ports shared_start ?s1" by (rule feeder_step.receive) (simp add: shared_start_def)
  moreover have "feeder_step two_ports ?s1 ?s2" by (rule feeder_step.receive) (simp add: shared_start_def)
  ultimately have "reachable two_ports ?s2" by (blast intro: reachable.intros)
  moreover have "feeder_step two_ports ?s2 ?s3" "feeder_step two_ports ?s3 ?s4" "feeder_step two_ports ?s4 ?s5"
    by (rule take; simp add: shared_start_def packet_builder_new_def)+
  ultimately have "reachable two_ports ?s5" by (blast intro: reachable.step)
  moreover have "feeder_step two_ports ?s5 ?s6" "feeder_step two_ports ?s6 ?s7"
    by (rule feeder_step.built; simp)+
  ultimately have "reachable two_ports ?s7" by (blast intro: reachable.step)
  moreover have "feeder_step two_ports ?s7 ?s8" "feeder_step two_ports ?s8 ?s9" by (rule feeder_step.put; simp)+
  moreover have "feeder_step two_ports ?s9 ?s10" by (rule feeder_step.sent) simp
  ultimately have "reachable two_ports ?s10" by (blast intro: reachable.step)
  moreover have "feeder_step two_ports ?s10 ?s11" by (rule feeder_step.put) simp
  moreover have "feeder_step two_ports ?s11 ?s12" by (rule feeder_step.sent) simp
  ultimately have "reachable two_ports ?s12" by (blast intro: reachable.step)
  moreover have "sh_phase ?s12 = (\<lambda>_. Waiting)" by (simp add: shared_start_def fun_eq_iff)
  ultimately show ?thesis
    by (intro exI [of _ ?s12]) (simp add: shared_start_def two_ports_def)
qed



section \<open>A session is a run\<close>

lemma run_numbers:
  "sh_phase s i = Building n qs \<Longrightarrow>
   \<exists>s'. (feeder_step port)\<^sup>*\<^sup>* s s' \<and> sh_phase s' = (sh_phase s)(i := Building 0 (qs @ numbers (pb_sequence_counter (sh_builder s)) n))
     \<and> sh_wire s' = sh_wire s
     \<and> pb_sequence_counter (sh_builder s') = pb_sequence_counter (sh_builder s) + of_nat n"
proof (induction n arbitrary: s qs)
  case 0
  then show ?case by (intro exI [of _ s]) (simp add: fun_upd_idem)
next
  case (Suc n)
  let ?q = "pb_sequence_counter (sh_builder s)"
  let ?b = "(sh_builder s)\<lparr>pb_sequence_counter := ?q + 1\<rparr>"
  let ?t = "(set_phase i (Building n (qs @ [?q])) s)\<lparr>sh_builder := ?b, sh_taken := sh_taken s @ [(i, ?q)]\<rparr>"
  have step: "feeder_step port s ?t" by (rule feeder_step.number [OF Suc.prems]) (simp add: fetch_add_def)
  have "sh_phase ?t i = Building n (qs @ [?q])" by simp
  from Suc.IH [OF this] obtain s' where s': "(feeder_step port)\<^sup>*\<^sup>* ?t s'"
      "sh_phase s' = (sh_phase ?t)(i := Building 0 ((qs @ [?q]) @ numbers (pb_sequence_counter (sh_builder ?t)) n))"
      "sh_wire s' = sh_wire ?t"
      "pb_sequence_counter (sh_builder s') = pb_sequence_counter (sh_builder ?t) + of_nat n" by blast
  have "numbers ?q (Suc n) = ?q # numbers (?q + 1) n" using numbers_add [of ?q 1 n] by (simp add: numbers_def)
  then show ?case
    using s' converse_rtranclp_into_rtranclp [of "feeder_step port", OF step s'(1)] by (intro exI [of _ s']) simp
qed

lemma run_first:
  "feeder_step port s t \<Longrightarrow> \<exists>s'. (feeder_step port)\<^sup>*\<^sup>* t s' \<and> P s' \<Longrightarrow> \<exists>s'. (feeder_step port)\<^sup>*\<^sup>* s s' \<and> P s'"
  by (blast intro: converse_rtranclp_into_rtranclp)

lemma run_sends:
  assumes "subseq vs qs" "sh_phase s i = Sending qs"
  shows "\<exists>s'. (feeder_step port)\<^sup>*\<^sup>* s s' \<and> sh_phase s' = (sh_phase s)(i := Sending [])
     \<and> sh_wire s' = sh_wire s @ map (\<lambda>q. (i, port i, q)) vs \<and> sh_builder s' = sh_builder s"
  using assms
proof (induction vs qs arbitrary: s rule: list_emb.induct)
  case (list_emb_Nil qs)
  then show ?case
  proof (induction qs arbitrary: s)
    case Nil
    then show ?case by (intro exI [of _ s]) (simp add: fun_upd_idem)
  next
    case (Cons q qs)
    have "sh_phase (set_phase i (Sending qs) s) i = Sending qs" by simp
    from Cons.IH [OF this, unfolded set_phase_simps fun_upd_upd] show ?case
      by (rule run_first [OF feeder_step.lose [OF Cons.prems]])
  qed
next
  case (list_emb_Cons vs qs q)
  have "sh_phase (set_phase i (Sending qs) s) i = Sending qs" by simp
  from list_emb_Cons.IH [OF this, unfolded set_phase_simps fun_upd_upd] show ?case
    by (rule run_first [OF feeder_step.lose [OF list_emb_Cons.prems]])
next
  case (list_emb_Cons2 v q vs qs)
  let ?t = "(set_phase i (Sending qs) s)\<lparr>sh_wire := sh_wire s @ [(i, port i, q)]\<rparr>"
  have "sh_phase ?t i = Sending qs" by simp
  from list_emb_Cons2.IH [OF this] obtain s' where s': "(feeder_step port)\<^sup>*\<^sup>* ?t s'"
    "sh_phase s' = (sh_phase ?t)(i := Sending [])" "sh_wire s' = sh_wire ?t @ map (\<lambda>q. (i, port i, q)) vs"
    "sh_builder s' = sh_builder ?t" by blast
  have "sh_phase s' = (sh_phase s)(i := Sending [])" "sh_builder s' = sh_builder s"
    "sh_wire s' = sh_wire s @ map (\<lambda>q. (i, port i, q)) (v # vs)"
    using s'(2-4) list_emb_Cons2.hyps by (simp_all add: fun_eq_iff)
  then show ?case using feeder_step.put [OF list_emb_Cons2.prems, of port] s'(1) by (blast intro: converse_rtranclp_into_rtranclp)
qed

lemma grows_run:
  assumes "grows (port i) st st'" "sh_phase s i = Waiting"
    and "pb_sequence_counter (sh_builder s) = pb_sequence_counter (fd_builder st)"
  shows "\<exists>s' ws. (feeder_step port)\<^sup>*\<^sup>* s s' \<and> sh_phase s' = sh_phase s
     \<and> um_wire (fd_udp st') = um_wire (fd_udp st) @ map (Pair (port i)) ws
     \<and> sh_wire s' = sh_wire s @ map (\<lambda>d. (i, port i, seq_of d)) ws
     \<and> pb_sequence_counter (sh_builder s') = pb_sequence_counter (fd_builder st')"
proof -
  obtain n ws where g: "pb_sequence_counter (fd_builder st') = pb_sequence_counter (fd_builder st) + of_nat n"
     "um_wire (fd_udp st') = um_wire (fd_udp st) @ map (Pair (port i)) ws"
     "subseq (map seq_of ws) (numbers (pb_sequence_counter (fd_builder st)) n)"
    using assms(1) by (auto simp: grows_def)
  let ?ns = "numbers (pb_sequence_counter (sh_builder s)) n"
  let ?s1 = "set_phase i (Building n []) s"
  have "sh_phase ?s1 i = Building n []" by simp
  from run_numbers [OF this, of port] obtain s2 where s2: "(feeder_step port)\<^sup>*\<^sup>* ?s1 s2"
      "sh_phase s2 = (sh_phase s)(i := Building 0 ?ns)" "sh_wire s2 = sh_wire s"
      "pb_sequence_counter (sh_builder s2) = pb_sequence_counter (fd_builder st')" using assms(3) g(1) by auto
  let ?s3 = "set_phase i (Sending ?ns) s2"
  have "sh_phase ?s3 i = Sending ?ns" by simp
  from run_sends [OF g(3) [folded assms(3)] this, of port] obtain s4 where s4: "(feeder_step port)\<^sup>*\<^sup>* ?s3 s4"
      "sh_phase s4 = (sh_phase s)(i := Sending [])"
      "sh_wire s4 = sh_wire s @ map (\<lambda>d. (i, port i, seq_of d)) ws" "sh_builder s4 = sh_builder s2"
    using s2 by (auto simp: comp_def)
  let ?s5 = "set_phase i Waiting s4"
  have "feeder_step port s ?s1" using assms(2) by (rule feeder_step.receive)
  moreover have "feeder_step port s2 ?s3" by (rule feeder_step.built) (simp add: s2)
  moreover have "feeder_step port s4 ?s5" by (rule feeder_step.sent) (simp add: s4)
  ultimately have "(feeder_step port)\<^sup>*\<^sup>* s ?s5"
    using s2(1) s4(1) by (meson converse_rtranclp_into_rtranclp rtranclp.rtrancl_into_rtrancl rtranclp_trans)
  then show ?thesis
    using s2 s4 g(2) assms(2) by (intro exI [of _ ?s5] exI [of _ ws]) (simp add: fun_upd_idem)
qed

text \<open>The model of one session refines the step relation: from any shared state in which a task waits and the
  counter is the one of the session, the whole session is a run of the task, with the same
  datagrams on the wire and the same counter in the end. So what holds of all runs holds for every
  session that is not interrupted.\<close>

theorem session_refines_steps:
  assumes "sh_phase s i = Waiting" "port i = se_port session"
    and "pb_sequence_counter (sh_builder s) = pb_sequence_counter (fd_builder st)"
  shows "\<exists>r st' s' ws. manage_symbol_session env name session attempts k rc st = Some (r, st')
     \<and> (feeder_step port)\<^sup>*\<^sup>* s s' \<and> sh_phase s' = sh_phase s
     \<and> um_wire (fd_udp st') = um_wire (fd_udp st) @ map (Pair (se_port session)) ws
     \<and> sh_wire s' = sh_wire s @ map (\<lambda>d. (i, se_port session, seq_of d)) ws
     \<and> pb_sequence_counter (sh_builder s') = pb_sequence_counter (fd_builder st')"
proof -
  obtain r st' where m: "manage_symbol_session env name session attempts k rc st = Some (r, st')" "grows (port i) st st'"
    using wire.managed [OF assms(2) [symmetric]] by blast
  from grows_run [where port = port and i = i, OF m(2) assms(1,3)] show ?thesis using m(1) assms(2) by auto
qed

text \<open>A session of one symbol that never gets a connection, from the start of the program.\<close>

definition sample_feeder_env :: feeder_env where
  "sample_feeder_env =
     \<lparr> fe_build = \<lparr> clk = (\<lambda>n. int n), ts_order = (\<lambda>_ ks. ks), key_order = (\<lambda>_ ks. ks) \<rparr>,
       fe_net = (\<lambda>_. good_os 0), fe_from_slice = (\<lambda>_. None), fe_url_ok = (\<lambda>_. True), fe_subscribe = (\<lambda>_. None),
       fe_debug = False, fe_now = (\<lambda>_. 0) \<rparr>"

definition sample_session :: symbol_session where
  "sample_session = \<lparr> se_symbols = [''BTC^USDT''], se_is_btc_session = True, se_port = 55556 \<rparr>"

definition sample_feeder :: feeder where
  "sample_feeder =
     \<lparr> fd_config = \<lparr> cf_exchanges = [], cf_symbols = [], cf_udp = sample_udp,
         cf_logging = \<lparr> lc_level = ''info'', lc_file_path = None \<rparr>, cf_runtime_threads = None,
         cf_metrics = \<lparr> mc_enabled = False, mc_interval_secs = 60 \<rparr>, cf_symbol_config = None, cf_endpoint_config = None \<rparr>,
       fd_parser = \<lparr> dp_parsers = [] \<rparr>, fd_builder = packet_builder_new, fd_udp = sample_multicaster,
       fd_sends = 0, fd_parses = 0, fd_events = [], fd_sleeps = [] \<rparr>"

theorem session_refines_steps_witness:
  "\<exists>r st' s' ws. manage_symbol_session sample_feeder_env ''BinanceSpot'' sample_session (\<lambda>_. Inl 404) 0 0 sample_feeder = Some (r, st')
     \<and> (feeder_step two_ports)\<^sup>*\<^sup>* shared_start s' \<and> sh_phase s' = (\<lambda>_. Waiting)
     \<and> um_wire (fd_udp st') = map (Pair 55556) ws \<and> sh_wire s' = map (\<lambda>d. (0, 55556, seq_of d)) ws"
proof -
  have at_start: "sh_phase shared_start = (\<lambda>_. Waiting)" "sh_wire shared_start = []"
    "um_wire (fd_udp sample_feeder) = []" "two_ports 0 = se_port sample_session" "se_port sample_session = 55556"
    "pb_sequence_counter (sh_builder shared_start) = pb_sequence_counter (fd_builder sample_feeder)"
    by (simp_all add: shared_start_def two_ports_def sample_session_def sample_feeder_def sample_multicaster_def)
  then have "sh_phase shared_start 0 = Waiting" by simp
  from session_refines_steps [where s = shared_start and i = 0 and port = two_ports and session = sample_session
      and st = sample_feeder and env = sample_feeder_env and name = "''BinanceSpot''" and attempts = "\<lambda>_. Inl 404"
      and k = 0 and rc = 0, OF this at_start(4,6)]
  show ?thesis unfolding at_start append_Nil by blast
qed

end
