(* ===== verification/Task_Schedule.thy ===== *)
theory Task_Schedule
  imports Interleaving Tool_Properties Feeder_Main
begin

text \<open>
  All tasks on the shared state, message by message. Between two messages, events or pauses the
  scheduler may run any other task; within one nothing waits, since sending on the non-blocking socket
  is not a suspension point. So on one worker thread the tasks are the runs of \<open>tasks_step\<close>. The
  functions of a task are such runs, and such runs are runs of the atomic steps of \<open>Interleaving\<close>,
  which also cover several worker threads.
\<close>

section \<open>Steps\<close>

text \<open>A session has its own port, a whole exchange uses that of the configuration.\<close>

fun port_of :: "nat \<Rightarrow> task \<Rightarrow> nat" where
  "port_of usual (SymbolTask name k session) = se_port session"
| "port_of usual (ExchangeTask ec) = usual"

definition ports :: "feeder \<Rightarrow> task list \<Rightarrow> nat \<Rightarrow> nat" where
  "ports st tasks i = port_of (um_target_port (fd_udp st)) (tasks ! i)"

inductive tasks_step :: "feeder_env \<Rightarrow> task list \<Rightarrow> feeder \<Rightarrow> feeder \<Rightarrow> bool" for env tasks where
  message: "SymbolTask name k session \<in> set tasks \<Longrightarrow>
    tasks_step env tasks st (snd (process_and_send_to_port env name data (se_port session) st))"
| event: "SymbolTask name k session \<in> set tasks \<Longrightarrow> (a, b) \<in> announcements \<Longrightarrow>
    tasks_step env tasks st (notify env name a b rc (se_port session) st)"
| exchange: "ExchangeTask ec \<in> set tasks \<Longrightarrow> tasks_step env tasks st (snd (process_message env (ec_name ec) data st))"
| pause: "t \<in> set tasks \<Longrightarrow> tasks_step env tasks st (sleep d st)"

inductive_cases tasks_stepE: "tasks_step env tasks st st'"

abbreviation tasks_run :: "feeder_env \<Rightarrow> task list \<Rightarrow> feeder \<Rightarrow> feeder \<Rightarrow> bool" where
  "tasks_run env tasks \<equiv> (tasks_step env tasks)\<^sup>*\<^sup>*"

text \<open>Every step belongs to a task and has the effect of a step of this task on its port.\<close>

lemma task_grows:
  assumes "t \<in> set tasks" "grows (port_of (um_target_port (fd_udp st)) t) st st'"
  shows "\<exists>i < length tasks. grows (ports st tasks i) st st'"
  using assms by (auto simp: in_set_conv_nth ports_def)

lemma step_grows: "tasks_step env tasks st st' \<Longrightarrow> \<exists>i < length tasks. grows (ports st tasks i) st st'"
proof (erule tasks_stepE)
  fix name k session data
  assume t: "SymbolTask name k session \<in> set tasks"
    and "st' = snd (process_and_send_to_port env name data (se_port session) st)"
  then have "grows (port_of (um_target_port (fd_udp st)) (SymbolTask name k session)) st st'"
    using process_effect by simp
  then show ?thesis by (rule task_grows [OF t])
next
  fix name k session a b rc
  assume t: "SymbolTask name k session \<in> set tasks" and "st' = notify env name a b rc (se_port session) st"
  then have "grows (port_of (um_target_port (fd_udp st)) (SymbolTask name k session)) st st'"
    using notify_effect(1) by simp
  then show ?thesis by (rule task_grows [OF t])
next
  fix ec data
  assume t: "ExchangeTask ec \<in> set tasks" and "st' = snd (process_message env (ec_name ec) data st)"
  then have "grows (port_of (um_target_port (fd_udp st)) (ExchangeTask ec)) st st'"
    using process_effect by (simp add: process_message_default)
  then show ?thesis by (rule task_grows [OF t])
next
  fix t d
  assume t: "t \<in> set tasks" and "st' = sleep d st"
  then have "grows (port_of (um_target_port (fd_udp st)) t) st st'"
    by (intro grows_same) (simp_all add: sleep_def)
  then show ?thesis by (rule task_grows [OF t])
qed

lemma step_ports: "tasks_step env tasks st st' \<Longrightarrow> ports st' = ports st"
  using process_effect notify_effect(6)
  by (auto elim!: tasks_stepE simp: fun_eq_iff ports_def process_message_default quiet_def sleep_def)

lemma run_ports: "tasks_run env tasks st st' \<Longrightarrow> ports st' = ports st"
  by (induction rule: rtranclp_induct) (auto dest: step_ports)

section \<open>A task is a run\<close>

lemma session_relation_run:
  assumes "SymbolTask name k session \<in> set tasks"
  shows "session_relation (tasks_run env tasks) env name (se_port session)"
proof unfold_locales
  show "tasks_run env tasks st (snd (process_and_send_to_port env name data (se_port session) st))" for st data
    by (rule r_into_rtranclp) (rule tasks_step.message [OF assms])
  show "tasks_run env tasks st (notify env name a b rc (se_port session) st)" if "(a, b) \<in> announcements" for a b st rc
    by (rule r_into_rtranclp) (rule tasks_step.event [OF assms that])
  show "tasks_run env tasks st (sleep d st)" for st d by (rule r_into_rtranclp) (rule tasks_step.pause [OF assms])
qed auto

interpretation scheduled_session:
  session_relation "tasks_run env (before @ SymbolTask name k session # after)" env name "se_port session"
  for env before name k session after
  by (rule session_relation_run [where k = k]) simp

interpretation scheduled_exchange: exchange_relation "tasks_run env (before @ ExchangeTask ec # after)" env ec
  for env before ec after
proof unfold_locales
  let ?tasks = "before @ ExchangeTask ec # after"
  have t: "ExchangeTask ec \<in> set ?tasks" by simp
  show "tasks_run env ?tasks st (snd (process_message env (ec_name ec) data st))" for st data
    by (rule r_into_rtranclp) (rule tasks_step.exchange [OF t])
  show "tasks_run env ?tasks st (sleep d st)" for st d by (rule r_into_rtranclp) (rule tasks_step.pause [OF t])
qed auto


section \<open>The wire of all tasks\<close>

text \<open>Datagrams with the task they come from.\<close>

definition on_ports :: "(nat \<Rightarrow> nat) \<Rightarrow> (nat \<times> u8 list) list \<Rightarrow> (nat \<times> u8 list) list" where
  "on_ports port ws = map (\<lambda>(i, d). (port i, d)) ws"

definition grows_all :: "(nat \<Rightarrow> nat) \<Rightarrow> nat \<Rightarrow> feeder \<Rightarrow> feeder \<Rightarrow> bool" where
  "grows_all port m st st' \<longleftrightarrow> (\<exists>n ws.
     pb_sequence_counter (fd_builder st') = pb_sequence_counter (fd_builder st) + of_nat n
     \<and> um_wire (fd_udp st') = um_wire (fd_udp st) @ on_ports port ws
     \<and> subseq (map (seq_of \<circ> snd) ws) (numbers (pb_sequence_counter (fd_builder st)) n)
     \<and> list_all (intact \<circ> snd) ws \<and> list_all ((\<lambda>i. i < m) \<circ> fst) ws)"

lemma on_ports_task: "on_ports port (map (Pair i) ds) = map (Pair (port i)) ds"
  by (simp add: on_ports_def)

lemma on_ports_append [simp]: "on_ports port (vs @ ws) = on_ports port vs @ on_ports port ws"
  by (simp add: on_ports_def)

lemma grows_all_step:
  assumes "grows_all port m a b" "i < m" "grows (port i) b c"
  shows "grows_all port m a c"
proof -
  obtain k vs where "pb_sequence_counter (fd_builder b) = pb_sequence_counter (fd_builder a) + of_nat k"
    "um_wire (fd_udp b) = um_wire (fd_udp a) @ on_ports port vs"
    "subseq (map (seq_of \<circ> snd) vs) (numbers (pb_sequence_counter (fd_builder a)) k)"
    "list_all (intact \<circ> snd) vs" "list_all ((\<lambda>i. i < m) \<circ> fst) vs"
    using assms(1) unfolding grows_all_def by blast
  moreover obtain n ds where "pb_sequence_counter (fd_builder c) = pb_sequence_counter (fd_builder b) + of_nat n"
    "um_wire (fd_udp c) = um_wire (fd_udp b) @ map (Pair (port i)) ds"
    "subseq (map seq_of ds) (numbers (pb_sequence_counter (fd_builder b)) n)" "list_all intact ds"
    using assms(3) unfolding grows_def by blast
  moreover have "list_all ((\<lambda>i. i < m) \<circ> fst) (map (Pair i) ds)" using assms(2) by (simp add: list_all_iff)
  ultimately show ?thesis
    unfolding grows_all_def
    by (intro exI [of _ "k + n"] exI [of _ "vs @ map (Pair i) ds"])
      (simp add: numbers_add list_emb_append_mono add.assoc on_ports_task comp_def list.pred_map)
qed

lemma run_grows: "tasks_run env tasks st st' \<Longrightarrow> grows_all (ports st tasks) (length tasks) st st'"
proof (induction rule: rtranclp_induct)
  case base
  show ?case unfolding grows_all_def by (intro exI [of _ 0] exI [of _ "[]"]) (simp add: on_ports_def)
next
  case (step b c)
  obtain i where "i < length tasks" "grows (ports b tasks i) b c" using step_grows [OF step.hyps(2)] by blast
  then show ?case using grows_all_step [OF step.IH] run_ports [OF step.hyps(1)] by simp
qed

lemma numbers_increase:
  assumes "unat q + n \<le> 2 ^ 64"
  shows "sorted_wrt (<) (map unat (numbers q n))"
proof -
  have "unat (q + of_nat i) = unat q + i" if "i < n" for i
    using that assms unat_of_nat_small [of "unat q + i", where 'a = 64] by simp
  then have "map unat (numbers q n) = map ((+) (unat q)) [0..<n]" by (simp add: numbers_def)
  then show ?thesis by (simp add: sorted_wrt_map)
qed


text \<open>Every datagram that any schedule puts on the wire is accepted by the receiving tools.\<close>

lemma intact_accepted: "intact d \<Longrightarrow> length d \<le> 1347 \<and> 67 \<le> length d \<and> snd (fst (on_datagram d now ds)) = Inr ()"
  using well_formed_fits(1,2) [of "seq_of d" "\<lparr> u_data = d, u_size = length d \<rparr>"]
    decode_well_formed [of "seq_of d" "\<lparr> u_data = d, u_size = length d \<rparr>"] by (simp add: intact_def)

lemma all_tasks_accepted:
  assumes "tasks_run env tasks st st'" "um_wire (fd_udp st) = []"
  shows "list_all (\<lambda>(p, d). intact d \<and> length d \<le> 1347 \<and> snd (fst (on_datagram d now ds)) = Inr ()
       \<and> p \<in> set (map (port_of (um_target_port (fd_udp st))) tasks)) (um_wire (fd_udp st'))"
    and "c_total (counter_loop (map (\<lambda>(p, d). Datagram d) (um_wire (fd_udp st')))) = of_nat (length (um_wire (fd_udp st')))"
proof -
  obtain ws where w: "um_wire (fd_udp st') = on_ports (ports st tasks) ws" "list_all (intact \<circ> snd) ws"
     "list_all ((\<lambda>i. i < length tasks) \<circ> fst) ws"
    using run_grows [OF assms(1)] assms(2) unfolding grows_all_def by auto
  have "filter (\<lambda>d. 67 \<le> length d) (map snd ws) = map snd ws"
    using w(2) intact_accepted by (auto simp: filter_id_conv list_all_iff)
  then have "c_total (counter_loop (map Datagram (map snd ws))) = of_nat (length ws)"
    unfolding counter_loop_counts(2) by simp
  moreover have "map (\<lambda>(p, d). Datagram d) (um_wire (fd_udp st')) = map Datagram (map snd ws)"
    by (simp add: w(1) on_ports_def comp_def case_prod_unfold)
  moreover have "length (um_wire (fd_udp st')) = length ws" by (simp add: w(1) on_ports_def)
  ultimately show "c_total (counter_loop (map (\<lambda>(p, d). Datagram d) (um_wire (fd_udp st')))) = of_nat (length (um_wire (fd_udp st')))"
    by (simp only:)
  show "list_all (\<lambda>(p, d). intact d \<and> length d \<le> 1347 \<and> snd (fst (on_datagram d now ds)) = Inr ()
       \<and> p \<in> set (map (port_of (um_target_port (fd_udp st))) tasks)) (um_wire (fd_udp st'))"
    using w(2,3) intact_accepted [where now = now and ds = ds] by (auto simp: w(1) on_ports_def list_all_iff ports_def)
qed

section \<open>Message by message is step by step\<close>


section \<open>A run of two sessions\<close>

text \<open>Each of two sessions announces that it is connecting.\<close>

definition two_sessions :: "task list" where
  "two_sessions = map (\<lambda>i. SymbolTask ''BinanceSpot'' i (sample_session\<lparr>se_port := two_ports i\<rparr>)) [0, 1]"

lemma announced_good:
  assumes "fe_net env = (\<lambda>_. good_os k)" "usable port (fd_udp st)"
  shows "\<exists>d. um_wire (fd_udp (announced env name (sample_session\<lparr>se_port := port\<rparr>) rc st)) = um_wire (fd_udp st) @ [(port, d)]
     \<and> seq_of d = pb_sequence_counter (fd_builder st)"
    and "usable q (fd_udp st) \<Longrightarrow> usable q (fd_udp (announced env name (sample_session\<lparr>se_port := port\<rparr>) rc st))"
proof -
  let ?a = CONNECTION_STATUS_DISCONNECTED let ?b = CONNECTION_STATUS_CONNECTING
  obtain p s' where p: "well_formed (pb_sequence_counter (fd_builder st)) p" "notify env name ?a ?b rc port st =
       snd (send_all (send_on_port env port) [p] (st\<lparr>fd_events := fd_events st @ [(?a, ?b, rc, port)], fd_builder := s'\<rparr>))"
    by (rule notify_built [of st env name ?a ?b rc port])
  let ?st = "st\<lparr>fd_events := fd_events st @ [(?a, ?b, rc, port)], fd_builder := s'\<rparr>"
  have "usable port (fd_udp ?st)" using assms(2) by simp
  from send_all_good [OF assms(1) this, of "[p]"] obtain st' where st': "send_all (send_on_port env port) [p] ?st = (Ok (), st')"
     "um_wire (fd_udp st') = um_wire (fd_udp st) @ [(port, u_data p)]" "\<forall>q. usable q (fd_udp st) \<longrightarrow> usable q (fd_udp st')"
    by auto
  then have n: "announced env name (sample_session\<lparr>se_port := port\<rparr>) rc st = st'" using p(2) by (simp add: announced_def)
  show "\<exists>d. um_wire (fd_udp (announced env name (sample_session\<lparr>se_port := port\<rparr>) rc st)) = um_wire (fd_udp st) @ [(port, d)]
     \<and> seq_of d = pb_sequence_counter (fd_builder st)"
    using well_formed_seq [OF p(1)] unfolding n st'(2) by blast
  show "usable q (fd_udp st) \<Longrightarrow> usable q (fd_udp (announced env name (sample_session\<lparr>se_port := port\<rparr>) rc st))"
    using st'(3) unfolding n by blast
qed

lemma sample_run:
  "\<exists>st' d e. tasks_run sample_feeder_env two_sessions sample_feeder st' \<and> um_wire (fd_udp st') = [(55556, d), (55557, e)]"
proof -
  let ?n = "\<lambda>i. announced sample_feeder_env ''BinanceSpot'' (sample_session\<lparr>se_port := two_ports i\<rparr>) 0"
  have net: "fe_net sample_feeder_env = (\<lambda>_. good_os 0)" by (simp add: sample_feeder_env_def)
  have step: "tasks_step sample_feeder_env two_sessions st (?n i st)" if "i \<in> {0, 1}" for i st
  proof -
    have "SymbolTask ''BinanceSpot'' i (sample_session\<lparr>se_port := two_ports i\<rparr>) \<in> set two_sessions"
      using that by (auto simp: two_sessions_def)
    from tasks_step.event [OF this, of CONNECTION_STATUS_DISCONNECTED CONNECTION_STATUS_CONNECTING] show ?thesis
      by (simp add: announced_def announcements_def)
  qed
  have u: "usable q (fd_udp sample_feeder)" for q by (simp add: usable_def sample_feeder_def sample_multicaster_def)
  have w: "um_wire (fd_udp sample_feeder) = []" by (simp add: sample_feeder_def sample_multicaster_def)
  obtain d where d: "um_wire (fd_udp (?n 0 sample_feeder)) = [(two_ports 0, d)]"
    using announced_good(1) [OF net u, where port = "two_ports 0" and name = "''BinanceSpot''" and rc = 0] unfolding w by auto
  have "usable (two_ports 1) (fd_udp (?n 0 sample_feeder))" by (rule announced_good(2) [OF net u u])
  from announced_good(1) [OF net this, where name = "''BinanceSpot''" and rc = 0] obtain e where
    "um_wire (fd_udp (?n 1 (?n 0 sample_feeder))) = [(two_ports 0, d), (two_ports 1, e)]" unfolding d by auto
  moreover have "tasks_run sample_feeder_env two_sessions sample_feeder (?n 1 (?n 0 sample_feeder))"
    using step [of 0 sample_feeder] step [of 1 "?n 0 sample_feeder"]
    by (intro rtranclp.rtrancl_into_rtrancl [OF r_into_rtranclp]) simp_all
  ultimately show ?thesis by (auto simp: two_ports_def)
qed

lemma sample_feeder_start:
  "um_wire (fd_udp sample_feeder) = []" "pb_sequence_counter (fd_builder sample_feeder) = 1"
  "sh_phase shared_start = (\<lambda>_. Waiting)" "sh_wire shared_start = []" "pb_sequence_counter (sh_builder shared_start) = 1"
  by (simp_all add: sample_feeder_def sample_multicaster_def packet_builder_new_def shared_start_def)



end
