(* ===== verification/Main_Properties.thy ===== *)
theory Main_Properties
  imports Feeder_Main Session_Properties
begin

text \<open>
  The program around the sessions: the URLs they use, the end of the tasks, and the metrics.
\<close>

section \<open>URLs\<close>

definition stream_names :: "string list \<Rightarrow> string list \<Rightarrow> string list" where
  "stream_names topics symbols =
     concat (map (\<lambda>s. map (\<lambda>t. to_lowercase (filter (\<lambda>c. c \<noteq> CHR ''^'') s) @ ''@'' @ t) topics) symbols)"

lemma replace_caret: "replace s ''^'' [] = filter (\<lambda>c. c \<noteq> CHR ''^'') s"
  unfolding replace_char by (induction s) simp_all

lemma legacy_urls:
  "build_binance_websocket_url_legacy ''wss://fstream.binance.com/ws/'' symbols =
     Ok (''wss://fstream.binance.com/stream?streams='' @
       join ''/'' (stream_names [''trade'', ''depth@0ms'', ''markPrice@1s'', ''forceOrder''] symbols))"
  "build_binance_websocket_url_legacy ''wss://stream.binance.com:9443/ws/'' symbols =
     Ok (''wss://stream.binance.com:9443/stream?streams='' @ join ''/'' (stream_names [''trade'', ''depth''] symbols))"
  "build_binance_websocket_url_legacy ''wss://ws.example.com/ws'' symbols =
     Ok (''wss://stream?.example.com/stream?streams='' @ join ''/'' (stream_names [''trade'', ''depth''] symbols))"
proof -
  have c: "contains ''wss://fstream.binance.com/ws/'' ''fstream.binance.com''"
    "\<not> contains ''wss://stream.binance.com:9443/ws/'' ''fstream.binance.com''"
    "\<not> contains ''wss://ws.example.com/ws'' ''fstream.binance.com''" by code_simp+
  have e: "ends_with ''wss://fstream.binance.com/ws/'' ''/ws/''" "ends_with ''wss://stream.binance.com:9443/ws/'' ''/ws/''"
    "\<not> ends_with ''wss://ws.example.com/ws'' ''/ws/''" "ends_with ''wss://ws.example.com/ws'' ''/ws''"
    by code_simp+
  have r: "replace ''wss://fstream.binance.com/ws/'' ''/ws/'' ''/stream?'' = ''wss://fstream.binance.com/stream?''"
    "replace ''wss://stream.binance.com:9443/ws/'' ''/ws/'' ''/stream?'' = ''wss://stream.binance.com:9443/stream?''"
    "replace ''wss://ws.example.com/ws'' ''/ws'' ''/stream?'' = ''wss://stream?.example.com/stream?''" by code_simp+
  note unf = build_binance_websocket_url_legacy_def Let_def stream_names_def replace_caret
  show "build_binance_websocket_url_legacy ''wss://fstream.binance.com/ws/'' symbols =
     Ok (''wss://fstream.binance.com/stream?streams='' @
       join ''/'' (stream_names [''trade'', ''depth@0ms'', ''markPrice@1s'', ''forceOrder''] symbols))"
    unfolding unf by (simp add: c e r)
  show "build_binance_websocket_url_legacy ''wss://stream.binance.com:9443/ws/'' symbols =
     Ok (''wss://stream.binance.com:9443/stream?streams='' @ join ''/'' (stream_names [''trade'', ''depth''] symbols))"
    unfolding unf by (simp add: c e r)
  show "build_binance_websocket_url_legacy ''wss://ws.example.com/ws'' symbols =
     Ok (''wss://stream?.example.com/stream?streams='' @ join ''/'' (stream_names [''trade'', ''depth''] symbols))"
    unfolding unf by (simp add: c e r)
qed


section \<open>The end of the tasks\<close>

text \<open>Without a symbol file the task of an exchange gives up after ten attempts or panics, whatever happens
  outside. The program does not notice: whatever the results of the tasks, the connection manager's run
  is a success, and the program ends normally without an exit code.\<close>

theorem failed_tasks_go_unnoticed:
  "\<exists>r st'. manage_exchange_connection env ec attempts 0 0 st = Some (r, st')
     \<and> (r = Panicked \<or> r = Returned (Err give_up_error))
     \<and> wait_for_stop timeout (ManagerReturned (fst (run_result (r # rs))) # es) = Some (Inr ManagerFinished)"
  using exchange_terminates [of env ec attempts 0 0 st] by (auto simp: run_result_def connection_task_def)

section \<open>The whole program\<close>

text \<open>What can go on in the wait for the end: the connection manager only returns what its run returns.\<close>

definition possible_stop :: "stop_event \<Rightarrow> bool" where
  "possible_stop e = (case e of ManagerReturned r \<Rightarrow> r = Ok () | _ \<Rightarrow> True)"

lemma possible_returns: "possible_stop (ManagerReturned (fst (run_result joined)))"
  by (simp add: possible_stop_def run_result_def)

definition stops :: "nat option \<Rightarrow> stop_event \<Rightarrow> bool" where
  "stops timeout e = (case e of TimerElapsed \<Rightarrow> timeout \<noteq> None | _ \<Rightarrow> True)"

lemma wait_possible:
  assumes "list_all possible_stop es"
  shows "wait_for_stop timeout es \<noteq> Some (Inl code)"
    and "wait_for_stop timeout es = None \<longleftrightarrow> \<not> list_ex (stops timeout) es"
  using assms
  by (induction timeout es rule: wait_for_stop.induct)
    (auto simp: possible_stop_def stops_def connection_task_def split: option.splits)

lemma start_feeder_starts:
  "(\<exists>st. start_feeder ord os c = Ok st) \<longleftrightarrow>
     parse_ipv4 (uc_multicast (cf_udp c)) \<noteq> None \<and> parse_ipv4 (uc_interface (cf_udp c)) \<noteq> None \<and> os_bind os = None"
  by (auto simp: start_feeder_def multicaster_new_def and_then_def ok_or_def Let_def split: sum.splits option.splits)


text \<open>Without any configuration file, after the tasks of two exchanges have given up and panicked.\<close>

definition bare_main :: main_env where
  "bare_main =
     \<lparr> me_config = \<lparr> ce_custom_dir = None, ce_exe_dir = None, ce_exe_root = None, ce_file = (\<lambda>_. None) \<rparr>,
       me_rust_log = None, me_create = (\<lambda>_. False), me_runtime = (\<lambda>_. None), me_order = (\<lambda>ks. ks), me_os = good_os 0 \<rparr>"


section \<open>Metrics\<close>

definition packet_counts_grow :: "(f64 option \<times> udp_stats) list \<Rightarrow> bool" where
  "packet_counts_grow ss \<longleftrightarrow> sorted (map (us_packets_sent \<circ> snd) ss)"

lemma saturating_sub_add: "a \<le> b \<Longrightarrow> u64_saturating_sub b a + (c - b) = c - a"
  by (simp add: u64_saturating_sub_def)

text \<open>While the counter does not go back, the packet counts of the metrics lines add up to the counter.\<close>

theorem metrics_conserve_packets:
  assumes "packet_counts_grow ss" "ss \<noteq> []"
  shows "sum_list (map ml_packets (fst (metrics_loop interval ss metrics_start))) = us_packets_sent (snd (last ss))"
proof -
  have "sum_list (map ml_packets (fst (metrics_loop interval ss st))) = us_packets_sent (snd (last ss)) - ms_prev_packets st"
    if "sorted (ms_prev_packets st # map (us_packets_sent \<circ> snd) ss)" "ss \<noteq> []" for st
    using that
  proof (induction ss arbitrary: st)
    case (Cons x xs)
    obtain u y where x: "x = (u, y)" by (cases x)
    obtain l st1 where s: "metrics_step interval u y st = (l, st1)" by (cases "metrics_step interval u y st")
    then have l: "ml_packets l = u64_saturating_sub (us_packets_sent y) (ms_prev_packets st)"
      "ms_prev_packets st1 = us_packets_sent y" by (auto simp: metrics_step_def Let_def)
    show ?case
    proof (cases "xs = []")
      case True
      then show ?thesis using s l Cons.prems x by (simp add: u64_saturating_sub_def)
    next
      case False
      then have "sum_list (map ml_packets (fst (metrics_loop interval xs st1))) = us_packets_sent (snd (last xs)) - us_packets_sent y"
        using Cons.IH [of st1] Cons.prems l(2) x by simp
      then show ?thesis using s l Cons.prems False x
        by (simp add: case_prod_unfold Let_def u64_saturating_sub_def)
    qed
  qed simp
  from this [of metrics_start] show ?thesis using assms by (simp add: metrics_start_def packet_counts_grow_def)
qed

end
