(* ===== verification/Pipeline.thy ===== *)
theory Pipeline
  imports Task_Schedule Parser_Properties Main_Properties
begin

text \<open>
  The whole way of a message: from the bytes of a WebSocket message through the parser, the builder and
  the multicaster to the lines that the decoder prints for the datagrams of the port; and what is on the
  wire after any schedule of the tasks that \<^verbatim>\<open>main\<close> starts.
\<close>

section \<open>What the decoder prints\<close>

text \<open>The levels and the errors among the lines of the receive loop.\<close>

definition decode_errors :: "decoder_line list \<Rightarrow> string list" where
  "decode_errors ls = concat (map (\<lambda>l. case l of ShowDecodeError e \<Rightarrow> [e] | _ \<Rightarrow> []) ls)"

lemma decode_errors_simps [simp]:
  "decode_errors [] = []" "decode_errors (ls @ ks) = decode_errors ls @ decode_errors ks"
  "decode_errors (l # ls) = (case l of ShowDecodeError e \<Rightarrow> [e] | _ \<Rightarrow> []) @ decode_errors ls"
  by (simp_all add: decode_errors_def)

lemma summary_quiet [simp]: "shown_levels (summary_line elapsed stats) = []" "decode_errors (summary_line elapsed stats) = []"
  by (simp_all add: summary_line_def)

lemma item_lines_quiet:
  "decode_errors (fst (order_book_loop payload js)) = []" "decode_errors (fst (trade_tick_loop payload js)) = []"
  by (induction js) (auto simp: Let_def split: prod.splits)

lemma decode_lines_quiet: "decode_errors (fst (fst (decode_packet data now st))) = []"
  using item_lines_quiet [of "drop 67 data" "[0..<unat (item_count (header_read data))]"]
  by (cases st) (auto simp: decode_packet_def decode_order_book_items_def decode_trade_tick_items_def track_interval_def
      Let_def split: prod.splits sum.splits option.splits)

lemma receive_output_levels:
  assumes "list_all (\<lambda>d. length d \<le> 1500) (map fst rs)"
    and "\<And>d now st. d \<in> fst ` set rs \<Longrightarrow> snd (fst (decode_packet d now st)) = Inr ()"
    and "\<And>d now st. d \<in> fst ` set rs \<Longrightarrow> shown_levels (fst (fst (decode_packet d now st))) = levels d"
  shows "shown_levels (receive_output start (map (\<lambda>(d, now). Received d now) rs) st) = concat (map (\<lambda>r. levels (fst r)) rs)
     \<and> decode_errors (receive_output start (map (\<lambda>(d, now). Received d now) rs) st) = []"
  using assms
proof (induction rs arbitrary: st)
  case (Cons r rs)
  obtain d now where r: "r = (d, now)" by (cases r)
  let ?st = "((fst st)\<lparr>total_packets := total_packets (fst st) + 1, total_bytes := total_bytes (fst st) + of_nat (length d)\<rparr>, snd st)"
  have on: "on_datagram d now st = decode_packet d now ?st" using Cons.prems(1) r by (simp add: on_datagram_def Let_def)
  obtain ls st1 where one: "decode_packet d now ?st = ((ls, Inr ()), st1)" "shown_levels ls = levels d"
    using Cons.prems(2) [of d now ?st] Cons.prems(3) [of d now ?st] r
    by (cases "decode_packet d now ?st") (metis fst_conv image_insert insertI1 list.simps(15) prod.collapse snd_conv)
  have "decode_errors ls = []" using decode_lines_quiet [of d now ?st] one(1) by simp
  moreover have "shown_levels (receive_output start (map (\<lambda>(d, now). Received d now) rs) st1) = concat (map (\<lambda>r. levels (fst r)) rs)
     \<and> decode_errors (receive_output start (map (\<lambda>(d, now). Received d now) rs) st1) = []"
    using Cons.prems by (intro Cons.IH) auto
  ultimately show ?case using on one by (simp add: r)
qed simp

section \<open>From a message to the wire\<close>

text \<open>Over a network that takes everything, all packets of parsed data reach the port, in order.\<close>

lemma message_delivered:
  assumes "parse_message (fe_from_slice env) (fe_debug env) (fe_now env (fd_parses st)) (fd_parser st) name data = Some (Ok d)"
    and "build_packets (fe_build env) d (fd_builder st) = (Ok ps, s')"
    and "fe_net env = (\<lambda>_. good_os k)" "usable port (fd_udp st)"
  shows "\<exists>st'. process_and_send_to_port env name data port st = (Returned (Ok ()), st')
     \<and> um_wire (fd_udp st') = um_wire (fd_udp st) @ map (Pair port) (map u_data ps)"
proof -
  let ?st = "st\<lparr>fd_parses := Suc (fd_parses st), fd_builder := s'\<rparr>"
  have "usable port (fd_udp ?st)" using assms(4) by simp
  from send_all_good [OF assms(3) this, of ps] obtain st' where
    "send_all (send_on_port env port) ps ?st = (Ok (), st')"
    "um_wire (fd_udp st') = um_wire (fd_udp st) @ map (\<lambda>p. (port, u_data p)) ps" by auto
  then show ?thesis
    using assms(1,2) by (simp add: process_and_send_to_port_def process_with_def Let_def comp_def)
qed

lemma order_book_packets_short:
  assumes "fst (build_order_book_packets env ob s) = Ok ps" "p \<in> set ps"
  shows "length (u_data p) \<le> 1500"
proof -
  obtain q where "well_formed q p"
    using assms emits_order_book [of s env ob] by (auto simp: emits_def in_set_conv_nth)
  then show ?thesis using well_formed_fits(2) by fastforce
qed

lemma order_book_output:
  assumes "fst (build_order_book_packets env ob s) = Ok ps"
  shows "shown_levels (receive_output start (map (\<lambda>i. Received (map u_data ps ! i) (now i)) [0..<length ps]) dst) =
      map (\<lambda>it. (book_get_real_price it, book_get_real_quantity it)) (all_book_items ob)
     \<and> decode_errors (receive_output start (map (\<lambda>i. Received (map u_data ps ! i) (now i)) [0..<length ps]) dst) = []"
proof -
  let ?rs = "map (\<lambda>i. (map u_data ps ! i, now i)) [0..<length ps]"
  let ?levels = "\<lambda>d. map decoder_level (packet_items book_read d)"
  have rs: "map (\<lambda>i. Received (map u_data ps ! i) (now i)) [0..<length ps] = map (\<lambda>(d, t). Received d t) ?rs" by simp
  have ds: "map fst ?rs = map u_data ps" by (intro nth_equalityI) simp_all
  have mem: "\<exists>p \<in> set ps. d = u_data p" if "d \<in> fst ` set ?rs" for d
    using that unfolding list.set_map [symmetric] ds by auto
  have "concat (map (\<lambda>r. ?levels (fst r)) ?rs) = concat (map ?levels (map fst ?rs))" by (simp add: comp_def)
  also have "\<dots> = map decoder_level (all_book_items ob)"
    unfolding ds order_book_items_roundtrip [OF assms, symmetric] map_concat_map [symmetric] by (simp add: comp_def)
  also have "\<dots> = map (\<lambda>it. (book_get_real_price it, book_get_real_quantity it)) (all_book_items ob)"
    by (simp add: decoder_level_eq)
  finally have items: "concat (map (\<lambda>r. ?levels (fst r)) ?rs) =
      map (\<lambda>it. (book_get_real_price it, book_get_real_quantity it)) (all_book_items ob)" .
  have "list_all (\<lambda>d. length d \<le> 1500) (map fst ?rs)"
    unfolding ds using order_book_packets_short [OF assms] by (auto simp: list_all_iff)
  moreover have "snd (fst (decode_packet d now st)) = Inr ()" if "d \<in> fst ` set ?rs" for d now st
    using mem [OF that] order_book_packets_fit(1) [OF assms] decode_fits by blast
  moreover have "shown_levels (fst (fst (decode_packet d now st))) = ?levels d" if "d \<in> fst ` set ?rs" for d now st
    using mem [OF that] order_book_packets_fit [OF assms] by (auto simp: shown_decode_packet(1) decoder_level_def)
  ultimately show ?thesis unfolding rs items [symmetric] by (rule receive_output_levels)
qed

lemma depth_parsed:
  assumes "map_of (dp_parsers (fd_parser st)) name = Some BinanceParser"
    and "fe_from_slice env data = Some root_value" "get_str (event_object root_value) ''e'' = Some ''depthUpdate''"
    and "depth_from_value (event_object root_value) = Some u" "convert_binance_depth_update u = Ok ob"
  shows "parse_message (fe_from_slice env) (fe_debug env) now (fd_parser st) name data =
    Some (Ok (OrderBook (ob\<lparr>o_exchange := name\<rparr>)))"
  using assms by (simp add: parse_message_def parse_binance_message_def parse_binance_event_def)


text \<open>A depth update of one bid and one ask, and the feeder that receives it.\<close>

definition sample_depth :: json where
  "sample_depth = JObject [(''stream'', JString ''btcusdt@depth@100ms''), (''data'', JObject
     [(''e'', JString ''depthUpdate''), (''E'', JNumber (PosInt 1700000000000)), (''s'', JString ''BTCUSDT''),
      (''U'', JNumber (PosInt 1)), (''u'', JNumber (PosInt 2)),
      (''b'', JArray [JArray [JString ''42000'', JString ''1'']]), (''a'', JArray [JArray [JString ''42001'', JString ''1'']])])]"

definition depth_env :: feeder_env where
  "depth_env = sample_feeder_env\<lparr>fe_from_slice := \<lambda>_. Some sample_depth\<rparr>"

definition depth_feeder :: feeder where
  "depth_feeder = sample_feeder\<lparr>fd_parser := \<lparr> dp_parsers = [(''BinanceSpot'', BinanceParser)] \<rparr>\<rparr>"

lemma sample_levels:
  "parse_f64 ''42000'' = Some (f64_of_int 42000)" "parse_f64 ''42001'' = Some (f64_of_int 42001)" "parse_f64 ''1'' = Some (f64_of_int 1)"
  by (simp_all add: parse_eval f64_eval)

definition depth_book :: standardized_order_book_update where
  "depth_book = \<lparr> o_symbol = normalize_binance_symbol ''BTCUSDT'', o_exchange = normalize_exchange_name ''binance'' ''spot'',
     o_bids = [\<lparr> l_price = f64_of_int 42000, l_quantity = f64_of_int 1 \<rparr>],
     o_asks = [\<lparr> l_price = f64_of_int 42001, l_quantity = f64_of_int 1 \<rparr>], o_timestamp = millis_to_nanos 1700000000000 \<rparr>"

lemma sample_depth_parsed:
  "\<exists>u. depth_from_value (event_object sample_depth) = Some u \<and> convert_binance_depth_update u = Ok depth_book
     \<and> get_str (event_object sample_depth) ''e'' = Some ''depthUpdate''"
  by (simp add: depth_from_value_def req_def event_object_def sample_depth_def get_str_def convert_binance_depth_update_def
      parse_price_def sample_levels depth_book_def)


section \<open>From the start of the program\<close>

text \<open>What main starts: nothing is on the wire, the first number is one, and the tasks are those of the configuration.\<close>

lemma program_started:
  assumes "mr_started (feeder_main menv args events) = Some sd"
  shows "\<exists>c. load_config (me_config menv) = Ok c \<and> sd_tasks sd = spawned_tasks (me_order menv) c
     \<and> um_wire (fd_udp (sd_feeder sd)) = [] \<and> pb_sequence_counter (fd_builder (sd_feeder sd)) = 1
     \<and> um_target_port (fd_udp (sd_feeder sd)) = uc_port_number (cf_udp c)
     \<and> fd_parser (sd_feeder sd) = new_with_config (me_order menv) (Some c)"
proof -
  obtain c where c: "load_config (me_config menv) = Ok c" by (auto simp: load_config_def Let_def)
  have run: "me_runtime menv (worker_threads c) = None" using assms c by (auto simp: feeder_main_def Let_def split: option.splits)
  obtain st where st: "start_feeder (me_order menv) (me_os menv) c = Ok st"
    using assms c run by (cases "start_feeder (me_order menv) (me_os menv) c") (auto simp: feeder_main_def async_main_def Let_def)
  have sd: "sd_feeder sd = st \<and> sd_tasks sd = spawned_tasks (me_order menv) c"
    using assms c run st
    by (cases "wait_for_stop (parse_timeout_arg args) events") (auto simp: feeder_main_def async_main_def Let_def split: sum.splits)
  have "um_wire (fd_udp st) = [] \<and> pb_sequence_counter (fd_builder st) = 1
     \<and> um_target_port (fd_udp st) = uc_port_number (cf_udp c) \<and> fd_parser st = new_with_config (me_order menv) (Some c)"
    using st by (auto simp: start_feeder_def multicaster_new_def connection_manager_new_def packet_builder_new_def and_then_def
        Let_def split: sum.splits option.splits)
  then show ?thesis using c sd by simp
qed


text \<open>Without any configuration file, after the one task has received a depth update.\<close>

lemma bare_started:
  "\<exists>sd. mr_started (feeder_main bare_main [''crypto-feeder''] []) = Some sd
     \<and> (\<exists>ec. ec_name ec = ''binance'' \<and> sd_tasks sd = [ExchangeTask ec])
     \<and> um_wire (fd_udp (sd_feeder sd)) = [] \<and> um_target_port (fd_udp (sd_feeder sd)) = 55555
     \<and> map_of (dp_parsers (fd_parser (sd_feeder sd))) ''binance'' = Some BinanceParser"
proof -
  obtain c where c: "load_config (me_config bare_main) = Ok c" by (auto simp: load_config_def Let_def)
  then have cf: "cf_udp c = \<lparr> uc_multicast = ''239.255.1.1'', uc_port_number = 55555, uc_interface = ''0.0.0.0'' \<rparr>"
    "cf_symbol_config c = None" "map ec_name (filter ec_enabled (cf_exchanges c)) = [''binance'']"
    by (auto simp: load_config_def bare_main_def read_config_file_def config_candidates_def and_then_def get_or_def Let_def
        load_symbol_config_def result_ok_def)
  have ip: "parse_ipv4 ''239.255.1.1'' \<noteq> None" "parse_ipv4 ''0.0.0.0'' \<noteq> None" by code_simp+
  have world: "me_runtime bare_main t = None" "os_bind (me_os bare_main) = None" for t
    by (simp_all add: bare_main_def good_os_def)
  have "\<exists>st. start_feeder (me_order bare_main) (me_os bare_main) c = Ok st"
    unfolding start_feeder_starts using cf ip world by simp
  then obtain st where "start_feeder (me_order bare_main) (me_os bare_main) c = Ok st" by blast
  then obtain sd where sd: "mr_started (feeder_main bare_main [''crypto-feeder''] []) = Some sd"
    using c world by (auto simp: feeder_main_def async_main_def Let_def)
  moreover have "\<exists>ec. ec_name ec = ''binance'' \<and> spawned_tasks (me_order bare_main) c = [ExchangeTask ec]"
    using cf(2,3) by (auto simp: spawned_tasks_def)
  ultimately show ?thesis
    using program_started [OF sd] c cf by (auto simp: new_with_config_def)
qed

lemma depth_book_packets:
  assumes "build_order_book_packets env (depth_book\<lparr>o_exchange := name\<rparr>) s = (Ok ps, s')"
  shows "ps \<noteq> []"
proof -
  let ?ob = "depth_book\<lparr>o_exchange := name\<rparr>"
  have "f64_zero < f64_of_int 1" by (simp add: f64_eval less_f64_def units_def cmp_int_def Let_def)
  then have "length (book_items False (o_bids ?ob) @ book_items True (o_asks ?ob)) = 2"
    by (simp add: depth_book_def book_items_def)
  then have "all_book_items ?ob \<noteq> []" using mset_all_book_items [of ?ob] by (metis size_mset list.size(3) zero_neq_numeral)
  moreover have "concat (map (\<lambda>p. packet_items book_read (u_data p)) ps) = all_book_items ?ob"
    using order_book_items_roundtrip [of env ?ob s ps] assms by simp
  ultimately show ?thesis by auto
qed


end
