(* ===== verification/Receiver_Main.thy ===== *)
theory Receiver_Main
  imports Udp_Counter
begin

text \<open>
  The \<^verbatim>\<open>main\<close> functions of \<^verbatim>\<open>src/src/bin/decoder.rs\<close> and \<^verbatim>\<open>src/src/bin/udp_counter.rs\<close>: the set-up of the
  receiving socket as a sequence of calls of the operating system, any of which can fail, and the
  whole run of a tool from its configuration to its last line. What the system answers to a call is an
  argument; the calls that were made are part of the result.
\<close>

section \<open>Setting up the socket\<close>

datatype setup_call =
    NewSocket
  | SetReuseAddress
  | BindSocket "nat list" nat
  | JoinMulticast "nat list" "nat list"
  | SetReadTimeout nat \<comment> \<open>milliseconds\<close>

datatype setup_error = ConfigUnreadable | BadAddress string | SetupIo io_error

type_synonym 'a setup_step = "setup_call list \<Rightarrow> (setup_error + 'a) \<times> setup_call list"

text \<open>A step that may fail and the rest, as the \<^verbatim>\<open>?\<close> operator composes them.\<close>

definition and_call :: "'a setup_step \<Rightarrow> ('a \<Rightarrow> 'b setup_step) \<Rightarrow> 'b setup_step" where
  "and_call step rest calls =
     (case step calls of (Inl e, made) \<Rightarrow> (Inl e, made) | (Inr x, made) \<Rightarrow> rest x made)"

definition system_call :: "(setup_call \<Rightarrow> io_error option) \<Rightarrow> setup_call \<Rightarrow> unit setup_step" where
  "system_call os c calls = ((case os c of None \<Rightarrow> Inr () | Some e \<Rightarrow> Inl (SetupIo e)), calls @ [c])"

definition parsed_address :: "(string \<Rightarrow> 'a option) \<Rightarrow> string \<Rightarrow> 'a setup_step" where
  "parsed_address parse s calls = ((case parse s of Some a \<Rightarrow> Inr a | None \<Rightarrow> Inl (BadAddress s)), calls)"

text \<open>The part of \<^verbatim>\<open>SocketAddr::from_str\<close> for IPv4: an address, a colon and the digits of a port.\<close>

definition parse_socket_addr :: "string \<Rightarrow> (nat list \<times> nat) option" where
  "parse_socket_addr s =
     (case split_once CHR '':'' s of
        Some (ip, port) \<Rightarrow>
          if port \<noteq> [] \<and> list_all is_digit port \<and> digits_val 0 port < 2 ^ 16
          then map_option (\<lambda>a. (a, digits_val 0 port)) (parse_ipv4 ip) else None
      | None \<Rightarrow> None)"

definition open_receiver :: "(setup_call \<Rightarrow> io_error option) \<Rightarrow> udp_cfg \<Rightarrow> unit setup_step" where
  "open_receiver os cfg =
     (let bind_addr = ''0.0.0.0:'' @ show_nat (unat (uc_port cfg)) in
      and_call (system_call os NewSocket) (\<lambda>_.
      and_call (system_call os SetReuseAddress) (\<lambda>_.
      and_call (parsed_address parse_socket_addr bind_addr) (\<lambda>(ip, port).
      and_call (system_call os (BindSocket ip port)) (\<lambda>_.
      and_call (parsed_address parse_ipv4 (uc_multicast_addr cfg)) (\<lambda>multicast_addr.
      and_call (parsed_address parse_ipv4 (uc_interface_addr cfg)) (\<lambda>interface_addr.
        system_call os (JoinMulticast multicast_addr interface_addr))))))))"

definition open_counter :: "(setup_call \<Rightarrow> io_error option) \<Rightarrow> udp_cfg \<Rightarrow> unit setup_step" where
  "open_counter os cfg =
     and_call (open_receiver os cfg) (\<lambda>_. system_call os (SetReadTimeout 250))"

section \<open>The decoder\<close>

datatype tool_line =
    ToolStarted
  | Listening string u16 "string option"
  | ReceiverReady
  | Decoded decoder_line
  | ReceiveFailure io_error
  | FinalReport counter_report

text \<open>
  The result has the printed lines, the result of \<^verbatim>\<open>main\<close> (\<open>None\<close> while the program still runs) and the
  calls of the set-up. The endless loop only ends at a receive error, which is not an error of \<^verbatim>\<open>main\<close>.
\<close>

definition stopped :: "recv_result list \<Rightarrow> bool" where
  "stopped rs = list_ex (\<lambda>r. case r of ReceiveError _ \<Rightarrow> True | _ \<Rightarrow> False) rs"

definition decoder_main ::
  "(setup_call \<Rightarrow> io_error option) \<Rightarrow> string option \<Rightarrow> string list \<Rightarrow> nat \<Rightarrow> recv_result list
     \<Rightarrow> tool_line list \<times> (setup_error + unit) option \<times> setup_call list" where
  "decoder_main os file args start rs =
     (let udp_cfg = decoder_config file args;
          begun = [ToolStarted, Listening (uc_multicast_addr udp_cfg) (uc_port udp_cfg) None]
      in case open_receiver os udp_cfg [] of
           (Inl e, calls) \<Rightarrow> (begun, Some (Inl e), calls)
         | (Inr _, calls) \<Rightarrow>
             (begun @ ReceiverReady # map Decoded (receive_output start rs (stats_new, Map.empty)),
              if stopped rs then Some (Inr ()) else None, calls))"

section \<open>The counter\<close>

text \<open>Receive errors are printed, unless they only say that nothing came within the read timeout.\<close>

fun counter_lines :: "nat \<Rightarrow> (nat \<times> counter_recv) list \<Rightarrow> tool_line list" where
  "counter_lines deadline [] = []"
| "counter_lines deadline ((now, r) # rs) =
     (if now < deadline then
        (case r of
           RecvError e \<Rightarrow> if e = WouldBlock \<or> e = TimedOut then [] else [ReceiveFailure e]
         | Datagram _ \<Rightarrow> []) @ counter_lines deadline rs
      else [])"

definition counter_main ::
  "(setup_call \<Rightarrow> io_error option) \<Rightarrow> string option \<Rightarrow> string list \<Rightarrow> nat \<Rightarrow> (nat \<times> counter_recv) list
     \<Rightarrow> tool_line list \<times> (setup_error + unit) option \<times> setup_call list" where
  "counter_main os file args start turns =
     (case counter_config file args of
        None \<Rightarrow> ([ToolStarted], Some (Inl ConfigUnreadable), [])
      | Some cfg \<Rightarrow>
          let begun = [ToolStarted, Listening (uc_multicast_addr cfg) (uc_port cfg) (Some (uc_interface_addr cfg))]
          in case open_counter os cfg [] of
               (Inl e, calls) \<Rightarrow> (begun, Some (Inl e), calls)
             | (Inr _, calls) \<Rightarrow>
                 let deadline = start + 30 * 10 ^ 9;
                     shown = begun @ counter_lines deadline turns
                 in if list_ex (\<lambda>(now, _). deadline \<le> now) turns
                    then (shown @ [FinalReport (counter_summary (counter_until deadline turns counter_new))], Some (Inr ()), calls)
                    else (shown, None, calls))"

section \<open>How set-up and runs end\<close>

lemma own_address_parsed:
  assumes "n < 2 ^ 16"
  shows "parse_socket_addr (''0.0.0.0:'' @ show_nat n) = Some ([0, 0, 0, 0], n)"
proof -
  have "split_once CHR '':'' (''0.0.0.0'' @ CHR '':'' # show_nat n) = Some (''0.0.0.0'', show_nat n)"
    by (rule split_once_append) simp
  moreover have "parse_ipv4 ''0.0.0.0'' = Some [0, 0, 0, 0]" by code_simp
  ultimately show ?thesis using assms show_nat_digits [of n] by (simp add: parse_socket_addr_def)
qed

text \<open>The calls that set-up wants to make, up to an address that it cannot read.\<close>

definition wanted_calls :: "udp_cfg \<Rightarrow> setup_call list" where
  "wanted_calls cfg =
     [NewSocket, SetReuseAddress, BindSocket [0, 0, 0, 0] (unat (uc_port cfg))]
     @ (case (parse_ipv4 (uc_multicast_addr cfg), parse_ipv4 (uc_interface_addr cfg)) of
          (Some m, Some i) \<Rightarrow> [JoinMulticast m i] | _ \<Rightarrow> [])"

definition bad_address :: "udp_cfg \<Rightarrow> string option" where
  "bad_address cfg = find (\<lambda>s. parse_ipv4 s = None) [uc_multicast_addr cfg, uc_interface_addr cfg]"

text \<open>Calls are made one after the other up to the first that fails.\<close>

fun calls_until_error :: "(setup_call \<Rightarrow> io_error option) \<Rightarrow> setup_call list \<Rightarrow> setup_call list \<times> io_error option" where
  "calls_until_error os [] = ([], None)"
| "calls_until_error os (c # cs) =
     (case os c of Some e \<Rightarrow> ([c], Some e)
      | None \<Rightarrow> let (made, r) = calls_until_error os cs in (c # made, r))"

lemma open_receiver_runs:
  "open_receiver os cfg calls =
     (let (made, failed) = calls_until_error os (wanted_calls cfg)
      in (case failed of Some e \<Rightarrow> Inl (SetupIo e)
          | None \<Rightarrow> (case bad_address cfg of Some s \<Rightarrow> Inl (BadAddress s) | None \<Rightarrow> Inr ()), calls @ made))"
proof -
  have "unat (uc_port cfg) < 2 ^ 16" using unsigned_less [of "uc_port cfg", where 'a = nat] by simp
  note own = own_address_parsed [OF this]
  show ?thesis
    unfolding open_receiver_def Let_def and_call_def system_call_def parsed_address_def own wanted_calls_def bad_address_def
    by (simp split: option.split)
qed

lemma calls_until_error_append:
  "calls_until_error os (xs @ ys) =
     (let (made, failed) = calls_until_error os xs
      in case failed of Some e \<Rightarrow> (made, Some e)
         | None \<Rightarrow> let (more, r) = calls_until_error os ys in (made @ more, r))"
  by (induction xs) (auto simp: Let_def split: option.splits prod.splits)

text \<open>How a tool ends, from the failure and the addresses of its set-up.\<close>

definition ended_by :: "io_error option \<Rightarrow> udp_cfg \<Rightarrow> (setup_error + unit) option \<Rightarrow> (setup_error + unit) option" where
  "ended_by failed cfg after =
     (case failed of Some e \<Rightarrow> Some (Inl (SetupIo e))
      | None \<Rightarrow> (case bad_address cfg of Some s \<Rightarrow> Some (Inl (BadAddress s)) | None \<Rightarrow> after))"

definition counter_calls :: "udp_cfg \<Rightarrow> setup_call list" where
  "counter_calls cfg = wanted_calls cfg @ (if bad_address cfg = None then [SetReadTimeout 250] else [])"

lemma open_counter_runs:
  "open_counter os cfg calls =
     (let (made, failed) = calls_until_error os (counter_calls cfg)
      in (case failed of Some e \<Rightarrow> Inl (SetupIo e)
          | None \<Rightarrow> (case bad_address cfg of Some s \<Rightarrow> Inl (BadAddress s) | None \<Rightarrow> Inr ()), calls @ made))"
  unfolding open_counter_def counter_calls_def calls_until_error_append and_call_def open_receiver_runs system_call_def
  by (cases "calls_until_error os (wanted_calls cfg)") (simp add: Let_def split: option.split)

lemma decoder_end:
  "snd (decoder_main os file args start rs) =
     (let cfg = decoder_config file args; (made, failed) = calls_until_error os (wanted_calls cfg)
      in (ended_by failed cfg (if stopped rs then Some (Inr ()) else None), made))"
  by (cases "calls_until_error os (wanted_calls (decoder_config file args))")
    (simp add: decoder_main_def open_receiver_runs ended_by_def Let_def split: option.split)

lemma counter_end:
  "snd (counter_main os file args start turns) =
     (case counter_config file args of
        None \<Rightarrow> (Some (Inl ConfigUnreadable), [])
      | Some cfg \<Rightarrow>
          let (made, failed) = calls_until_error os (counter_calls cfg)
          in (ended_by failed cfg (if list_ex (\<lambda>(now, _). start + 30 * 10 ^ 9 \<le> now) turns then Some (Inr ()) else None), made))"
proof (cases "counter_config file args")
  case (Some cfg)
  then show ?thesis
    by (cases "calls_until_error os (counter_calls cfg)")
      (simp add: counter_main_def open_counter_runs ended_by_def Let_def split: option.split)
qed (simp add: counter_main_def)

text \<open>C35: Both tools make the calls of their set-up in order and stop at the first that fails; an address that
  does not parse is only noticed after the socket is bound. Once set up, the decoder ends at the first
  receive error, and then as a success; the counter survives receive errors and ends, as a success, when
  the clock is past thirty seconds. Without a configuration file the decoder uses its defaults, while the
  counter fails before it makes any call.\<close>

theorem receivers_end:
  "snd (decoder_main os file args start rs) =
     (let cfg = decoder_config file args; (made, failed) = calls_until_error os (wanted_calls cfg)
      in (ended_by failed cfg (if stopped rs then Some (Inr ()) else None), made))
   \<and> snd (counter_main os file args start turns) =
     (case counter_config file args of
        None \<Rightarrow> (Some (Inl ConfigUnreadable), [])
      | Some cfg \<Rightarrow>
          let (made, failed) = calls_until_error os (counter_calls cfg)
          in (ended_by failed cfg (if list_ex (\<lambda>(now, _). start + 30 * 10 ^ 9 \<le> now) turns then Some (Inr ()) else None), made))
   \<and> (counter_config file args = None \<longleftrightarrow> file = None)"
  unfolding decoder_end counter_end by (simp add: counter_config_def counter_read_udp_config_def Let_def split: option.split)

end
