(* ===== verification/Demo_Streams.thy ===== *)
theory Demo_Streams
  imports Data_Parser Udp_Multicaster Feed_Wire
begin

text \<open>
  The two demonstration programs, \<^verbatim>\<open>src/src/bin/binance_misc_streams_demo.rs\<close> and
  \<^verbatim>\<open>src/src/bin/binance_depth0ms_demo.rs\<close>: the stream addresses, the receive loop with its optional
  timer, the scan of a text for its stream, and the packets that the first one sends. The WebSocket
  connection gives the inputs of the loop; the JSON reader of \<^verbatim>\<open>serde_json\<close> is the parameter
  \<open>de_from_str\<close>. A printed line is a value with what it shows. The pause of five milliseconds between two
  messages is not modelled. \<open>None\<close> is a panic.
\<close>

section \<open>Lines and messages\<close>

datatype demo_line =
    ConnectTo string
  | ConnectedLine
  | TextBytes nat
  | BinaryBytes nat
  | PingBytes nat
  | ClosedByServer
  | MessageFailure nat
  | StreamEnded
  | TimeoutReached nat
  | StreamForSymbol string
  | MarkPriceLine string string string string string
  | IndexPriceLine string string string
  | LiquidationLine string string string string string
  | StreamLine string

datatype demo_message =
    TextMessage string
  | BinaryMessage "u8 list"
  | PingMessage "u8 list"
  | PongMessage
  | FrameMessage
  | CloseMessage
  | FailedMessage nat
  | NoMessage \<comment> \<open>the end of the stream\<close>

datatype demo_input = TimerFired | Incoming demo_message

section \<open>The common frame\<close>

definition demo_timeout :: "string list \<Rightarrow> nat option" where
  "demo_timeout args =
     (if 2 \<le> length args
      then (case parse_uint 64 (args ! 1) of Some v \<Rightarrow> if 0 < v then Some v else None | None \<Rightarrow> None)
      else None)"

definition demo_symbols :: "string list" where
  "demo_symbols = [''btcusdt'', ''ethusdt'']"

definition demo_url :: "(string \<Rightarrow> string list) \<Rightarrow> string" where
  "demo_url streams_of = ''wss://fstream.binance.com/stream?streams='' @ join ''/'' (concat (map streams_of demo_symbols))"

text \<open>One turn: the lines, the new state, and whether the loop is left.\<close>

type_synonym 's text_handler = "string \<Rightarrow> 's \<Rightarrow> (demo_line list \<times> 's) option"

fun demo_turn :: "'s text_handler \<Rightarrow> demo_message \<Rightarrow> 's \<Rightarrow> (demo_line list \<times> 's \<times> bool) option" where
  "demo_turn f (TextMessage s) st = map_option (\<lambda>(ls, st1). (ls, st1, False)) (f s st)"
| "demo_turn f (BinaryMessage bin) st = Some ([BinaryBytes (length bin)], st, False)"
| "demo_turn f (PingMessage p) st = Some ([PingBytes (length p)], st, False)"
| "demo_turn f PongMessage st = Some ([], st, False)"
| "demo_turn f FrameMessage st = Some ([], st, False)"
| "demo_turn f CloseMessage st = Some ([ClosedByServer], st, True)"
| "demo_turn f (FailedMessage e) st = Some ([MessageFailure e], st, True)"
| "demo_turn f NoMessage st = Some ([StreamEnded], st, True)"

text \<open>The loop over the inputs so far; without a time-out there is no timer. The flag says that it ended.\<close>

fun demo_loop :: "'s text_handler \<Rightarrow> nat option \<Rightarrow> demo_input list \<Rightarrow> 's \<Rightarrow> (demo_line list \<times> 's \<times> bool) option" where
  "demo_loop f timeout [] st = Some ([], st, False)"
| "demo_loop f timeout (TimerFired # is) st =
     (case timeout of
        Some t \<Rightarrow> Some ([TimeoutReached t], st, True)
      | None \<Rightarrow> demo_loop f timeout is st)"
| "demo_loop f timeout (Incoming msg # is) st =
     (case demo_turn f msg st of
        None \<Rightarrow> None
      | Some (ls, st1, True) \<Rightarrow> Some (ls, st1, True)
      | Some (ls, st1, False) \<Rightarrow>
          map_option (\<lambda>(ls', st2, ended). (ls @ ls', st2, ended)) (demo_loop f timeout is st1))"

section \<open>The depth demonstration\<close>

definition depth_streams :: "string \<Rightarrow> string list" where
  "depth_streams s = [s @ ''@depth@0ms'']"

text \<open>\<^verbatim>\<open>str::find\<close> of a character and of a string: the index of the first match.\<close>

definition find_char :: "char \<Rightarrow> string \<Rightarrow> nat option" where
  "find_char c s = (let n = length (takeWhile (\<lambda>x. x \<noteq> c) s) in if n < length s then Some n else None)"

fun find_str :: "string \<Rightarrow> string \<Rightarrow> nat option" where
  "find_str p [] = (if p = [] then Some 0 else None)"
| "find_str p (c # cs) = (if starts_with (c # cs) p then Some 0 else map_option Suc (find_str p cs))"

definition double_quote :: char where
  "double_quote = CHR 0x22"

definition stream_key :: string where
  "stream_key = double_quote # ''stream'' @ [double_quote, CHR '':'', double_quote]"

text \<open>The value of the stream key, without unescaping.\<close>

definition scan_stream :: "string \<Rightarrow> string option" where
  "scan_stream txt_of =
     (case find_str stream_key txt_of of
        Some pos \<Rightarrow>
          let rest = drop (pos + 10) txt_of in
          (case find_char double_quote rest of Some stop \<Rightarrow> Some (take stop rest) | None \<Rightarrow> None)
      | None \<Rightarrow> None)"

definition extract_symbol_from_combined :: "string \<Rightarrow> string option" where
  "extract_symbol_from_combined txt_of =
     (case scan_stream txt_of of
        Some stream \<Rightarrow> (case find_char CHR ''@'' stream of Some at_pos \<Rightarrow> Some (take at_pos stream) | None \<Rightarrow> None)
      | None \<Rightarrow> None)"

definition depth_text :: "unit text_handler" where
  "depth_text txt_of st =
     Some (TextBytes (length txt_of) #
       (case extract_symbol_from_combined txt_of of Some symb \<Rightarrow> [StreamForSymbol symb] | None \<Rightarrow> []), st)"

text \<open>The connection is refused with an error, or it is made and gives the inputs.\<close>

definition depth_demo :: "string list \<Rightarrow> nat + demo_input list \<Rightarrow> (demo_line list \<times> (nat + bool)) option" where
  "depth_demo args attempt =
     (let url = demo_url depth_streams in
      case attempt of
        Inl e \<Rightarrow> Some ([ConnectTo url], Inl e)
      | Inr inputs \<Rightarrow>
          map_option (\<lambda>(ls, _, ended). ([ConnectTo url, ConnectedLine] @ ls, Inr ended))
            (demo_loop depth_text (demo_timeout args) inputs ()))"

section \<open>The miscellaneous streams demonstration\<close>

record demo_env =
  de_build :: build_env
  de_net :: "nat \<Rightarrow> os_answers"
  de_from_str :: "string \<Rightarrow> json option"

record demo =
  dm_builder :: packet_builder
  dm_udp :: udp_multicaster
  dm_sends :: nat

definition misc_streams :: "string \<Rightarrow> string list" where
  "misc_streams s = [s @ ''@markPrice@1s'', s @ ''@forceOrder'']"

text \<open>\<^verbatim>\<open>split_at\<close> panics inside a character.\<close>

definition to_std_symbol :: "string \<Rightarrow> string option" where
  "to_std_symbol binance_symbol =
     (if 6 \<le> length binance_symbol then
        let mid = length binance_symbol - 4 in
        if is_char_boundary binance_symbol mid
        then Some (take mid binance_symbol @ ''^'' @ drop mid binance_symbol) else None
      else Some binance_symbol)"

definition str_or_empty :: "json \<Rightarrow> string \<Rightarrow> string" where
  "str_or_empty v k = (case get_str v k of Some s \<Rightarrow> s | None \<Rightarrow> [])"

definition event_time :: "json \<Rightarrow> u64" where
  "event_time data = (case Option.bind (json_get data ''E'') as_u64 of Some t \<Rightarrow> t | None \<Rightarrow> 0)"

text \<open>\<^verbatim>\<open>if let Ok(pkt) = builder.build..(..) { let _ = udp.send_packet(pkt).await; }\<close>\<close>

definition demo_emit :: "demo_env \<Rightarrow> (packet_builder \<Rightarrow> udp_packet result \<times> packet_builder) \<Rightarrow> demo \<Rightarrow> demo" where
  "demo_emit env build st =
     (case build (dm_builder st) of
        (Inl e, b) \<Rightarrow> st\<lparr>dm_builder := b\<rparr>
      | (Inr pkt, b) \<Rightarrow>
          let (_, u) = send_packet pkt (de_net env (dm_sends st)) (dm_udp st)
          in st\<lparr>dm_builder := b, dm_udp := u, dm_sends := Suc (dm_sends st)\<rparr>)"

definition handle_mark_price :: "demo_env \<Rightarrow> string \<Rightarrow> json \<Rightarrow> demo \<Rightarrow> (demo_line list \<times> demo) option" where
  "handle_mark_price env stream_name data st =
     (let symb = str_or_empty data ''s'';
          mark = str_or_empty data ''p'';
          index = str_or_empty data ''i'';
          funding = str_or_empty data ''r'';
          shown = [MarkPriceLine stream_name symb mark index funding]
      in case (parse_f64 mark, parse_f64 index, parse_f64 funding) of
           (Some mark_f, Some index_f, Some funding_f) \<Rightarrow>
             map_option (\<lambda>symbol_std.
               let exchange_std = ''BinanceFutures'';
                   ts = event_time data;
                   mark_scaled = scaled_by PRICE_SCALE mark_f;
                   index_scaled = scaled_by PRICE_SCALE index_f;
                   funding_scaled = scaled_by FUNDING_RATE_SCALE funding_f;
                   b = de_build env;
                   st = demo_emit env (build_single_value_packet b symbol_std exchange_std MESSAGE_TYPE_INDEX_PRICE ts index_scaled) st;
                   st = demo_emit env (build_single_value_packet b symbol_std exchange_std MESSAGE_TYPE_MARK_PRICE ts mark_scaled) st;
                   st = demo_emit env (build_single_value_packet b symbol_std exchange_std MESSAGE_TYPE_FUNDING_RATE ts funding_scaled) st
               in (shown, st)) (to_std_symbol symb)
         | _ \<Rightarrow> Some (shown, st))"

definition handle_force_order :: "demo_env \<Rightarrow> string \<Rightarrow> json \<Rightarrow> demo \<Rightarrow> (demo_line list \<times> demo) option" where
  "handle_force_order env stream_name data st =
     (let ob = (case json_get data ''o'' of Some v \<Rightarrow> v | None \<Rightarrow> JNull);
          symb = str_or_empty ob ''s'';
          side = str_or_empty ob ''S'';
          price_value = (case json_get ob ''ap'' of Some v \<Rightarrow> Some v | None \<Rightarrow> json_get ob ''p'');
          price = (case Option.bind price_value as_str of Some s \<Rightarrow> s | None \<Rightarrow> []);
          qty = str_or_empty ob ''q'';
          shown = [LiquidationLine stream_name symb side price qty]
      in case (parse_f64 price, parse_f64 qty) of
           (Some price_f, Some qty_f) \<Rightarrow>
             map_option (\<lambda>symbol_std.
               let exchange_std = ''BinanceFutures'';
                   ts = event_time data;
                   is_sell = eq_ignore_ascii_case side ''SELL''
               in (shown, demo_emit env
                    (build_liquidation_packet (de_build env) symbol_std exchange_std ts price_f qty_f is_sell) st))
               (to_std_symbol symb)
         | _ \<Rightarrow> Some (shown, st))"

definition handle_text_message :: "demo_env \<Rightarrow> demo text_handler" where
  "handle_text_message env txt_of st =
     map_option (\<lambda>(ls, st1). (TextBytes (length txt_of) # ls, st1))
       (case de_from_str env txt_of of
          Some v \<Rightarrow>
            let stream_name = str_or_empty v ''stream'';
                data = (case json_get v ''data'' of Some d \<Rightarrow> d | None \<Rightarrow> JNull);
                event_type = str_or_empty data ''e''
            in if event_type = ''markPriceUpdate'' then handle_mark_price env stream_name data st
               else if event_type = ''indexPriceUpdate'' then
                 Some ([IndexPriceLine stream_name (str_or_empty data ''s'') (str_or_empty data ''i'')], st)
               else if event_type = ''forceOrder'' then handle_force_order env stream_name data st
               else Some (if stream_name \<noteq> [] then [StreamLine stream_name] else [], st)
        | None \<Rightarrow> Some (case scan_stream txt_of of Some stream \<Rightarrow> [StreamLine stream] | None \<Rightarrow> [], st))"

definition misc_config :: "config result \<Rightarrow> config" where
  "misc_config loaded =
     (case loaded of
        Inr c \<Rightarrow> c
      | Inl e \<Rightarrow> \<lparr> cf_exchanges = [], cf_symbols = [],
          cf_udp = \<lparr> uc_multicast = ''239.255.1.1'', uc_port_number = 55555, uc_interface = ''0.0.0.0'' \<rparr>,
          cf_logging = \<lparr> lc_level = ''info'', lc_file_path = None \<rparr>, cf_runtime_threads = None,
          cf_metrics = \<lparr> mc_enabled = False, mc_interval_secs = 5 \<rparr>, cf_symbol_config = None, cf_endpoint_config = None \<rparr>)"

text \<open>Failing to make the multicaster is a panic.\<close>

definition misc_demo ::
  "demo_env \<Rightarrow> string list \<Rightarrow> config result \<Rightarrow> os_answers \<Rightarrow> nat + demo_input list \<Rightarrow> (demo_line list \<times> (nat + demo \<times> bool)) option"
where
  "misc_demo env args loaded os attempt =
     (let url = demo_url misc_streams in
      case attempt of
        Inl e \<Rightarrow> Some ([ConnectTo url], Inl e)
      | Inr inputs \<Rightarrow>
          (case multicaster_new (cf_udp (misc_config loaded)) os of
             Inl e \<Rightarrow> None
           | Inr udp \<Rightarrow>
               map_option (\<lambda>(ls, st, ended). ([ConnectTo url, ConnectedLine] @ ls, Inr (st, ended)))
                 (demo_loop (handle_text_message env) (demo_timeout args) inputs
                   \<lparr> dm_builder = packet_builder_new, dm_udp = udp, dm_sends = 0 \<rparr>)))"

end
