(* ===== verification/Demo_Properties.thy ===== *)
theory Demo_Properties
  imports Demo_Streams Parser_Properties Udp_Properties
begin

text \<open>
  The demonstration programs against the feeder: the same argument, the same symbols, and for a mark
  price event the same packets up to the unit of the exchange timestamp.
\<close>

section \<open>Scanning for the stream\<close>

lemma find_char_append: "c \<notin> set a \<Longrightarrow> find_char c (a @ c # b) = Some (length a)"
proof -
  assume "c \<notin> set a"
  then have "takeWhile (\<lambda>x. x \<noteq> c) a = a" unfolding takeWhile_eq_all_conv by auto
  then show ?thesis using \<open>c \<notin> set a\<close> by (simp add: find_char_def takeWhile_tail Let_def)
qed

lemma length_stream_key: "length stream_key = 10"
  by (simp add: stream_key_def)

text \<open>The first symbol of a combined stream is found when the text starts with the stream.\<close>

theorem depth_symbol_found:
  assumes "double_quote \<notin> set (symb @ ''@'' @ topic)" "CHR ''@'' \<notin> set symb"
  shows "extract_symbol_from_combined (CHR 0x7B # stream_key @ symb @ ''@'' @ topic @ double_quote # rest) = Some symb"
proof -
  let ?t = "stream_key @ symb @ ''@'' @ topic @ double_quote # rest"
  have "find_str stream_key ?t = Some 0"
    by (cases ?t) (simp_all add: stream_key_def starts_with_def)
  moreover have "\<not> starts_with (CHR 0x7B # ?t) stream_key" by (simp add: starts_with_def stream_key_def double_quote_def)
  ultimately have f: "find_str stream_key (CHR 0x7B # ?t) = Some 1" by simp
  have "drop 11 (CHR 0x7B # ?t) = (symb @ ''@'' @ topic) @ double_quote # rest"
    using length_stream_key by simp
  then have "scan_stream (CHR 0x7B # ?t) = Some (symb @ ''@'' @ topic)"
    using f find_char_append [OF assms(1), of rest] by (simp add: scan_stream_def Let_def)
  then show ?thesis
    using find_char_append [OF assms(2), of topic] by (simp add: extract_symbol_from_combined_def)
qed

section \<open>Symbols\<close>

text \<open>For upper-case pairs with a quote currency of four letters the demonstration and the feeder agree.\<close>

lemma std_symbol_agrees:
  assumes "q \<in> {''USDT'', ''USDC'', ''BUSD''}" "2 \<le> length b" "to_uppercase b = b"
  shows "to_std_symbol (b @ q) = Some (normalize_binance_symbol (b @ q))"
proof -
  have "to_uppercase q = q" "q \<in> set quotes" "length q = 4" "\<not> utf8_cont (code_of (q ! 0))"
    using assms(1) by (auto simp: to_uppercase_def ascii_upper_def code_of_def quotes_def utf8_cont_def)
  moreover from this have "normalize_binance_symbol (b @ q) = b @ ''^'' @ q"
    using assms(3) by (intro normalize_quote) (simp_all add: to_uppercase_def)
  ultimately show ?thesis
    using assms(2) by (simp add: to_std_symbol_def is_char_boundary_def Let_def nth_append)
qed

section \<open>Prices\<close>

definition value_packet ::
  "build_env \<Rightarrow> string \<Rightarrow> u8 \<Rightarrow> u64 \<Rightarrow> i64 \<Rightarrow> packet_builder \<Rightarrow> udp_packet"
where
  "value_packet env symb mt ts v s =
     flat_packet (counted True [()] (spec_header env symb ''BinanceFutures'' mt ts (pb_sequence_counter s) (pb_clock_reads s)))
       [le_bytes 8 v]"

lemma value_built:
  assumes "mt \<in> {MESSAGE_TYPE_INDEX_PRICE, MESSAGE_TYPE_MARK_PRICE, MESSAGE_TYPE_FUNDING_RATE}"
  obtains s' where "build_single_value_packet env symb ''BinanceFutures'' mt ts v s = (Ok (value_packet env symb mt ts v s), s')"
    "advanced 1 s s'"
  using build_single_value_eq [OF assms, of env symb "''BinanceFutures''" ts v s] unfolding value_packet_def by blast

text \<open>The packet does not depend on more of the builder than its two counters.\<close>

lemma value_packet_advanced:
  assumes "advanced n s s1" "advanced n s s2"
  shows "value_packet env symb mt ts v s1 = value_packet env symb mt ts v s2"
  using assms by (simp add: value_packet_def advanced_def)

definition same_but_time :: "u8 list \<Rightarrow> u8 list \<Rightarrow> bool" where
  "same_but_time a b \<longleftrightarrow> drop 67 a = drop 67 b
     \<and> header_read a = (header_read b)\<lparr>h_exchange_timestamp := millis_to_nanos (h_exchange_timestamp (header_read b))\<rparr>"

lemma value_packet_time:
  "same_but_time (u_data (value_packet env symb mt (millis_to_nanos ts) v s)) (u_data (value_packet env symb mt ts v s))"
  by (simp add: same_but_time_def value_packet_def counted_def set_flags_and_count_def spec_header_def header_valid_def Let_def)

lemma emit_value:
  assumes "mt \<in> {MESSAGE_TYPE_INDEX_PRICE, MESSAGE_TYPE_MARK_PRICE, MESSAGE_TYPE_FUNDING_RATE}" "de_net env = (\<lambda>_. good_os k)"
    and "st' = demo_emit env (build_single_value_packet (de_build env) symb ''BinanceFutures'' mt ts v) st"
  shows "advanced 1 (dm_builder st) (dm_builder st')" "um_target_port (dm_udp st') = um_target_port (dm_udp st)"
    and "um_wire (dm_udp st') = um_wire (dm_udp st)
      @ [(um_target_port (dm_udp st), u_data (value_packet (de_build env) symb mt ts v (dm_builder st)))]"
proof -
  obtain s' where "build_single_value_packet (de_build env) symb ''BinanceFutures'' mt ts v (dm_builder st)
      = (Ok (value_packet (de_build env) symb mt ts v (dm_builder st)), s')" "advanced 1 (dm_builder st) s'"
    using value_built [OF assms(1)] by blast
  then show "advanced 1 (dm_builder st) (dm_builder st')" "um_target_port (dm_udp st') = um_target_port (dm_udp st)"
    "um_wire (dm_udp st') = um_wire (dm_udp st)
      @ [(um_target_port (dm_udp st), u_data (value_packet (de_build env) symb mt ts v (dm_builder st)))]"
    using assms(2) by (simp_all add: assms(3) demo_emit_def send_packet_def finish_send_def good_os_def case_prod_beta)
qed

lemma built_mark_price:
  "\<exists>s1 s2 s3. build_packets env (adjust_exchange ''BinanceFutures'' (mark_price_data symb i m f ts)) s =
      (Ok [value_packet env symb MESSAGE_TYPE_INDEX_PRICE ts (scaled_by PRICE_SCALE i) s,
           value_packet env symb MESSAGE_TYPE_MARK_PRICE ts (scaled_by PRICE_SCALE m) s1,
           value_packet env symb MESSAGE_TYPE_FUNDING_RATE ts (scaled_by PRICE_SCALE f) s2], s3)
     \<and> advanced 1 s s1 \<and> advanced 2 s s2"
proof -
  let ?p = "\<lambda>mt v s. value_packet env symb mt ts (scaled_by PRICE_SCALE v) s"
  let ?b = "\<lambda>mt v s. build_single_value_packet env symb ''BinanceFutures'' mt ts (scaled_by PRICE_SCALE v) s"
  obtain s1 where 1: "?b MESSAGE_TYPE_INDEX_PRICE i s = (Ok (?p MESSAGE_TYPE_INDEX_PRICE i s), s1)" "advanced 1 s s1"
    by (rule value_built [of MESSAGE_TYPE_INDEX_PRICE env symb ts "scaled_by PRICE_SCALE i" s]) auto
  obtain s2 where 2: "?b MESSAGE_TYPE_MARK_PRICE m s1 = (Ok (?p MESSAGE_TYPE_MARK_PRICE m s1), s2)" "advanced 1 s1 s2"
    by (rule value_built [of MESSAGE_TYPE_MARK_PRICE env symb ts "scaled_by PRICE_SCALE m" s1]) auto
  obtain s3 where 3: "?b MESSAGE_TYPE_FUNDING_RATE f s2 = (Ok (?p MESSAGE_TYPE_FUNDING_RATE f s2), s3)"
    by (rule value_built [of MESSAGE_TYPE_FUNDING_RATE env symb ts "scaled_by PRICE_SCALE f" s2]) auto
  have "try_extend (\<lambda>it s. build_packets env it s) [IndexPrice symb ''BinanceFutures'' i ts, MarkPrice symb ''BinanceFutures'' m ts,
      FundingRate symb ''BinanceFutures'' f ts] s = (Ok ([?p MESSAGE_TYPE_INDEX_PRICE i s] @ [?p MESSAGE_TYPE_MARK_PRICE m s1]
        @ [?p MESSAGE_TYPE_FUNDING_RATE f s2] @ []), s3)"
    by (rule try_extend_Cons [where ?s1.0 = s1, OF _ try_extend_Cons [where ?s1.0 = s2, OF _ try_extend_Cons [OF _ try_extend_Nil]]])
      (simp_all add: 1(1) 2(1) 3 Let_def)
  moreover have "advanced 2 s s2" using advanced_trans [OF 1(2) 2(2)] unfolding one_add_one .
  ultimately show ?thesis using 1(2) by (auto simp: mark_price_data_def)
qed

text \<open>C40: For a mark price event that the feeder accepts, of an upper-case pair with a quote currency of four
  letters, the demonstration program hands over the same three packets as the feeder would build from
  the same counters, over a network that takes them, except for one field: its exchange timestamp is in
  milliseconds, not in nanoseconds.\<close>

theorem demo_prices_agree:
  assumes "parse_binance_event event = Ok d" "get_str event ''e'' = Some ''markPriceUpdate''"
    and "get_str event ''s'' = Some (b @ q)" "q \<in> {''USDT'', ''USDC'', ''BUSD''}" "2 \<le> length b" "to_uppercase b = b"
    and "de_net env = (\<lambda>_. good_os k)"
  shows "\<exists>ps s' ls st' ds. build_packets (de_build env) (adjust_exchange ''BinanceFutures'' d) (dm_builder st) = (Ok ps, s')
     \<and> handle_mark_price env stream_name event st = Some (ls, st')
     \<and> um_wire (dm_udp st') = um_wire (dm_udp st) @ map (Pair (um_target_port (dm_udp st))) ds
     \<and> list_all2 same_but_time (map u_data ps) ds \<and> length ps = 3"
proof -
  obtain sy i m f where d: "d = mark_price_data (normalize_binance_symbol sy) i m f (event_time_nanos event)"
    and sy: "get_str event ''s'' = Some sy" and vals: "Option.bind (get_str event ''i'') parse_f64 = Some i"
      "Option.bind (get_str event ''p'') parse_f64 = Some m" "Option.bind (get_str event ''r'') parse_f64 = Some f"
    using mark_price_parsed [OF assms(1,2)] by metis
  define symb where "symb = normalize_binance_symbol (b @ q)"
  define ts where "ts = event_time event"
  have dd: "d = mark_price_data symb i m f (millis_to_nanos ts)"
    using d sy assms(3) by (simp add: symb_def ts_def event_time_nanos_def event_time_def)
  have std: "to_std_symbol (b @ q) = Some symb" unfolding symb_def using assms(4-6) by (rule std_symbol_agrees)
  have strs: "str_or_empty event ''s'' = b @ q" "parse_f64 (str_or_empty event ''i'') = Some i"
      "parse_f64 (str_or_empty event ''p'') = Some m" "parse_f64 (str_or_empty event ''r'') = Some f"
    using vals assms(3) by (auto simp: str_or_empty_def split: option.splits)
  let ?be = "de_build env"
  let ?emit = "\<lambda>mt v st. demo_emit env (build_single_value_packet ?be symb ''BinanceFutures'' mt ts (scaled_by PRICE_SCALE v)) st"
  let ?p = "\<lambda>mt ts v s. value_packet ?be symb mt ts (scaled_by PRICE_SCALE v) s"
  define st1 where "st1 = ?emit MESSAGE_TYPE_INDEX_PRICE i st"
  define st2 where "st2 = ?emit MESSAGE_TYPE_MARK_PRICE m st1"
  define st3 where "st3 = ?emit MESSAGE_TYPE_FUNDING_RATE f st2"
  note e1 = emit_value [OF _ assms(7) st1_def, simplified]
  note e2 = emit_value [OF _ assms(7) st2_def, simplified]
  note e3 = emit_value [OF _ assms(7) st3_def, simplified]
  have "FUNDING_RATE_SCALE = PRICE_SCALE" by (simp add: FUNDING_RATE_SCALE_def PRICE_SCALE_def)
  then obtain ls where "handle_mark_price env stream_name event st = Some (ls, st3)"
    by (simp add: handle_mark_price_def strs std Let_def st1_def st2_def st3_def ts_def)
  moreover obtain s1 s2 s3 where b: "build_packets ?be (adjust_exchange ''BinanceFutures'' d) (dm_builder st) =
      (Ok [?p MESSAGE_TYPE_INDEX_PRICE (millis_to_nanos ts) i (dm_builder st), ?p MESSAGE_TYPE_MARK_PRICE (millis_to_nanos ts) m s1,
           ?p MESSAGE_TYPE_FUNDING_RATE (millis_to_nanos ts) f s2], s3)"
      "advanced 1 (dm_builder st) s1" "advanced 2 (dm_builder st) s2"
    using built_mark_price [of ?be symb i m f "millis_to_nanos ts" "dm_builder st"] unfolding dd by blast
  let ?ds = "[u_data (?p MESSAGE_TYPE_INDEX_PRICE ts i (dm_builder st)), u_data (?p MESSAGE_TYPE_MARK_PRICE ts m (dm_builder st1)),
       u_data (?p MESSAGE_TYPE_FUNDING_RATE ts f (dm_builder st2))]"
  have "advanced 2 (dm_builder st) (dm_builder st2)"
    using advanced_trans [OF e1(1) [folded One_nat_def] e2(1) [folded One_nat_def]] unfolding one_add_one .
  then have eqs: "?p MESSAGE_TYPE_MARK_PRICE ts m (dm_builder st1) = ?p MESSAGE_TYPE_MARK_PRICE ts m s1"
    "?p MESSAGE_TYPE_FUNDING_RATE ts f (dm_builder st2) = ?p MESSAGE_TYPE_FUNDING_RATE ts f s2"
    using value_packet_advanced b(2,3) e1(1) [folded One_nat_def] by blast+
  have "list_all2 same_but_time (map u_data [?p MESSAGE_TYPE_INDEX_PRICE (millis_to_nanos ts) i (dm_builder st),
      ?p MESSAGE_TYPE_MARK_PRICE (millis_to_nanos ts) m s1, ?p MESSAGE_TYPE_FUNDING_RATE (millis_to_nanos ts) f s2]) ?ds"
    unfolding eqs by (simp add: value_packet_time)
  moreover have "um_wire (dm_udp st3) = um_wire (dm_udp st) @ map (Pair (um_target_port (dm_udp st))) ?ds"
    using e1(2,3) e2(2,3) e3(3) by simp
  ultimately show ?thesis using b(1)
    by (intro exI conjI) (assumption | simp)+
qed

definition sample_demo_env :: demo_env where
  "sample_demo_env =
     \<lparr> de_build = \<lparr> clk = (\<lambda>n. int n), ts_order = (\<lambda>_ ks. ks), key_order = (\<lambda>_ ks. ks) \<rparr>,
       de_net = (\<lambda>_. good_os 75), de_from_str = (\<lambda>_. Some sample_mark_price) \<rparr>"

definition sample_demo :: demo where
  "sample_demo = \<lparr> dm_builder = packet_builder_new, dm_udp = sample_multicaster, dm_sends = 0 \<rparr>"

theorem demo_prices_agree_witness:
  "\<exists>ls st' ds. handle_mark_price sample_demo_env ''btcusdt@markPrice@1s'' (event_object sample_mark_price) sample_demo = Some (ls, st')
     \<and> um_wire (dm_udp st') = map (Pair 55555) ds \<and> length ds = 3"
proof -
  let ?e = "event_object sample_mark_price"
  obtain d where d: "parse_binance_event ?e = Ok d" using parse_sample by (auto simp: parse_binance_message_def)
  have t: "get_str ?e ''e'' = Some ''markPriceUpdate''" "get_str ?e ''s'' = Some (''BTC'' @ ''USDT'')"
    by (simp_all add: get_str_def event_object_def sample_mark_price_def)
  have b: "''USDT'' \<in> {''USDT'', ''USDC'', ''BUSD''}" "(2::nat) \<le> length ''BTC''" "to_uppercase ''BTC'' = ''BTC''"
    by (simp_all add: to_uppercase_def ascii_upper_def code_of_def)
  have n: "de_net sample_demo_env = (\<lambda>_. good_os 75)" by (simp add: sample_demo_env_def)
  have w: "um_wire (dm_udp sample_demo) = []" "um_target_port (dm_udp sample_demo) = 55555"
    by (simp_all add: sample_demo_def sample_multicaster_def)
  from demo_prices_agree [OF d t b n, of sample_demo "''btcusdt@markPrice@1s''"] show ?thesis
    unfolding w append_Nil by (metis list_all2_lengthD length_map)
qed

end
