(* ===== verification/Unit_Tests.thy ===== *)
theory Unit_Tests
  imports Protocol_Properties Event_Properties Parser_Properties Feeder_Main Main_Properties
begin

text \<open>
  The unit tests of the repository, evaluated on the model. A test of the sources that asserts a value
  is a lemma with the same inputs; so the model agrees with every value that the authors wrote down, and
  the one test that the code cannot pass is shown to fail.
\<close>

section \<open>\<^verbatim>\<open>protocol.rs\<close>\<close>

lemma test_flags_and_count:
  "is_last (set_flags_and_count True 42 header_new) \<and> item_count (set_flags_and_count True 42 header_new) = 42"
  by code_simp

lemma test_struct_sizes:
  "length (header_to_bytes header_new) = 67" "length (book_to_bytes ob) = 16" "length (trade_to_bytes tt) = 16"
  by (simp_all add: header_codec.enc_length book_codec.enc_length trade_codec.enc_length)

definition fifty_thousand :: f64 where "fifty_thousand = f64_of_int 50000"
definition one_and_half :: f64 where "one_and_half = round_f64 False 3 2"

lemma test_literals:
  "fifty_thousand = Finite False 6871947673600000 (- 37)" "one_and_half = Finite False 6755399441055744 (- 52)"
  by (simp_all add: fifty_thousand_def one_and_half_def f64_eval)

lemma test_scaled:
  "sint (scaled_by 100000000 fifty_thousand) = 5000000000000" "sint (scaled_by 100000000 one_and_half) = 150000000"
  unfolding test_literals by (simp_all add: scaled_by_eq) (simp_all add: f64_eval)

lemma test_trade_tick_flags:
  "trade_is_buyer_taker (trade_tick_item_new fifty_thousand one_and_half True)"
  "trade_get_real_price (trade_tick_item_new fifty_thousand one_and_half True) = fifty_thousand"
  "trade_get_real_quantity (trade_tick_item_new fifty_thousand one_and_half True) = one_and_half"
proof -
  have "f64_div (f64_of_int 5000000000000) (f64_of_int 100000000) = fifty_thousand"
    "f64_div (f64_of_int 150000000) (f64_of_int 100000000) = one_and_half"
    unfolding test_literals by (simp_all add: f64_eval)
  then show "trade_is_buyer_taker (trade_tick_item_new fifty_thousand one_and_half True)"
    "trade_get_real_price (trade_tick_item_new fifty_thousand one_and_half True) = fifty_thousand"
    "trade_get_real_quantity (trade_tick_item_new fifty_thousand one_and_half True) = one_and_half"
    unfolding trade_is_buyer_taker_def trade_get_real_price_def trade_get_real_quantity_def trade_quantity_def
      tt_new_simps quantity_of_with_flag flag_of_with_flag scales f64_of_i64_def sint_quantity_of test_scaled
    by simp_all
qed

section \<open>\<^verbatim>\<open>events.rs\<close>\<close>

lemma test_event_struct_sizes: "event_valid e \<Longrightarrow> length (get_payload_bytes e) = 16"
  by (cases e) (simp_all add: heartbeat_codec.enc_length connection_status_codec.enc_length
      subscription_status_codec.enc_length system_stats_codec.enc_length error_event_codec.enc_length)

lemma test_exchange_id_mapping:
  "exchange_name_to_id ''binance'' = EXCHANGE_ID_BINANCE" "exchange_name_to_id ''Binance'' = EXCHANGE_ID_BINANCE"
  "exchange_name_to_id ''BINANCE'' = EXCHANGE_ID_BINANCE" "exchange_name_to_id ''unknown'' = 0"
  by code_simp+

lemma test_system_event_methods:
  "get_message_type (Heartbeat (system_heartbeat_new 3600 5 12345)) = MESSAGE_TYPE_SYSTEM_HEARTBEAT"
  "get_symbol (Heartbeat (system_heartbeat_new 3600 5 12345)) = ''SYSTEM''"
  "get_exchange (Heartbeat (system_heartbeat_new 3600 5 12345)) = ''FEEDER''"
  "length (get_payload_bytes (Heartbeat (system_heartbeat_new 3600 5 12345))) = 16"
  by code_simp+

lemma test_connection_status_event:
  "get_message_type (ConnectionStatus (connection_status_new EXCHANGE_ID_BINANCE CONNECTION_STATUS_DISCONNECTED
     CONNECTION_STATUS_CONNECTING 1 0)) = MESSAGE_TYPE_CONNECTION_STATUS"
  "get_exchange (ConnectionStatus (connection_status_new EXCHANGE_ID_BINANCE CONNECTION_STATUS_DISCONNECTED
     CONNECTION_STATUS_CONNECTING 1 0)) = ''binance''"
  by code_simp+

section \<open>\<^verbatim>\<open>data_parser.rs\<close>\<close>

lemma test_binance_symbol_normalization:
  "normalize_binance_symbol ''BTCUSDT'' = ''BTC^USDT''" "normalize_binance_symbol ''ETHUSDT'' = ''ETH^USDT''"
  "normalize_binance_symbol ''ADABTC'' = ''ADA^BTC''"
  by code_simp+

lemma test_exchange_normalization:
  "normalize_exchange_name ''binance'' ''spot'' = ''BinanceSpot''"
  "normalize_exchange_name ''binance'' ''futures'' = ''BinanceFutures''"
  "normalize_exchange_name ''bybit'' ''linear'' = ''BybitLinear''" "normalize_exchange_name ''okx'' ''swap'' = ''OkxSwap''"
  by code_simp+

lemma test_parser_creation: "''binance'' \<in> fst ` set (dp_parsers (new_with_config ord None))"
  by (simp add: new_with_config_def)

definition test_trade_json :: json where
  "test_trade_json = JObject [(''stream'', JString ''btcusdt@trade''), (''data'', JObject
     [(''e'', JString ''trade''), (''E'', JNumber (PosInt 1700000000000)), (''s'', JString ''BTCUSDT''),
      (''t'', JNumber (PosInt 1)), (''p'', JString ''50000.00''), (''q'', JString ''0.10000000''),
      (''T'', JNumber (PosInt 1700000000000)), (''m'', JBool False)])]"

lemma test_parse_binance_combined_trade:
  "\<exists>t. parse_binance_message (\<lambda>_. Some test_trade_json) data = Ok (Trade t) \<and> t_symbol t = ''BTC^USDT''
     \<and> t_exchange t = ''BinanceSpot'' \<and> t_is_buyer_taker t \<and> t_price t = fifty_thousand"
proof -
  have "normalize_binance_symbol ''BTCUSDT'' = ''BTC^USDT''" "normalize_exchange_name ''binance'' ''spot'' = ''BinanceSpot''"
    by code_simp+
  moreover have "parse_f64 ''50000.00'' = Some fifty_thousand"
    unfolding fifty_thousand_def by (simp add: parse_eval f64_eval)
  moreover have "\<exists>q. parse_f64 ''0.10000000'' = Some q" by (simp add: parse_eval)
  ultimately show ?thesis
    by (auto simp: parse_binance_message_def parse_binance_event_def event_object_def test_trade_json_def get_str_def
        trade_from_value_def req_def opt_u64_def convert_binance_trade_def parse_price_def Let_def)
qed

section \<open>\<^verbatim>\<open>packet_builder.rs\<close>\<close>

lemma test_packet_builder_creation: "get_sequence_number packet_builder_new = 1"
  by (simp add: get_sequence_number_def packet_builder_new_def)

section \<open>\<^verbatim>\<open>udp_broadcaster.rs\<close>\<close>

lemma test_udp_multicaster_creation:
  "\<exists>b. multicaster_new \<lparr> uc_multicast = ''239.1.1.1'', uc_port_number = 19001, uc_interface = ''127.0.0.1'' \<rparr> (good_os n) = Ok b
     \<and> snd (target_address b) = 19001"
proof -
  have "parse_ipv4 ''239.1.1.1'' = Some [239, 1, 1, 1]" "parse_ipv4 ''127.0.0.1'' = Some [127, 0, 0, 1]" by code_simp+
  then show ?thesis by (simp add: multicaster_new_def good_os_def target_address_def)
qed

lemma test_stats_calculation:
  "average_packet_size \<lparr> us_packets_sent = 100, us_bytes_sent = 15000 \<rparr> = f64_of_int 150"
  "average_packet_size \<lparr> us_packets_sent = 0, us_bytes_sent = 0 \<rparr> = f64_zero"
  by (simp_all add: average_packet_size_def f64_of_u64_def f64_eval)

section \<open>\<^verbatim>\<open>connection_manager.rs\<close>\<close>

lemma test_backoff_delay_calculation:
  "map calculate_backoff_delay [0, 1, 2, 3, 10] = [1000, 2000, 4000, 8000, 60000]"
  by (simp add: calculate_backoff_delay_def)

definition test_url :: "string \<Rightarrow> string result" where
  "test_url base = build_binance_websocket_url_from_endpoint
     \<lparr> ep_exchange_name = ''Binance'', ep_ws_url_base = base, ep_timeout_ms = 5000, ep_ping_interval_ms = Some 30000, ep_enabled = True \<rparr>
     [''BTC^USDT'', ''ETH^USDT'']"

definition ok_contains :: "string result \<Rightarrow> string \<Rightarrow> bool" where
  "ok_contains r p = (case r of Inr u \<Rightarrow> contains u p | Inl e \<Rightarrow> False)"

lemma test_streams:
  "join ''/'' (stream_names [''trade'', ''depth''] [''BTC^USDT'', ''ETH^USDT'']) =
     ''btcusdt@trade/btcusdt@depth/ethusdt@trade/ethusdt@depth''"
  "join ''/'' (stream_names [''trade'', ''depth@0ms'', ''markPrice@1s'', ''forceOrder''] [''BTC^USDT'', ''ETH^USDT'']) =
     ''btcusdt@trade/btcusdt@depth@0ms/btcusdt@markPrice@1s/btcusdt@forceOrder/'' @
     ''ethusdt@trade/ethusdt@depth@0ms/ethusdt@markPrice@1s/ethusdt@forceOrder''"
  by code_simp+

lemmas test_urls = test_url_def build_binance_websocket_url_from_endpoint_def legacy_urls exchange_endpoint.simps test_streams

lemma test_binance_combined_stream_url_spot:
  "ok_contains (test_url ''wss://stream.binance.com:9443/ws/'') ''wss://stream.binance.com:9443/stream?streams=''"
  "ok_contains (test_url ''wss://stream.binance.com:9443/ws/'') ''btcusdt@trade/btcusdt@depth/ethusdt@trade/ethusdt@depth''"
  unfolding test_urls by code_simp+

text \<open>The second assertion of the futures test does not hold: the mark price and liquidation streams stand between.\<close>

lemma test_binance_combined_stream_url_futures_fails:
  "ok_contains (test_url ''wss://fstream.binance.com/ws/'') ''wss://fstream.binance.com/stream?streams=''"
  "\<not> ok_contains (test_url ''wss://fstream.binance.com/ws/'')
     ''btcusdt@trade/btcusdt@depth@0ms/ethusdt@trade/ethusdt@depth@0ms''"
  unfolding test_urls by code_simp+

end
