(* ===== verification/Spec2Isabelle.thy ===== *)
theory Spec2Isabelle
  imports Trade_Groups Udp_Counter Protocol_Properties Config_Laws Feeder_Main Tool_Properties Event_Properties Parser_Properties
    Udp_Properties Interleaving Task_Schedule Pipeline Receiver_Main Main_Properties Demo_Properties Unit_Tests
begin

text \<open>
  A verification development for CryptoFeeder, a program that reads market data of exchanges from
  WebSocket sessions and multicasts it as small binary UDP packets. The Rust sources are under \<^verbatim>\<open>src/src\<close>.

  \<^bold>\<open>The program.\<close> \<^verbatim>\<open>main.rs\<close> loads the configuration (\<^verbatim>\<open>config.rs\<close>), makes one multicaster
  (\<^verbatim>\<open>udp_broadcaster.rs\<close>), one packet builder (\<^verbatim>\<open>packet_builder.rs\<close>) and one parser (\<^verbatim>\<open>data_parser.rs\<close>), and
  runs the connection manager (\<^verbatim>\<open>connection_manager.rs\<close>). It starts one task for each session of the
  symbol file, or for each exchange when there is no such file. A task connects, parses every message,
  builds packets (\<^verbatim>\<open>protocol.rs\<close>) and sends them to the port of its session; it also announces the states of
  its connection as system events (\<^verbatim>\<open>events.rs\<close>). All tasks share the builder, whose sequence counter is
  atomic, and the multicaster. The programs of \<^verbatim>\<open>bin\<close> receive such packets (\<^verbatim>\<open>decoder.rs\<close>, \<^verbatim>\<open>udp_counter.rs\<close>)
  or demonstrate streams (\<^verbatim>\<open>binance_misc_streams_demo.rs\<close>, \<^verbatim>\<open>binance_depth0ms_demo.rs\<close>).

  \<^bold>\<open>What the language and its library give.\<close>
  \<^item> \<open>Prelude\<close>: machine integers, the errors of \<^verbatim>\<open>errors.rs\<close>, \<open>result\<close> as a sum (\<open>Err\<close> is \<open>Inl\<close>, \<open>Ok\<close> is \<open>Inr\<close>), and the
    loops over chunks that stop at an error.
  \<^item> \<open>Wire\<close>: little-endian fields of packed structs; the locales \<open>codec\<close> and \<open>codec_onto\<close> are the contract of a
    fixed-size encoding, interpreted for every struct on the wire.
  \<^item> \<open>Rust_F64\<close>, \<open>F64_Laws\<close>: \<^verbatim>\<open>f64\<close> as binary64 with round half to even, decimal literals and parsing, the
    saturating cast to \<^verbatim>\<open>i64\<close>, and the laws of rounding that fixed-point scaling rests on.
  \<^item> \<open>Rust_Sort\<close>: \<^verbatim>\<open>sort_by\<close> as the stable sort that the documentation promises, for comparisons that meet the
    locale \<open>stable_order\<close>; for others (a NaN price) nothing is claimed about the order.
  \<^item> \<open>Rust_Str\<close>: strings as their UTF-8 bytes, with the methods that the program uses. Case mapping is that of
    ASCII; other letters are left alone.

  \<^bold>\<open>The components.\<close>
  \<^item> \<open>Protocol\<close> models \<^verbatim>\<open>protocol.rs\<close>, \<open>Events\<close> models \<^verbatim>\<open>events.rs\<close>, \<open>Market_Data\<close> the standardised data.
  \<^item> \<open>Packet_Builder\<close> models \<^verbatim>\<open>packet_builder.rs\<close>. Its state has the sequence counter, the payload pool and the
    number of clock readings so far. \<open>Packet_Laws\<close> gives the abstract specification \<open>packet_run\<close> of a chunked
    message, \<open>Order_Laws\<close> the order of the items, \<open>Feed_Wire\<close> what a receiver reads, \<open>Trade_Groups\<close> the grouping
    of trades through hash maps.
  \<^item> \<open>Decoder\<close> and \<open>Udp_Counter\<close> model the receiving programs, with the lines that they print as values. Their
    own copies of the packed structs are layouts, proved to read like those of \<^verbatim>\<open>protocol.rs\<close>.
    \<open>Receiver_Main\<close> has their main functions, with the set-up of the socket as a sequence of system calls.
  \<^item> \<open>Feeder_Config\<close> models \<^verbatim>\<open>config.rs\<close>; a hash map is an association list in the order of insertion, and
    iterating over one applies an arbitrary reordering.
  \<^item> \<open>Data_Parser\<close> models \<^verbatim>\<open>data_parser.rs\<close>, \<open>Udp_Multicaster\<close> models \<^verbatim>\<open>udp_broadcaster.rs\<close>.
  \<^item> \<open>Connection_Manager\<close> models one task of \<^verbatim>\<open>connection_manager.rs\<close> as functions on the shared state \<open>feeder\<close>.
    The retry loops are partial functions whose result is \<open>None\<close> when they never return. \<open>Session_Laws\<close> states
    with locales what a relation on states needs so that a whole session or exchange keeps it.
  \<^item> \<open>Interleaving\<close> has all tasks at once: \<open>feeder_step\<close> is the abstract step relation whose steps are the
    atomic operations on the shared parts. It is a specification of the tasks and not a translation.
  \<^item> \<open>Task_Schedule\<close> has all tasks at once message by message: a step of \<open>tasks_step\<close> is the handling of one
    message, event or pause of any task by the functions of \<open>Connection_Manager\<close>, since these do not
    wait in between. The function of a task is a run of \<open>tasks_step\<close>, and a run of \<open>tasks_step\<close> is a
    run of \<open>feeder_step\<close>: three levels, each refining the next.
  \<^item> \<open>Feeder_Main\<close> models \<^verbatim>\<open>main.rs\<close> from the configuration to the exit code, \<open>Demo_Streams\<close> the two
    demonstrations. \<open>Pipeline\<close> follows a message through the parser, the builder, the multicaster and the decoder.

  \<^bold>\<open>Parameters.\<close> What is not code of the repository is an argument: the system clock and the iteration
  order of hash maps (\<open>build_env\<close>), the answers of the operating system to the calls for one packet
  (\<open>os_answers\<close>), the JSON readers, the URL parser, the file system (\<open>config_env\<close>), and what every connection
  attempt and every stream gives, the system calls of the receiving tools, and the order of the events that
  can end the program. No property assumes more about them than it says.

  \<^bold>\<open>What is shown.\<close>
  \<^item> This theory: building packets is total, bounded and numbered; order books, trades and single values come
    out of a receiver as they went in, sorted, labelled and framed.
  \<^item> \<open>Protocol_Properties\<close>: the layout of the header and of names, and how exact scaled prices are.
  \<^item> \<open>Event_Properties\<close>, \<open>Tool_Properties\<close>: events round trip; the receiving programs handle every datagram, accept
    every packet of the builder and count correctly.
  \<^item> \<open>Config_Laws\<close>: written configuration files are read back.
  \<^item> \<open>Parser_Properties\<close>: conversions with their domains, normalised symbols, panics, the path of a mark price.
  \<^item> \<open>Udp_Properties\<close>: the statistics are those of the wire; sockets that failed to connect.
  \<^item> \<open>Session_Properties\<close>: a session ends after at most ten attempts; what it sends and announces.
  \<^item> \<open>Interleaving\<close>: numbers are unique over all interleavings. \<open>Task_Schedule\<close>: the refinements between the three
    levels; whatever the schedule, the wire has increasing numbers, on the ports of the tasks.
  \<^item> \<open>Pipeline\<close>: what the decoder prints for a depth message of a session; from the start of the program,
    whatever its schedule, only datagrams that the tools accept. \<open>Receiver_Main\<close>: the calls that the
    tools make and how they end.
  \<^item> \<open>Main_Properties\<close>: addresses, the end of the program, metrics. \<open>Demo_Properties\<close>: the demonstration against
    the feeder.
  \<^item> \<open>Unit_Tests\<close>: the unit tests of the repository, evaluated on the model; one of them fails.

  \<^bold>\<open>Bounds.\<close> Arithmetic wraps as in a release build. Counters are 64 bits wide; properties that count say
  so or bound the number of events. No definition has fuel: loops are structural over the data or the
  stream, or partial functions with a proof that they return. Delays are in milliseconds, clocks in
  nanoseconds. Error texts are English glosses of the Korean ones.

  \<^bold>\<open>Not modelled.\<close> The text of log and console lines (the lines themselves are values), how the logger
  filters them, how the runtime runs its threads, the socket options whose errors are ignored, the pause
  of the demonstrations, and the serde derives of the events, which nothing uses: they are calls of
  libraries without logic of the program. The \<^verbatim>\<open>Clone\<close> of the connection manager shares all its parts, which
  are the shared state here; the \<^verbatim>\<open>Default\<close> implementations call \<^verbatim>\<open>new\<close>, and \<^verbatim>\<open>lib.rs\<close> only declares modules.
  How long anything takes is not modelled, apart from the delays that a session asks for.
\<close>

section \<open>Sample inputs\<close>

definition sample_env :: build_env where
  "sample_env = \<lparr> clk = (\<lambda>n. 1700000000000000000 + int n), ts_order = (\<lambda>_ ks. ks), key_order = (\<lambda>_ ks. rev ks) \<rparr>"

definition sample_level :: "int \<Rightarrow> int \<Rightarrow> order_book_level" where
  "sample_level p q = \<lparr> l_price = f64_of_int p, l_quantity = f64_of_int q \<rparr>"

definition sample_book :: standardized_order_book_update where
  "sample_book = \<lparr> o_symbol = ''BTC^USDT'', o_exchange = ''BinanceSpot'',
     o_bids = [sample_level 100 1, sample_level 101 2], o_asks = [sample_level 103 1, sample_level 102 0],
     o_timestamp = 1700000000000000000 \<rparr>"

definition sample_trade :: "string \<Rightarrow> int \<Rightarrow> bool \<Rightarrow> standardized_trade" where
  "sample_trade symbol p b = \<lparr> t_symbol = symbol, t_exchange = ''BinanceSpot'', t_price = f64_of_int p,
     t_quantity = f64_of_int 1, t_is_buyer_taker = b, t_timestamp = 5 \<rparr>"

definition sample_batch :: standardized_trade_batch where
  "sample_batch = \<lparr> tb_symbol = ''BTC^USDT'', tb_exchange = ''BinanceSpot'', tb_exchange_timestamp = 5,
     tb_trades = [sample_trade ''BTC^USDT'' 100 False, sample_trade ''BTC^USDT'' 101 True] \<rparr>"

lemma sample_not_nan [simp]: "\<not> is_nan (f64_of_int i)"
  using round_f64_not_nan [of "i < 0" "nat \<bar>i\<bar>" 1] by (cases "f64_of_int i") (simp_all add: f64_of_int_def)

section \<open>Building packets\<close>



text \<open>C3: When no price is NaN, the items of an order book on the wire are first the bids, by falling
  scaled price, then the asks, by rising scaled price, each with its side flag; no level is lost or
  repeated.\<close>

theorem order_book_sorted:
  assumes "list_all (\<lambda>l. \<not> is_nan (l_price l)) (o_bids ob @ o_asks ob)"
  shows "\<exists>ps s' bids asks. build_order_book_packets env ob s = (Ok ps, s')
     \<and> concat (map (\<lambda>p. packet_items book_read (u_data p)) ps) = bids @ asks
     \<and> list_all (\<lambda>x. \<not> book_is_ask x) bids \<and> list_all book_is_ask asks
     \<and> sorted_wrt (\<lambda>a b. sint (ob_price b) \<le> sint (ob_price a)) bids
     \<and> sorted_wrt (\<lambda>a b. sint (ob_price a) \<le> sint (ob_price b)) asks
     \<and> mset bids = {# order_book_item_new (l_price l) (l_quantity l) False. l \<in># filter_mset (\<lambda>l. f64_zero < l_quantity l) (mset (o_bids ob)) #}
     \<and> mset asks = {# order_book_item_new (l_price l) (l_quantity l) True. l \<in># filter_mset (\<lambda>l. f64_zero < l_quantity l) (mset (o_asks ob)) #}"
proof -
  obtain ps s' where b: "build_order_book_packets env ob s = (Ok ps, s')"
    using emits_order_book [of s env ob] unfolding emits_def by blast
  then have "fst (build_order_book_packets env ob s) = Ok ps" by simp
  note items = order_book_items_roundtrip [OF this, unfolded all_book_items_def]
  show ?thesis
    using b items assms
    by (intro exI [of _ ps] exI [of _ s'] exI [of _ "book_items False (sort_by cmp_bids (o_bids ob))"]
        exI [of _ "book_items True (sort_by cmp_asks (o_asks ob))"])
      (auto simp: list_all_iff bids_descending asks_ascending book_items_is_ask mset_book_items_sort mset_book_items)
qed

theorem order_book_sorted_witness:
  "list_all (\<lambda>l. \<not> is_nan (l_price l)) (o_bids sample_book @ o_asks sample_book)
     \<and> (\<exists>ps s' bids asks. build_order_book_packets sample_env sample_book packet_builder_new = (Ok ps, s')
       \<and> concat (map (\<lambda>p. packet_items book_read (u_data p)) ps) = bids @ asks
       \<and> list_all (\<lambda>x. \<not> book_is_ask x) bids \<and> list_all book_is_ask asks)"
proof -
  have "list_all (\<lambda>l. \<not> is_nan (l_price l)) (o_bids sample_book @ o_asks sample_book)"
    by (simp add: sample_book_def sample_level_def)
  then show ?thesis using order_book_sorted [of sample_book sample_env packet_builder_new] by blast
qed

text \<open>C4: The packets of an order book update of \<open>n\<close> items are full packets of 80 items followed by one
  with the rest; only the last one has the last-packet flag, and all carry the same sanitised names, the
  message type 0 and the timestamp of the update.\<close>

theorem order_book_framing:
  "\<exists>ps s'. build_order_book_packets env ob s = (Ok ps, s')
     \<and> frames ps = framing 80 (length (book_items False (o_bids ob) @ book_items True (o_asks ob)))
     \<and> map labels ps = replicate (length ps)
         (take 19 (filter name_char (o_symbol ob)), take 19 (filter name_char (o_exchange ob)), 0, o_timestamp ob)"
proof (cases "all_book_items ob = []")
  case True
  then have "length (book_items False (o_bids ob) @ book_items True (o_asks ob)) = 0"
    using mset_all_book_items [of ob] by (metis length_0_conv size_mset)
  then show ?thesis using True by (simp add: build_order_book_Nil framing_def frames_def)
next
  case False
  have len: "length (book_items False (o_bids ob) @ book_items True (o_asks ob)) = length (all_book_items ob)"
    using mset_all_book_items [of ob] by (metis size_mset)
  obtain s' where "build_order_book_packets env ob s =
      (Ok (packet_run env (o_symbol ob) (o_exchange ob) MESSAGE_TYPE_ORDER_BOOK (o_timestamp ob)
        (map (map book_to_bytes) (chunks 80 (all_book_items ob))) s), s')"
    using build_order_book_eq [OF False, of env s] by blast
  then show ?thesis unfolding len using False by (simp add: frames_chunks labels_run message_types)
qed


text \<open>C6: When no price of a trade batch is NaN, the items on the wire are the buyer-taker trades by
  rising scaled price and then the others by falling scaled price, and trades of equal price and side
  keep the order of the message.\<close>

theorem trade_batch_sorted:
  assumes "list_all (\<lambda>t. \<not> is_nan (t_price t)) (tb_trades b)"
  shows "\<exists>ps s' sorted. build_trade_batch_packets env b s = (Ok ps, s')
     \<and> concat (map (\<lambda>p. packet_items trade_read (u_data p)) ps) = map trade_item sorted
     \<and> sorted_wrt trade_wire_le (map trade_item sorted)
     \<and> mset sorted = mset (tb_trades b)
     \<and> (\<forall>a. \<not> is_nan (t_price a) \<longrightarrow>
          filter (\<lambda>t. cmp_trades a t = Equal) sorted = filter (\<lambda>t. cmp_trades a t = Equal) (tb_trades b))"
proof -
  obtain ps s' where b: "build_trade_batch_packets env b s = (Ok ps, s')"
    using emits_trade_batch [of s env b] unfolding emits_def by blast
  then have "fst (build_trade_batch_packets env b s) = Ok ps" by simp
  note items = trade_batch_items_roundtrip [OF this]
  have nan: "\<forall>t \<in> set (tb_trades b). \<not> is_nan (t_price t)" using assms by (simp add: list_all_iff)
  show ?thesis
    using b items trades_sorted [OF nan] trade_order.sort_by_stable [OF nan, unfolded trade_order.eqv_def]
    by (intro exI [of _ ps] exI [of _ s'] exI [of _ "sort_by cmp_trades (tb_trades b)"]) simp
qed

theorem trade_batch_sorted_witness:
  "list_all (\<lambda>t. \<not> is_nan (t_price t)) (tb_trades sample_batch)
     \<and> (\<exists>ps s' sorted. build_trade_batch_packets sample_env sample_batch packet_builder_new = (Ok ps, s')
       \<and> concat (map (\<lambda>p. packet_items trade_read (u_data p)) ps) = map trade_item sorted
       \<and> sorted_wrt trade_wire_le (map trade_item sorted) \<and> mset sorted = mset (tb_trades sample_batch))"
proof -
  have "list_all (\<lambda>t. \<not> is_nan (t_price t)) (tb_trades sample_batch)"
    by (simp add: sample_batch_def sample_trade_def)
  then show ?thesis using trade_batch_sorted [of sample_batch sample_env packet_builder_new] by blast
qed

text \<open>C7: Whatever order the hash maps are visited in, grouping trades by timestamp and by symbol and
  exchange sends every trade exactly once, in a packet with its own sanitised names and its own
  timestamp, and never fails.\<close>

theorem grouped_trades_conserved:
  assumes "env_ok env"
  shows "\<exists>ps s'. build_trade_packets_batch env trades s = (Ok ps, s')
     \<and> mset (concat (map (\<lambda>p. map (Pair (labels p)) (packet_items trade_read (u_data p))) ps)) =
         mset (map (\<lambda>t. ((take 19 (filter name_char (t_symbol t)), take 19 (filter name_char (t_exchange t)),
                            1, t_timestamp t), trade_item t)) trades)"
  using yields_trades_batch [OF assms, of trades s]
  by (simp add: yields_def tagged_items_def tag_of_def [abs_def] message_types)

lemma sample_env_ok: "env_ok sample_env"
  by (simp add: env_ok_def sample_env_def)

theorem grouped_trades_conserved_witness:
  "env_ok sample_env \<and> (\<exists>ps s'. build_trade_packets_batch sample_env
       [sample_trade ''BTC^USDT'' 100 True, sample_trade ''ETH^USDT'' 7 False] packet_builder_new = (Ok ps, s')
     \<and> size (mset (concat (map (\<lambda>p. map (Pair (labels p)) (packet_items trade_read (u_data p))) ps))) = 2)"
proof -
  let ?ts = "[sample_trade ''BTC^USDT'' 100 True, sample_trade ''ETH^USDT'' 7 False]"
  obtain ps s' where p: "build_trade_packets_batch sample_env ?ts packet_builder_new = (Ok ps, s')"
    and m: "mset (concat (map (\<lambda>p. map (Pair (labels p)) (packet_items trade_read (u_data p))) ps)) =
      mset (map (\<lambda>t. ((take 19 (filter name_char (t_symbol t)), take 19 (filter name_char (t_exchange t)),
                            1, t_timestamp t), trade_item t)) ?ts)"
    using grouped_trades_conserved [OF sample_env_ok, of ?ts packet_builder_new] by blast
  have "size (mset (concat (map (\<lambda>p. map (Pair (labels p)) (packet_items trade_read (u_data p))) ps))) = 2"
    unfolding m by simp
  then show ?thesis using p sample_env_ok by blast
qed

text \<open>C8: An index price, mark price or funding rate makes exactly one packet, marked as the last, of
  75 bytes with one item: the value scaled by \<open>10^8\<close> in little-endian order.\<close>

theorem single_value_packet:
  assumes "(d, mt) \<in> {(IndexPrice symbol exchange v ts, 2), (MarkPrice symbol exchange v ts, 3), (FundingRate symbol exchange v ts, 4)}"
  shows "\<exists>p s'. build_packets env d s = (Ok [p], s') \<and> frames [p] = [(True, 1)] \<and> u_size p = 75
     \<and> labels p = (take 19 (filter name_char symbol), take 19 (filter name_char exchange), mt, ts)
     \<and> sint (of_le_bytes (drop 67 (u_data p)) :: i64) = f64_trunc (f64_mul v (f64_of_int 100000000))"
proof -
  have mt: "mt \<in> {MESSAGE_TYPE_INDEX_PRICE, MESSAGE_TYPE_MARK_PRICE, MESSAGE_TYPE_FUNDING_RATE}"
    using assms by (auto simp: message_types)
  have "build_packets env d s = single_packet (build_single_value_packet env symbol exchange mt ts (scaled_by PRICE_SCALE v) s)"
    using assms by (auto simp: message_types)
  then show ?thesis
    using build_single_value_eq [OF mt, of env symbol exchange ts "scaled_by PRICE_SCALE v" s]
    by (auto simp: frames_single labels_single length_flat_packet le_roundtrips scales scaled_by_eq)
qed

theorem single_value_packet_witness:
  "\<exists>p s'. build_packets sample_env (MarkPrice ''BTC^USDT'' ''BinanceFutures'' (f64_of_int 100) 7) packet_builder_new = (Ok [p], s')
     \<and> frames [p] = [(True, 1)] \<and> u_size p = 75"
  using single_value_packet [of "MarkPrice ''BTC^USDT'' ''BinanceFutures'' (f64_of_int 100) 7" 3
      "''BTC^USDT''" "''BinanceFutures''" "f64_of_int 100" 7 sample_env packet_builder_new] by auto

text \<open>C9: A liquidation makes exactly one packet with one item. Its price is the scaled price; the
  quantity is not masked before the flag is set, so the flag that a receiver reads is the sell side or
  a negative quantity.\<close>

theorem liquidation_packet:
  "\<exists>p s' it. build_packets env (Liquidation symbol exchange price qty is_sell ts) s = (Ok [p], s')
     \<and> frames [p] = [(True, 1)] \<and> u_size p = 83
     \<and> labels p = (take 19 (filter name_char symbol), take 19 (filter name_char exchange), 5, ts)
     \<and> packet_items trade_read (u_data p) = [it]
     \<and> sint (tt_price it) = f64_trunc (f64_mul price (f64_of_int 100000000))
     \<and> trade_is_buyer_taker it = (is_sell \<or> f64_trunc (f64_mul qty (f64_of_int 100000000)) < 0)
     \<and> sint (trade_quantity it) = f64_trunc (f64_mul qty (f64_of_int 100000000)) mod 2 ^ 63"
  using build_liquidation_view [of env symbol exchange ts price qty is_sell s]
  by (auto simp: frames_single labels_single length_flat_packet message_types packet_items_single
      trade_codec.enc_length liquidation_view_eqs)

end
